(* ===== verification/Prelude.thy ===== *)
theory Prelude
  imports Main "HOL-Library.Word"
begin

text \<open>
  Shared vocabulary of the development: machine integers, the fragment of the Rust
  standard library on strings that the gateway uses, and generic lemmas.

  A Rust \<open>String\<close> is UTF-8, so it is modelled by its bytes: a HOL \<open>string\<close> whose
  characters are read as octets by \<open>byte\<close>. \<open>len()\<close> is then \<open>length\<close>, and the Unicode
  white space that \<open>str::trim_start\<close> removes appears as its UTF-8 byte sequences.
\<close>

named_theorems guard_simps \<open>evaluation of the SQL guard\<close>
named_theorems frame_simps \<open>fields an operation leaves alone\<close>
named_theorems rpc_simps \<open>shape of the JSON-RPC replies\<close>

section \<open>Machine integers\<close>

type_synonym i64 = "64 word"
type_synonym u64 = "64 word"
type_synonym u32 = "32 word"
type_synonym u8 = "8 word"

section \<open>Results\<close>

text \<open>A Rust \<open>Result<T, E>\<close> is the sum \<open>'e + 't\<close>, with \<open>Inl\<close> for \<open>Err\<close>.\<close>

abbreviation is_ok :: "'e + 'a \<Rightarrow> bool" where
  "is_ok r \<equiv> \<not> isl r"

fun map_err :: "('e \<Rightarrow> 'f) \<Rightarrow> 'e + 'a \<Rightarrow> 'f + 'a" where
  "map_err f (Inl e) = Inl (f e)"
| "map_err f (Inr a) = Inr a"

lemma isl_map_err [simp]: "isl (map_err f r) = isl r"
  by (cases r) auto

lemma map_err_Inr_iff [simp]: "map_err f r = Inr a \<longleftrightarrow> r = Inr a"
  by (cases r) auto

text \<open>\<open>iter().map(f).collect::<Result<Vec<_>, _>>()\<close>: the first error, or every value in order.\<close>

fun collect_results :: "('a \<Rightarrow> 'e + 'b) \<Rightarrow> 'a list \<Rightarrow> 'e + 'b list" where
  "collect_results f [] = Inr []"
| "collect_results f (x # xs) =
     (case f x of Inl e \<Rightarrow> Inl e
      | Inr y \<Rightarrow> (case collect_results f xs of Inl e \<Rightarrow> Inl e | Inr ys \<Rightarrow> Inr (y # ys)))"

lemma collect_results_Inr_iff:
  "collect_results f xs = Inr ys \<longleftrightarrow> list_all2 (\<lambda>x y. f x = Inr y) xs ys"
proof (induction xs arbitrary: ys)
  case Nil
  then show ?case by auto
next
  case (Cons x xs)
  show ?case
    by (cases ys) (auto simp flip: Cons.IH split: sum.splits)
qed

lemma collect_results_Inl_iff:
  "collect_results f xs = Inl e \<longleftrightarrow>
    (\<exists>pre x post ys. xs = pre @ x # post \<and> collect_results f pre = Inr ys \<and> f x = Inl e)"
proof (induction xs)
  case Nil
  then show ?case by simp
next
  case (Cons a xs)
  show ?case (is "?L \<longleftrightarrow> ?R")
  proof
    assume L: ?L
    show ?R
    proof (cases "f a")
      case (Inl e')
      with L have "a # xs = [] @ a # xs \<and> collect_results f [] = Inr [] \<and> f a = Inl e"
        by simp
      then show ?thesis by blast
    next
      case (Inr y)
      with L have "collect_results f xs = Inl e" by (auto split: sum.splits)
      then obtain pre x post ys where
        "xs = pre @ x # post" "collect_results f pre = Inr ys" "f x = Inl e"
        using Cons.IH by blast
      then have "a # xs = (a # pre) @ x # post \<and>
          collect_results f (a # pre) = Inr (y # ys) \<and> f x = Inl e"
        using Inr by simp
      then show ?thesis by blast
    qed
  next
    assume ?R
    then obtain pre x post ys where
      *: "a # xs = pre @ x # post" "collect_results f pre = Inr ys" "f x = Inl e"
      by blast
    show ?L
    proof (cases pre)
      case Nil
      with * show ?thesis by simp
    next
      case (Cons b pre')
      with * obtain y where "f a = Inr y" and "collect_results f xs = Inl e"
        using Cons.IH by (auto split: sum.splits)
      then show ?thesis by simp
    qed
  qed
qed

section \<open>Bytes of a string\<close>

definition byte :: "char \<Rightarrow> nat" where
  "byte c = of_char c"

lemma byte_less: "byte c < 256"
  by (simp add: byte_def)

lemma byte_char_of: "n < 256 \<Longrightarrow> byte (char_of n) = n"
  by (simp add: byte_def)

lemma char_of_byte [simp]: "char_of (byte a) = a"
  by (simp add: byte_def)

text \<open>Quotation marks that a HOL string literal cannot hold directly.\<close>

definition dquote :: "string \<Rightarrow> string" where
  "dquote s = CHR 0x22 # s @ [CHR 0x22]"

definition squote :: "string \<Rightarrow> string" where
  "squote s = CHR 0x27 # s @ [CHR 0x27]"

section \<open>ASCII case and white space\<close>

text \<open>\<open>u8::to_ascii_uppercase\<close>: only \<open>a\<close>--\<open>z\<close> change.\<close>

definition ascii_upper :: "char \<Rightarrow> char" where
  "ascii_upper c = (if 97 \<le> byte c \<and> byte c \<le> 122 then char_of (byte c - 32) else c)"

definition to_ascii_uppercase :: "string \<Rightarrow> string" where
  "to_ascii_uppercase s = map ascii_upper s"

text \<open>\<open>u8::is_ascii_whitespace\<close>: space, tab, line feed, form feed and carriage return.\<close>

definition is_ascii_ws :: "char \<Rightarrow> bool" where
  "is_ascii_ws c \<longleftrightarrow> byte c = 32 \<or> byte c = 9 \<or> byte c = 10 \<or> byte c = 12 \<or> byte c = 13"

text \<open>\<open>split_ascii_whitespace().next()\<close>.\<close>

definition first_ascii_token :: "string \<Rightarrow> string option" where
  "first_ascii_token s =
     (case dropWhile is_ascii_ws s of
        [] \<Rightarrow> None
      | t \<Rightarrow> Some (takeWhile (\<lambda>c. \<not> is_ascii_ws c) t))"

text \<open>
  Length in bytes of the leading character when it has the Unicode property
  \<open>White_Space\<close>, and 0 otherwise: U+0009--U+000D, U+0020, U+0085, U+00A0, U+1680,
  U+2000--U+200A, U+2028, U+2029, U+202F, U+205F and U+3000.
\<close>

fun ws_len :: "string \<Rightarrow> nat" where
  "ws_len [] = 0"
| "ws_len (a # r) =
     (if 9 \<le> byte a \<and> byte a \<le> 13 \<or> byte a = 32 then 1
      else if byte a = 0xC2 then
        (case r of b # _ \<Rightarrow> if byte b = 0x85 \<or> byte b = 0xA0 then 2 else 0 | [] \<Rightarrow> 0)
      else (case r of
          b # c # _ \<Rightarrow>
            if byte a = 0xE1 \<and> byte b = 0x9A \<and> byte c = 0x80
             \<or> byte a = 0xE2 \<and> byte b = 0x80 \<and>
                 (0x80 \<le> byte c \<and> byte c \<le> 0x8A \<or> byte c = 0xA8 \<or> byte c = 0xA9 \<or> byte c = 0xAF)
             \<or> byte a = 0xE2 \<and> byte b = 0x81 \<and> byte c = 0x9F
             \<or> byte a = 0xE3 \<and> byte b = 0x80 \<and> byte c = 0x80
            then 3 else 0
        | _ \<Rightarrow> 0))"

lemma ws_len_pos_not_Nil: "0 < ws_len s \<Longrightarrow> s \<noteq> []"
  by auto

text \<open>\<open>str::trim_start\<close>.\<close>

function trim_start :: "string \<Rightarrow> string" where
  "trim_start s = (if ws_len s = 0 then s else trim_start (drop (ws_len s) s))"
  by pat_completeness auto
termination
  by (relation "measure length") (auto dest: ws_len_pos_not_Nil intro: diff_less)

declare trim_start.simps [simp del]

lemma trim_start_ascii_ws: "is_ascii_ws c \<Longrightarrow> trim_start (c # s) = trim_start s"
  by (subst trim_start.simps) (auto simp: is_ascii_ws_def)

lemma trim_start_ws_prefix:
  "\<forall>c \<in> set ws. is_ascii_ws c \<Longrightarrow> trim_start (ws @ s) = trim_start s"
  by (induction ws) (auto simp: trim_start_ascii_ws)

lemma trim_start_id: "ws_len s = 0 \<Longrightarrow> trim_start s = s"
  by (subst trim_start.simps) simp

lemma trim_start_no_ws: "ws_len (trim_start s) = 0"
proof (induction s rule: trim_start.induct)
  case (1 s)
  then show ?case by (cases "ws_len s = 0") (simp_all add: trim_start.simps [of s])
qed

text \<open>\<open>trim_end_matches('\\n')\<close>.\<close>

definition trim_end_newlines :: "string \<Rightarrow> string" where
  "trim_end_newlines s = rev (dropWhile (\<lambda>c. byte c = 10) (rev s))"

section \<open>Decimal numerals (\<open>Display\<close> of unsigned integers)\<close>

fun digit_char :: "nat \<Rightarrow> char" where
  "digit_char d = char_of (48 + d)"

fun nat_to_string :: "nat \<Rightarrow> string" where
  "nat_to_string n =
     (if n < 10 then [digit_char n] else nat_to_string (n div 10) @ [digit_char (n mod 10)])"

declare nat_to_string.simps [simp del]

fun digits_value :: "nat \<Rightarrow> string \<Rightarrow> nat" where
  "digits_value acc [] = acc"
| "digits_value acc (c # cs) = digits_value (10 * acc + (byte c - 48)) cs"

lemma digits_value_append:
  "digits_value acc (xs @ [c]) = 10 * digits_value acc xs + (byte c - 48)"
  by (induction xs arbitrary: acc) auto

lemma byte_digit_char: "d < 10 \<Longrightarrow> byte (digit_char d) = 48 + d"
  by (simp add: byte_def)

lemma digits_value_nat_to_string: "digits_value 0 (nat_to_string n) = n"
proof (induction n rule: nat_to_string.induct)
  case (1 n)
  then show ?case
    by (cases "n < 10")
      (simp_all add: nat_to_string.simps [of n] digits_value_append byte_digit_char del: digit_char.simps)
qed

text \<open>Distinct numbers print differently, so savepoint names never collide.\<close>

lemma nat_to_string_inj: "nat_to_string m = nat_to_string n \<Longrightarrow> m = n"
  by (metis digits_value_nat_to_string)

section \<open>Positional reads that can panic\<close>

definition nth_opt :: "'a list \<Rightarrow> nat \<Rightarrow> 'a option" where
  "nth_opt xs i = (if i < length xs then Some (xs ! i) else None)"

text \<open>Reading a word as a signed integer and back.\<close>

lemma word_of_int_sint [simp]: "word_of_int (sint w) = w"
  by simp

end
