(* ===== verification/Config.thy ===== *)
theory Config
  imports Prelude
begin

text \<open>
  \<open>src/config.rs\<close>: the configuration of a gateway, with the source's defaults. The
  field names carry the prefix \<open>cfg_\<close> because HOL record fields are global constants.
  \<open>u64\<close> and \<open>usize\<close> settings are 64-bit words.
\<close>

datatype journal_mode = Wal | Delete

fun journal_as_pragma_value :: "journal_mode \<Rightarrow> string" where
  "journal_as_pragma_value Wal = ''WAL''"
| "journal_as_pragma_value Delete = ''DELETE''"

datatype sync_mode = Normal | Full

fun sync_as_pragma_value :: "sync_mode \<Rightarrow> string" where
  "sync_as_pragma_value Normal = ''NORMAL''"
| "sync_as_pragma_value Full = ''FULL''"

datatype overflow_policy =
    Wait
  | Reject
  | WaitTimeout (millis: u64)

record batch_config =
  max_size :: nat
  max_delay_micros :: u64

definition batch_config_default :: batch_config where
  "batch_config_default = \<lparr>max_size = 64, max_delay_micros = 500\<rparr>"

record gateway_config =
  cfg_db_path :: string
  cfg_journal_mode :: journal_mode
  cfg_synchronous :: sync_mode
  cfg_queue_capacity :: nat
  cfg_track_commits :: bool
  cfg_busy_timeout_ms :: u64
  cfg_foreign_keys :: bool
  cfg_idempotency :: bool
  cfg_allow_raw_sql :: bool
  cfg_allow_schema_write :: bool
  cfg_allow_delete :: bool
  cfg_allow_drop :: bool
  cfg_overflow :: overflow_policy
  cfg_batch :: "batch_config option"

definition gateway_config_default :: gateway_config where
  "gateway_config_default =
     \<lparr>cfg_db_path = [],
      cfg_journal_mode = Wal,
      cfg_synchronous = Normal,
      cfg_queue_capacity = 1024,
      cfg_track_commits = True,
      cfg_busy_timeout_ms = 5000,
      cfg_foreign_keys = True,
      cfg_idempotency = True,
      cfg_allow_raw_sql = True,
      cfg_allow_schema_write = False,
      cfg_allow_delete = True,
      cfg_allow_drop = False,
      cfg_overflow = WaitTimeout 5000,
      cfg_batch = None\<rparr>"

definition gateway_config_new :: "string \<Rightarrow> gateway_config" where
  "gateway_config_new db_path = gateway_config_default\<lparr>cfg_db_path := db_path\<rparr>"

text \<open>The defaults as rewrite rules, so that proofs about the shipped binary need not unfold them.\<close>

lemma gateway_config_new_sel [simp]:
  "cfg_db_path (gateway_config_new p) = p"
  "cfg_journal_mode (gateway_config_new p) = Wal"
  "cfg_synchronous (gateway_config_new p) = Normal"
  "cfg_queue_capacity (gateway_config_new p) = 1024"
  "cfg_track_commits (gateway_config_new p)"
  "cfg_busy_timeout_ms (gateway_config_new p) = 5000"
  "cfg_foreign_keys (gateway_config_new p)"
  "cfg_idempotency (gateway_config_new p)"
  "cfg_allow_raw_sql (gateway_config_new p)"
  "\<not> cfg_allow_schema_write (gateway_config_new p)"
  "cfg_allow_delete (gateway_config_new p)"
  "\<not> cfg_allow_drop (gateway_config_new p)"
  "cfg_overflow (gateway_config_new p) = WaitTimeout 5000"
  "cfg_batch (gateway_config_new p) = None"
  by (simp_all add: gateway_config_new_def gateway_config_default_def)

end
