(* ===== verification/Request.thy ===== *)
theory Request
  imports Config "HOL-Library.Char_ord" "HOL-Library.List_Lexorder"
begin

text \<open>
  \<open>src/error.rs\<close> and \<open>src/request.rs\<close>: the error type with its \<open>Display\<close> texts, JSON
  values, requests and responses, and the JSON form of the types that derive
  \<open>Serialize\<close>/\<open>Deserialize\<close>.

  \<open>'e\<close> stands for \<open>rusqlite::Error\<close> and \<open>'n\<close> for \<open>serde_json::Number\<close>: both belong to
  crates outside the repository, so they stay type parameters and what the code asks of
  them is an argument (the record \<open>serde\<close> below, the record \<open>driver\<close> in \<open>Driver\<close>).
\<close>

section \<open>\<open>Error\<close>\<close>

datatype 'e error =
    Sqlite 'e
  | Json string
  | Migration string
  | SqlRejected string
  | GatewayClosed
  | GatewayOverloaded
  | IdempotencyConflict string
  | InvalidParam string
  | Io string
  | Protocol string

text \<open>The \<open>#[error("...")]\<close> attributes. The argument is \<open>Display\<close> of the driver's error.\<close>

fun error_to_string :: "('e \<Rightarrow> string) \<Rightarrow> 'e error \<Rightarrow> string" where
  "error_to_string d (Sqlite e) = ''sqlite error: '' @ d e"
| "error_to_string d (Json e) = ''json error: '' @ e"
| "error_to_string d (Migration m) = ''migration error: '' @ m"
| "error_to_string d (SqlRejected m) = ''sql rejected: '' @ m"
| "error_to_string d GatewayClosed = ''gateway is closed''"
| "error_to_string d GatewayOverloaded = ''gateway overloaded''"
| "error_to_string d (IdempotencyConflict k) =
     ''idempotency conflict: key '' @ squote k @ '' already used with a different request hash''"
| "error_to_string d (InvalidParam m) = ''invalid parameter: '' @ m"
| "error_to_string d (Io m) = ''io error: '' @ m"
| "error_to_string d (Protocol m) = ''protocol error: '' @ m"

section \<open>JSON values\<close>

text \<open>
  The public enum \<open>serde_json::Value\<close>. The entries of an object are listed in the order
  in which they are serialised; an object never holds a key twice.
\<close>

datatype 'n json =
    JNull
  | JBool bool
  | JNumber 'n
  | JString string
  | JArray "'n json list"
  | JObject "(string \<times> 'n json) list"

fun json_as_str :: "'n json \<Rightarrow> string option" where
  "json_as_str (JString s) = Some s"
| "json_as_str _ = None"

fun json_as_array :: "'n json \<Rightarrow> 'n json list option" where
  "json_as_array (JArray a) = Some a"
| "json_as_array _ = None"

fun json_as_object :: "'n json \<Rightarrow> (string \<times> 'n json) list option" where
  "json_as_object (JObject m) = Some m"
| "json_as_object _ = None"

text \<open>\<open>Value::get\<close> with a string key: \<open>None\<close> for every value that is not an object.\<close>

fun json_get :: "string \<Rightarrow> 'n json \<Rightarrow> 'n json option" where
  "json_get k (JObject m) = map_of m k"
| "json_get k _ = None"

text \<open>
  What the code uses of \<open>serde_json\<close>. \<open>num_of_i64\<close>, \<open>num_of_u64\<close> and \<open>num_of_f64\<close> are the
  conversions behind \<open>json!\<close> and \<open>to_value\<close>; \<open>to_text\<close> is \<open>to_string\<close> and \<open>from_text\<close> is
  \<open>from_str\<close>, with the text of their error; \<open>value_error T\<close> is the text of the error of a
  failed \<open>from_value::<T>\<close>. An \<open>f64\<close> is its IEEE 754 bit pattern.
\<close>

type_synonym f64 = "64 word"

record 'n serde =
  as_i64 :: "'n \<Rightarrow> i64 option"
  as_u64 :: "'n \<Rightarrow> u64 option"
  as_f64 :: "'n \<Rightarrow> f64 option"
  num_to_string :: "'n \<Rightarrow> string"
  num_of_i64 :: "i64 \<Rightarrow> 'n"
  num_of_u64 :: "u64 \<Rightarrow> 'n"
  num_of_f64 :: "f64 \<Rightarrow> 'n option"
  to_text :: "'n json \<Rightarrow> string + string"
  from_text :: "string \<Rightarrow> string + 'n json"
  value_error :: "string \<Rightarrow> 'n json \<Rightarrow> string"

fun json_as_i64 :: "'n serde \<Rightarrow> 'n json \<Rightarrow> i64 option" where
  "json_as_i64 S (JNumber n) = as_i64 S n"
| "json_as_i64 S _ = None"

section \<open>Requests and responses\<close>

record 'n sql_operation =
  sql :: string
  params :: "'n json list"

record 'n write_request =
  rq_request_id :: string
  rq_actor_id :: string
  rq_run_id :: "string option"
  rq_idempotency_key :: "string option"
  rq_operations :: "'n sql_operation list"

datatype write_status = Committed | Failed

record write_response =
  rs_request_id :: string
  rs_status :: write_status
  rs_commit_seq :: "i64 option"
  rs_error :: "string option"

definition committed :: "string \<Rightarrow> i64 option \<Rightarrow> write_response" where
  "committed request_id commit_seq =
     \<lparr>rs_request_id = request_id, rs_status = Committed,
      rs_commit_seq = commit_seq, rs_error = None\<rparr>"

definition failed :: "string \<Rightarrow> string \<Rightarrow> write_response" where
  "failed request_id err =
     \<lparr>rs_request_id = request_id, rs_status = Failed,
      rs_commit_seq = None, rs_error = Some err\<rparr>"

lemma committed_sel [simp]:
  "rs_request_id (committed i s) = i" "rs_status (committed i s) = Committed"
  "rs_commit_seq (committed i s) = s" "rs_error (committed i s) = None"
  by (simp_all add: committed_def)

lemma failed_sel [simp]:
  "rs_request_id (failed i e) = i" "rs_status (failed i e) = Failed"
  "rs_commit_seq (failed i e) = None" "rs_error (failed i e) = Some e"
  by (simp_all add: failed_def)

lemma committed_neq_failed [simp]:
  "committed i s \<noteq> failed j e" "failed j e \<noteq> committed i s"
  by (simp_all add: committed_def failed_def)

lemma committed_inject [simp]: "committed i s = committed j t \<longleftrightarrow> i = j \<and> s = t"
  by (auto simp: committed_def)

lemma failed_inject [simp]: "failed i e = failed j f \<longleftrightarrow> i = j \<and> e = f"
  by (auto simp: failed_def)

text \<open>The shape the doc comments of \<open>WriteResponse\<close> promise.\<close>

definition response_wf :: "write_response \<Rightarrow> bool" where
  "response_wf r \<longleftrightarrow>
     (case rs_status r of
        Committed \<Rightarrow> rs_error r = None
      | Failed \<Rightarrow> rs_commit_seq r = None \<and> rs_error r \<noteq> None)"

lemma response_wf_committed [simp, intro]: "response_wf (committed i s)"
  by (simp add: response_wf_def)

lemma response_wf_failed [simp, intro]: "response_wf (failed i e)"
  by (simp add: response_wf_def)

lemma response_wf_cases:
  assumes "response_wf r"
  obtains (committed) i s where "r = committed i s" | (failed) i e where "r = failed i e"
  using assms
  by (cases r; cases "rs_status r") (auto simp: response_wf_def committed_def failed_def)

section \<open>The derived JSON forms\<close>

text \<open>
  \<open>#[derive(Serialize)]\<close> writes the fields in declaration order; \<open>Option\<close> fields write
  \<open>null\<close> when empty, and \<open>WriteStatus\<close> is renamed to snake case.
\<close>

fun option_to_value :: "('a \<Rightarrow> 'n json) \<Rightarrow> 'a option \<Rightarrow> 'n json" where
  "option_to_value f None = JNull"
| "option_to_value f (Some x) = f x"

fun status_to_value :: "write_status \<Rightarrow> 'n json" where
  "status_to_value Committed = JString ''committed''"
| "status_to_value Failed = JString ''failed''"

definition response_to_value :: "'n serde \<Rightarrow> write_response \<Rightarrow> 'n json" where
  "response_to_value S r = JObject
     [(''request_id'', JString (rs_request_id r)),
      (''status'', status_to_value (rs_status r)),
      (''commit_seq'', option_to_value (\<lambda>i. JNumber (num_of_i64 S i)) (rs_commit_seq r)),
      (''error'', option_to_value JString (rs_error r))]"

definition operation_to_value :: "'n sql_operation \<Rightarrow> 'n json" where
  "operation_to_value op = JObject [(''sql'', JString (sql op)), (''params'', JArray (params op))]"

definition operations_to_value :: "'n sql_operation list \<Rightarrow> 'n json" where
  "operations_to_value ops = JArray (map operation_to_value ops)"

text \<open>
  \<open>#[derive(Deserialize)]\<close> for \<open>WriteResponse\<close>: \<open>None\<close> is the deserialisation error (the
  code only asks \<open>.ok()\<close>). A struct is read from an object or, field by field, from an
  array of its length. \<open>request_id\<close> and \<open>status\<close> are required; in an object an \<open>Option\<close>
  field may be absent; everywhere it may be \<open>null\<close>; unknown keys are ignored. A unit
  variant is read from its name or from an object that maps its name to \<open>null\<close>.
\<close>

fun status_of_name :: "string \<Rightarrow> write_status option" where
  "status_of_name s =
     (if s = ''committed'' then Some Committed
      else if s = ''failed'' then Some Failed else None)"

fun status_of_value :: "'n json \<Rightarrow> write_status option" where
  "status_of_value (JString s) = status_of_name s"
| "status_of_value (JObject [(s, JNull)]) = status_of_name s"
| "status_of_value _ = None"

fun option_of_value :: "('n json \<Rightarrow> 'a option) \<Rightarrow> 'n json option \<Rightarrow> 'a option option" where
  "option_of_value f None = Some None"
| "option_of_value f (Some JNull) = Some None"
| "option_of_value f (Some v) = map_option Some (f v)"

definition response_of_fields ::
  "'n serde \<Rightarrow> 'n json option \<Rightarrow> 'n json option \<Rightarrow> 'n json option \<Rightarrow> 'n json option \<Rightarrow>
   write_response option" where
  "response_of_fields S v_id v_status v_seq v_err =
     (case (Option.bind v_id json_as_str, Option.bind v_status status_of_value,
            option_of_value (json_as_i64 S) v_seq, option_of_value json_as_str v_err) of
        (Some i, Some st, Some seq, Some e) \<Rightarrow>
          Some \<lparr>rs_request_id = i, rs_status = st, rs_commit_seq = seq, rs_error = e\<rparr>
      | _ \<Rightarrow> None)"

fun response_of_value :: "'n serde \<Rightarrow> 'n json \<Rightarrow> write_response option" where
  "response_of_value S (JObject m) =
     response_of_fields S (map_of m ''request_id'') (map_of m ''status'')
       (map_of m ''commit_seq'') (map_of m ''error'')"
| "response_of_value S (JArray [i, st, seq, e]) =
     response_of_fields S (Some i) (Some st) (Some seq) (Some e)"
| "response_of_value S _ = None"

lemma status_of_to_value [simp]: "status_of_value (status_to_value st) = Some st"
  by (cases st) auto

lemma option_of_to_value:
  assumes "\<And>x. f x \<noteq> JNull" and "\<And>x. g (f x) = Some x"
  shows "option_of_value g (Some (option_to_value f y)) = Some y"
proof (cases y)
  case None
  then show ?thesis by simp
next
  case (Some x)
  then show ?thesis using assms by (cases "f x") (metis map_option_eq_Some option_of_value.simps
      option_to_value.simps(2))+
qed

lemma response_of_to_value:
  assumes "\<And>i. as_i64 S (num_of_i64 S i) = Some i"
  shows "response_of_value S (response_to_value S r) = Some r"
  using assms
  by (simp add: response_of_fields_def response_to_value_def option_of_to_value)

lemma operation_to_value_inj: "operation_to_value a = operation_to_value b \<Longrightarrow> a = b"
  by (cases a; cases b) (simp add: operation_to_value_def)

lemma operations_to_value_inj: "operations_to_value a = operations_to_value b \<longleftrightarrow> a = b"
  proof -
  have "inj (operation_to_value :: 'a sql_operation \<Rightarrow> 'a json)"
    by (rule injI) (rule operation_to_value_inj)
  then show ?thesis by (simp add: operations_to_value_def inj_map_eq_map)
qed


section \<open>What the code relies on in \<open>serde_json\<close>\<close>

text \<open>
  \<open>serde_json\<close> is built without \<open>preserve_order\<close> and without \<open>float_roundtrip\<close>: a parsed
  object lists its keys in byte order, and only integers are sure to read back exactly.
\<close>

fun sort_keys :: "'n json \<Rightarrow> 'n json" where
  "sort_keys (JArray a) = JArray (map sort_keys a)"
| "sort_keys (JObject m) = JObject (sort_key fst (map (\<lambda>(k, v). (k, sort_keys v)) m))"
| "sort_keys v = v"

definition exact_number :: "'n serde \<Rightarrow> 'n \<Rightarrow> bool" where
  "exact_number S n \<longleftrightarrow> (\<exists>i. n = num_of_i64 S i) \<or> (\<exists>u. n = num_of_u64 S u)"

fun portable :: "'n serde \<Rightarrow> 'n json \<Rightarrow> bool" where
  "portable S (JNumber n) = exact_number S n"
| "portable S (JArray a) = list_all (portable S) a"
| "portable S (JObject m) = (distinct (map fst m) \<and> list_all (\<lambda>(k, v). portable S v) m)"
| "portable S v = True"

text \<open>The object literal of \<open>json!\<close>: a \<open>BTreeMap\<close>, so its keys are listed in order.\<close>

definition json_obj :: "(string \<times> 'n json) list \<Rightarrow> 'n json" where
  "json_obj kvs = JObject (sort_key fst kvs)"

lemma distinct_fst_sort_key: "distinct (map fst m) \<Longrightarrow> distinct (map fst (sort_key f m))"
  by (simp add: distinct_map)

lemma map_of_sort_keys:
  assumes "distinct (map fst m)"
  shows "map_of (sort_key fst (map (\<lambda>(k, v). (k, sort_keys v)) m)) k = map_option sort_keys (map_of m k)"
proof -
  let ?m = "map (\<lambda>(k, v). (k, sort_keys v)) m"
  have "map fst ?m = map fst m" by (simp add: comp_def case_prod_unfold)
  then have d: "distinct (map fst ?m)" using assms by (simp only:)
  have "map_of (sort_key fst ?m) = map_of ?m"
    by (intro map_of_inject_set [THEN iffD2] d distinct_fst_sort_key) simp
  then show ?thesis by (simp add: map_of_map)
qed

lemma json_get_sort_keys:
  "distinct (map fst m) \<Longrightarrow> json_get k (sort_keys (JObject m)) = map_option sort_keys (map_of m k)"
  by (simp only: sort_keys.simps json_get.simps map_of_sort_keys)

lemma map_of_sort_key:
  "distinct (map fst m) \<Longrightarrow> map_of (sort_key fst m) = map_of m"
  by (intro map_of_inject_set [THEN iffD2] distinct_fst_sort_key) simp_all

lemma json_get_obj: "distinct (map fst m) \<Longrightarrow> json_get k (json_obj m) = map_of m k"
  by (simp add: json_obj_def map_of_sort_key)

lemma json_get_sort_obj:
  "distinct (map fst m) \<Longrightarrow> json_get k (sort_keys (json_obj m)) = map_option sort_keys (map_of m k)"
  unfolding json_obj_def
  by (subst json_get_sort_keys) (simp_all add: distinct_fst_sort_key map_of_sort_key)

lemma portable_obj:
  "portable S (json_obj m) \<longleftrightarrow> distinct (map fst (sort_key fst m)) \<and> list_all (\<lambda>(k, v). portable S v) m"
  by (simp add: json_obj_def list_all_iff)

locale json_text =
  fixes S :: "'n serde"
  assumes to_text_total: "\<exists>t. to_text S v = Inr t"
    and to_text_inj: "to_text S v = Inr t \<Longrightarrow> to_text S v' = Inr t \<Longrightarrow> v = v'"
    and from_to_text: "portable S v \<Longrightarrow> to_text S v = Inr t \<Longrightarrow> from_text S t = Inr (sort_keys v)"
    and to_text_one_line: "to_text S v = Inr t \<Longrightarrow> \<forall>c \<in> set t. byte c \<noteq> 10"
    and i64_num: "as_i64 S (num_of_i64 S i) = Some i"
    and u64_num: "as_u64 S (num_of_u64 S u) = Some u"
begin

lemma response_portable: "portable S (response_to_value S r)"
  by (cases "rs_status r"; cases "rs_commit_seq r"; cases "rs_error r")
    (auto simp: response_to_value_def exact_number_def)

lemma sort_keys_status [simp]: "sort_keys (status_to_value st) = status_to_value st"
  by (cases st) simp_all

lemma sort_keys_option [simp]:
  "(\<And>x. sort_keys (f x) = f x) \<Longrightarrow> sort_keys (option_to_value f q) = option_to_value f q"
  by (cases q) simp_all

text \<open>A response survives the trip through its stored text.\<close>

lemma response_text_roundtrip:
  assumes "to_text S (response_to_value S r) = Inr t"
  shows "\<exists>v. from_text S t = Inr v \<and> response_of_value S v = Some r"
proof -
  have "from_text S t = Inr (sort_keys (response_to_value S r))"
    using response_portable assms by (rule from_to_text)
  moreover have "response_of_value S (sort_keys (response_to_value S r)) = Some r"
  proof -
    obtain m where m: "response_to_value S r = JObject m"
      by (simp add: response_to_value_def)
    then have "distinct (map fst m)" by (auto simp: response_to_value_def)
    note lookup = map_of_sort_keys [OF this]
    have "response_of_value S (sort_keys (response_to_value S r)) =
        response_of_fields S (map_option sort_keys (map_of m ''request_id''))
          (map_option sort_keys (map_of m ''status''))
          (map_option sort_keys (map_of m ''commit_seq''))
          (map_option sort_keys (map_of m ''error''))"
      by (simp only: m sort_keys.simps response_of_value.simps lookup)
    also have "\<dots> = Some r"
      using response_of_to_value [OF i64_num, of r] m
      by (auto simp: response_to_value_def)
    finally show ?thesis .
  qed
  ultimately show ?thesis by blast
qed

end

end
