(* ===== verification/Params.thy ===== *)
theory Params
  imports Request
begin

text \<open>
  \<open>params_from\<close> and \<open>json_to_sqlite\<close> of \<open>src/writer.rs\<close>: JSON parameters become SQLite
  values. The base64 decoder is a crate outside the repository, hence the argument
  \<open>b64\<close>; its error is the text of \<open>DecodeError\<close>. The lemmas say which SQLite value every
  JSON value becomes, which values are refused, and that a list of parameters keeps its
  length and order.
\<close>

datatype sql_value =
    Null
  | Integer i64
  | Real f64
  | Text string
  | Blob "u8 list"

type_synonym b64_decoder = "string \<Rightarrow> string + u8 list"

text \<open>
  The guard of the sentinel arm: a single-key object with a string under \<open>$blob\<close>. Its
  value is the encoded text.
\<close>

definition blob_sentinel :: "(string \<times> 'n json) list \<Rightarrow> string option" where
  "blob_sentinel m =
     (if length m = 1 then Option.bind (map_of m ''$blob'') json_as_str else None)"

definition text_of_json :: "'n serde \<Rightarrow> 'n json \<Rightarrow> 'e error + sql_value" where
  "text_of_json S v = (case to_text S v of Inl e \<Rightarrow> Inl (Json e) | Inr t \<Rightarrow> Inr (Text t))"

fun json_to_sqlite :: "'n serde \<Rightarrow> b64_decoder \<Rightarrow> 'n json \<Rightarrow> 'e error + sql_value" where
  "json_to_sqlite S b64 JNull = Inr Null"
| "json_to_sqlite S b64 (JBool b) = Inr (Integer (if b then 1 else 0))"
| "json_to_sqlite S b64 (JNumber n) =
     (case as_i64 S n of
        Some i \<Rightarrow> Inr (Integer i)
      | None \<Rightarrow>
        (case as_f64 S n of
           Some f \<Rightarrow> Inr (Real f)
         | None \<Rightarrow> Inr (Text (num_to_string S n))))"
| "json_to_sqlite S b64 (JString s) = Inr (Text s)"
| "json_to_sqlite S b64 (JObject m) =
     (case blob_sentinel m of
        Some encoded \<Rightarrow>
          (case b64 encoded of
             Inl e \<Rightarrow> Inl (InvalidParam (''$blob base64 decode failed: '' @ e))
           | Inr bytes \<Rightarrow> Inr (Blob bytes))
      | None \<Rightarrow> text_of_json S (JObject m))"
| "json_to_sqlite S b64 (JArray a) = text_of_json S (JArray a)"

definition params_from ::
  "'n serde \<Rightarrow> b64_decoder \<Rightarrow> 'n json list \<Rightarrow> 'e error + sql_value list" where
  "params_from S b64 values = collect_results (json_to_sqlite S b64) values"

section \<open>Lemmas\<close>

lemma blob_sentinel_iff: "blob_sentinel m = Some s \<longleftrightarrow> m = [(''$blob'', JString s)]"
proof
  assume *: "blob_sentinel m = Some s"
  then obtain k v where m: "m = [(k, v)]"
    by (auto simp: blob_sentinel_def length_Suc_conv split: if_splits)
  with * show "m = [(''$blob'', JString s)]"
    by (cases v) (auto simp: blob_sentinel_def split: if_splits)
qed (simp add: blob_sentinel_def)

lemma params_from_Inr_iff:
  "(params_from S b64 vs :: 'e error + sql_value list) = Inr ps \<longleftrightarrow>
     list_all2 (\<lambda>v p. (json_to_sqlite S b64 v :: 'e error + sql_value) = Inr p) vs ps"
  by (simp add: params_from_def collect_results_Inr_iff)

lemma params_from_length:
  assumes "params_from S b64 vs = Inr ps"
  shows "length ps = length vs"
  using assms by (simp add: params_from_Inr_iff list_all2_lengthD)

text \<open>A scalar is never refused.\<close>

fun json_scalar :: "'n json \<Rightarrow> bool" where
  "json_scalar (JArray a) = False"
| "json_scalar (JObject m) = False"
| "json_scalar _ = True"

lemma json_to_sqlite_scalar: "json_scalar v \<Longrightarrow> \<exists>p. json_to_sqlite S b64 v = Inr p"
  by (cases v) (auto split: option.splits)

lemma json_to_sqlite_Inl_cases:
  assumes "json_to_sqlite S b64 v = Inl e"
  obtains (blob) s m where "v = JObject [(''$blob'', JString s)]" "b64 s = Inl m"
      "e = InvalidParam (''$blob base64 decode failed: '' @ m)"
  | (unserialisable) m where "\<not> json_scalar v" "to_text S v = Inl m" "e = Json m"
proof (cases v)
  case (JObject m)
  show ?thesis
  proof (cases "blob_sentinel m")
    case None
    with JObject assms unserialisable show ?thesis
      by (auto simp: text_of_json_def split: sum.splits)
  next
    case (Some s)
    with JObject assms blob show ?thesis
      by (auto simp: blob_sentinel_iff split: sum.splits)
  qed
qed (use assms unserialisable in \<open>auto simp: text_of_json_def split: sum.splits option.splits\<close>)

end
