(* ===== verification/Driver.thy ===== *)
theory Driver
  imports Params
begin

text \<open>
  The SQLite driver as the gateway sees it. \<open>rusqlite\<close> and SQLite are outside the
  repository, so every call the code makes on a connection is a field of the record
  \<open>driver\<close> and an argument of the definitions that use it. \<open>'c\<close> is the state those calls
  read and change (the connection with its database, and the clock), \<open>'e\<close> the type
  \<open>rusqlite::Error\<close>. A call returns its \<open>Result\<close> and the state after it.

  The locale \<open>sqlite\<close> states the documented behaviour the gateway relies on: what
  \<open>BEGIN IMMEDIATE\<close>, \<open>COMMIT\<close>, the rollback on drop and \<open>SAVEPOINT\<close> do to the durable
  database and to the view inside the transaction. It is one-sided: any call may fail at
  any time, and the laws say what a success means and that a failure changes nothing.
\<close>

section \<open>The calls\<close>

text \<open>
  A statement handle of \<open>prepare_cached\<close> is named by its SQL text, which is the key of the
  statement cache. \<open>commit_tx\<close> is \<open>Transaction::commit(self)\<close>, which drops the transaction
  afterwards; \<open>drop_tx\<close> is the drop of an uncommitted \<open>Transaction\<close>. \<open>query_row\<close> returns the
  columns of the first row. \<open>clock_micros\<close> is \<open>Instant::now()\<close>.
\<close>

record ('c, 'e) driver =
  err_to_string :: "'e \<Rightarrow> string"
  is_no_rows :: "'e \<Rightarrow> bool"
  conn_open :: "string \<Rightarrow> 'e + 'c"
  begin_immediate :: "'c \<Rightarrow> ('e + unit) \<times> 'c"
  commit_tx :: "'c \<Rightarrow> ('e + unit) \<times> 'c"
  drop_tx :: "'c \<Rightarrow> 'c"
  prepare_cached :: "string \<Rightarrow> 'c \<Rightarrow> ('e + unit) \<times> 'c"
  stmt_execute :: "string \<Rightarrow> sql_value list \<Rightarrow> 'c \<Rightarrow> ('e + nat) \<times> 'c"
  query_row :: "string \<Rightarrow> sql_value list \<Rightarrow> 'c \<Rightarrow> ('e + sql_value list) \<times> 'c"
  get_string :: "sql_value list \<Rightarrow> nat \<Rightarrow> 'e + string"
  get_opt_string :: "sql_value list \<Rightarrow> nat \<Rightarrow> 'e + string option"
  execute_batch :: "string \<Rightarrow> 'c \<Rightarrow> ('e + unit) \<times> 'c"
  last_insert_rowid :: "'c \<Rightarrow> i64"
  pragma_update :: "string \<Rightarrow> sql_value \<Rightarrow> 'c \<Rightarrow> ('e + unit) \<times> 'c"
  pragma_update_and_check :: "string \<Rightarrow> sql_value \<Rightarrow> 'c \<Rightarrow> ('e + sql_value list) \<times> 'c"
  busy_timeout :: "u64 \<Rightarrow> 'c \<Rightarrow> ('e + unit) \<times> 'c"
  clock_micros :: "'c \<Rightarrow> nat"

text \<open>Everything outside the repository that the writer calls.\<close>

record ('n, 'c, 'e) env =
  serde :: "'n serde"
  b64 :: b64_decoder
  drv :: "('c, 'e) driver"

section \<open>The fixed SQL texts\<close>

definition commit_insert_sql :: string where
  "commit_insert_sql =
     ''INSERT INTO squeuelite_commits(request_id, actor_id, run_id) VALUES (?, ?, ?)''"

definition idem_select_sql :: string where
  "idem_select_sql =
     ''SELECT request_hash, response_json FROM squeuelite_requests WHERE idempotency_key = ?1''"

definition idem_insert_sql :: string where
  "idem_insert_sql =
     ''INSERT OR IGNORE INTO squeuelite_requests '' @
     ''(idempotency_key, request_hash, status, response_json, commit_seq) '' @
     ''VALUES (?1, ?2, '' @ squote ''committed'' @ '', ?3, ?4)''"

definition checkpoint_sql :: string where
  "checkpoint_sql = ''PRAGMA wal_checkpoint(TRUNCATE);''"

definition savepoint_sql :: "string \<Rightarrow> string" where
  "savepoint_sql sp = ''SAVEPOINT '' @ sp @ '';''"

definition release_sql :: "string \<Rightarrow> string" where
  "release_sql sp = ''RELEASE '' @ sp @ '';''"

definition rollback_release_sql :: "string \<Rightarrow> string" where
  "rollback_release_sql sp = ''ROLLBACK TO '' @ sp @ ''; RELEASE '' @ sp @ '';''"

section \<open>What SQLite promises\<close>

text \<open>
  An abstract reading of the connection state. \<open>idle\<close> is SQLite's autocommit mode, \<open>in_tx\<close> an
  open \<open>BEGIN\<close> transaction; \<open>durable\<close> is what another reader of the
  file sees, \<open>view\<close> what a statement on this connection sees, \<open>savepoints\<close> the open
  savepoints (innermost first) with the view at the moment each was opened. \<open>effect\<close> is
  the meaning of a statement on the view, \<open>stored\<close> the rows of \<open>squeuelite_requests\<close> by
  key and \<open>max_seq\<close> the \<open>AUTOINCREMENT\<close> high-water mark of \<open>squeuelite_commits\<close>.
  \<open>plain s\<close>: the statement neither controls transactions (a \<open>COMMIT\<close> in any spelling, an
  \<open>OR ROLLBACK\<close> clause) nor writes the two internal tables.
\<close>

record ('c, 'd) reading =
  idle :: "'c \<Rightarrow> bool"
  in_tx :: "'c \<Rightarrow> bool"
  durable :: "'c \<Rightarrow> 'd"
  view :: "'c \<Rightarrow> 'd"
  savepoints :: "'c \<Rightarrow> (string \<times> 'd) list"
  plain :: "string \<Rightarrow> bool"
  effect :: "string \<Rightarrow> sql_value list \<Rightarrow> 'd \<Rightarrow> 'd option"
  stored :: "'d \<Rightarrow> string \<Rightarrow> (string \<times> string option) option"
  max_seq :: "'d \<Rightarrow> int"

definition same_reading :: "('c, 'd) reading \<Rightarrow> 'c \<Rightarrow> 'c \<Rightarrow> bool" where
  "same_reading A c c' \<longleftrightarrow>
     idle A c' = idle A c \<and> in_tx A c' = in_tx A c \<and> durable A c' = durable A c
     \<and> view A c' = view A c \<and> savepoints A c' = savepoints A c"

lemma same_reading_refl [simp]: "same_reading A c c"
  by (simp add: same_reading_def)

lemma same_reading_trans [trans]:
  "same_reading A a b \<Longrightarrow> same_reading A b c \<Longrightarrow> same_reading A a c"
  by (simp add: same_reading_def)

text \<open>
  A state inside a transaction that differs from \<open>c\<close> at most in the view: what a statement
  may do to an open transaction.
\<close>

definition tx_step :: "('c, 'd) reading \<Rightarrow> 'c \<Rightarrow> 'c \<Rightarrow> bool" where
  "tx_step A c c' \<longleftrightarrow>
     in_tx A c' \<and> durable A c' = durable A c \<and> savepoints A c' = savepoints A c"

definition internal_sql :: "string \<Rightarrow> bool" where
  "internal_sql s \<longleftrightarrow> s = commit_insert_sql \<or> s = idem_insert_sql"

locale sqlite =
  fixes D :: "('c, 'e) driver" and A :: "('c, 'd) reading"
  assumes view_autocommit: "idle A c \<Longrightarrow> view A c = durable A c"
    and begin_ok: "idle A c \<Longrightarrow> begin_immediate D c = (Inr u, c') \<Longrightarrow>
      in_tx A c' \<and> durable A c' = durable A c \<and> view A c' = durable A c \<and> savepoints A c' = []"
    and begin_err: "idle A c \<Longrightarrow> begin_immediate D c = (Inl e, c') \<Longrightarrow>
      idle A c' \<and> durable A c' = durable A c"
    and commit_ok: "in_tx A c \<Longrightarrow> commit_tx D c = (Inr u, c') \<Longrightarrow>
      idle A c' \<and> durable A c' = view A c"
    and commit_err: "in_tx A c \<Longrightarrow> commit_tx D c = (Inl e, c') \<Longrightarrow>
      idle A c' \<and> durable A c' = durable A c"
    and drop_rolls_back: "in_tx A c \<Longrightarrow>
      idle A (drop_tx D c) \<and> durable A (drop_tx D c) = durable A c"
    and prepare_same: "prepare_cached D s c = (r, c') \<Longrightarrow> same_reading A c c'"
    and query_same: "query_row D idem_select_sql ps c = (q, c') \<Longrightarrow> same_reading A c c'"
    and query_found: "query_row D idem_select_sql [Text k] c = (Inr row, c') \<Longrightarrow>
      get_string D row 0 = Inr h \<Longrightarrow> get_opt_string D row 1 = Inr js \<Longrightarrow>
      stored A (view A c) k = Some (h, js)"
    and query_missing: "query_row D idem_select_sql [Text k] c = (Inl e, c') \<Longrightarrow>
      is_no_rows D e \<Longrightarrow> stored A (view A c) k = None"
    and column_error: "get_string D row i = Inl e \<or> get_opt_string D row i = Inl e \<Longrightarrow>
      \<not> is_no_rows D e"
    and prepare_error: "prepare_cached D s c = (Inl e, c') \<Longrightarrow> \<not> is_no_rows D e"
    and execute_ok: "in_tx A c \<Longrightarrow> plain A s \<or> internal_sql s \<Longrightarrow>
      stmt_execute D s ps c = (Inr n, c') \<Longrightarrow>
      tx_step A c c' \<and> effect A s ps (view A c) = Some (view A c')"
    and execute_err: "in_tx A c \<Longrightarrow> plain A s \<or> internal_sql s \<Longrightarrow>
      stmt_execute D s ps c = (Inl e, c') \<Longrightarrow> same_reading A c c'"
    and savepoint_ok: "in_tx A c \<Longrightarrow> execute_batch D (savepoint_sql sp) c = (Inr u, c') \<Longrightarrow>
      in_tx A c' \<and> durable A c' = durable A c \<and> view A c' = view A c
      \<and> savepoints A c' = (sp, view A c) # savepoints A c"
    and savepoint_err: "in_tx A c \<Longrightarrow> execute_batch D (savepoint_sql sp) c = (Inl e, c') \<Longrightarrow>
      same_reading A c c'"
    and release_ok: "in_tx A c \<Longrightarrow> savepoints A c = (sp, d) # rest \<Longrightarrow>
      execute_batch D (release_sql sp) c = (Inr u, c') \<Longrightarrow>
      in_tx A c' \<and> durable A c' = durable A c \<and> view A c' = view A c \<and> savepoints A c' = rest"
    and release_err: "in_tx A c \<Longrightarrow> savepoints A c = (sp, d) # rest \<Longrightarrow>
      execute_batch D (release_sql sp) c = (Inl e, c') \<Longrightarrow> same_reading A c c'"
    and rollback_to: "in_tx A c \<Longrightarrow> savepoints A c = (sp, d) # rest \<Longrightarrow>
      execute_batch D (rollback_release_sql sp) c = (r, c') \<Longrightarrow>
      in_tx A c' \<and> durable A c' = durable A c \<and> view A c' = d \<and> savepoints A c' = rest"
    and checkpoint_same: "idle A c \<Longrightarrow> execute_batch D checkpoint_sql c = (r, c') \<Longrightarrow>
      idle A c' \<and> durable A c' = durable A c"
    and plain_stored: "plain A s \<or> s = commit_insert_sql \<Longrightarrow> effect A s ps d = Some d' \<Longrightarrow>
      stored A d' = stored A d"
    and plain_max_seq: "plain A s \<or> s = idem_insert_sql \<Longrightarrow> effect A s ps d = Some d' \<Longrightarrow>
      max_seq A d' = max_seq A d"
    and idem_insert_stored: "effect A idem_insert_sql [Text k, Text h, Text j, seqv] d = Some d' \<Longrightarrow>
      stored A d' = (if stored A d k = None then (stored A d)(k \<mapsto> (h, Some j)) else stored A d)"
    and commit_insert_seq: "effect A commit_insert_sql ps d = Some d' \<Longrightarrow> max_seq A d < max_seq A d'"
    and commit_rowid: "in_tx A c \<Longrightarrow> stmt_execute D commit_insert_sql ps c = (Inr n, c') \<Longrightarrow>
      sint (last_insert_rowid D c') = max_seq A (view A c')"

end
