(* ===== verification/Latency.thy ===== *)
theory Latency
  imports Request
begin

text \<open>
  The commit-latency ring buffer: \<open>LATENCY_BUF_CAP\<close>, \<open>new_latency_buffer\<close> and
  \<open>push_latency\<close> of \<open>src/writer.rs\<close> and \<open>GatewayHandle::latency_snapshot\<close> of
  \<open>src/inprocess.rs\<close>. The \<open>Arc<Mutex<VecDeque<u64>>>\<close> is a record of the queue (oldest entry
  first) and the mutex's poison flag.

  Floating point is written out on naturals: \<open>f64_of_nat\<close> rounds to 53 significant bits,
  ties to even, and \<open>f64_div\<close> rounds a quotient the same way and packs it as an IEEE 754
  bit pattern, so the \<open>f64\<close> arithmetic of the snapshot is exact.
\<close>

section \<open>Double-precision arithmetic on naturals\<close>

fun bit_length :: "nat \<Rightarrow> nat" where
  "bit_length n = (if n = 0 then 0 else Suc (bit_length (n div 2)))"

declare bit_length.simps [simp del]

text \<open>\<open>num / den\<close> rounded to the nearest integer, ties to even.\<close>

definition rne :: "nat \<Rightarrow> nat \<Rightarrow> nat" where
  "rne num den =
     (let q = num div den; r = num mod den in
      if 2 * r < den then q else if den < 2 * r then q + 1 else q + q mod 2)"

definition f64_of_nat :: "nat \<Rightarrow> nat" where
  "f64_of_nat n = (let s = bit_length n - 53 in rne n (2 ^ s) * 2 ^ s)"

text \<open>
  Quotient of two positive integers as the bits of a double: \<open>s\<close> scales the quotient into
  \<open>[2^52, 2^53)\<close>, so that its value is \<open>q / 2^s\<close>. A \<open>u64\<close> sum over at most \<open>2^53\<close> entries
  keeps the exponent in the normal range.
\<close>

definition f64_div :: "nat \<Rightarrow> nat \<Rightarrow> f64" where
  "f64_div a b =
     (if a = 0 then 0 else
      let k = 53 + int (bit_length b) - int (bit_length a);
          scaled = (\<lambda>s. if 0 \<le> s then (a * 2 ^ nat s, b) else (a, b * 2 ^ nat (- s)));
          s = (case scaled k of (x, y) \<Rightarrow> if 2 ^ 53 \<le> x div y then k - 1 else k);
          q = (case scaled s of (x, y) \<Rightarrow> rne x y);
          (m, t) = (if q = 2 ^ 53 then (2 ^ 52, s - 1) else (q, s))
      in word_of_int ((1075 - t) * 2 ^ 52 + (int m - 2 ^ 52)))"

lemma bit_length_le: "n < 2 ^ k \<Longrightarrow> bit_length n \<le> k"
proof (induction k arbitrary: n)
  case 0
  then show ?case by (simp add: bit_length.simps)
next
  case (Suc k)
  then have "bit_length (n div 2) \<le> k" by (simp add: Suc.IH)
  then show ?case by (subst bit_length.simps) simp
qed

lemma rne_cases:
  obtains (down) "2 * (num mod den) \<le> den" "rne num den = num div den"
  | (up) "den \<le> 2 * (num mod den)" "rne num den = num div den + 1"
  by (cases "2 * (num mod den)" den rule: linorder_cases; cases "even (num div den)")
    (auto simp: rne_def Let_def odd_iff_mod_2_eq_one)

lemma rne_error:
  assumes "0 < den"
  shows "2 * num \<le> 2 * (rne num den * den) + den"
proof -
  define q r where "q = num div den" and "r = num mod den"
  have num: "num = q * den + r" and "r < den"
    using assms by (simp_all add: q_def r_def)
  show ?thesis
  proof (cases num den rule: rne_cases)
    case down
    then have "rne num den * den = q * den" and "2 * r \<le> den" by (simp_all add: q_def r_def)
    then show ?thesis using num by linarith
  next
    case up
    then have "rne num den * den = q * den + den" by (simp add: q_def)
    then show ?thesis using num \<open>r < den\<close> by linarith
  qed
qed

lemma rne_le:
  assumes "0 < den" and "num \<le> k * den"
  shows "rne num den \<le> k"
proof -
  have num: "num div den * den + num mod den = num" by simp
  have le: "num div den \<le> k" using div_le_mono [OF assms(2), of den] assms(1) by simp
  show ?thesis
  proof (cases num den rule: rne_cases)
    case down
    with le show ?thesis by simp
  next
    case up
    have "num div den \<noteq> k"
    proof
      assume "num div den = k"
      with num assms(2) have "num mod den = 0" by simp
      with up assms(1) show False by simp
    qed
    with le up show ?thesis by simp
  qed
qed

section \<open>The ring buffer\<close>

record latency_buffer =
  poisoned :: bool
  entries :: "u64 list"

definition LATENCY_BUF_CAP :: nat where
  "LATENCY_BUF_CAP = 1024"

definition new_latency_buffer :: latency_buffer where
  "new_latency_buffer = \<lparr>poisoned = False, entries = []\<rparr>"

definition push_latency :: "latency_buffer \<Rightarrow> u64 \<Rightarrow> latency_buffer" where
  "push_latency buf micros =
     (if poisoned buf then buf
      else let es = (if LATENCY_BUF_CAP \<le> length (entries buf) then tl (entries buf) else entries buf)
           in buf\<lparr>entries := es @ [micros]\<rparr>)"

text \<open>
  The index of the 95th percentile: \<open>((len as f64 * 0.95).ceil() as usize).saturating_sub(1)\<close>.
  The literal \<open>0.95\<close> is the double \<open>8556839292003942 / 2^53\<close>.
\<close>

definition p95_numerator :: nat where
  "p95_numerator = 8556839292003942"

definition p95_index :: "nat \<Rightarrow> nat" where
  "p95_index n = (f64_of_nat (f64_of_nat n * p95_numerator) + (2 ^ 53 - 1)) div 2 ^ 53 - 1"

text \<open>
  \<open>latency_snapshot\<close>. The \<open>u64\<close> sum wraps as in a release build; \<open>None\<close> is the panic of an
  out-of-range \<open>sorted[p95_idx]\<close>.
\<close>

definition latency_snapshot :: "latency_buffer \<Rightarrow> (f64 \<times> u64) option" where
  "latency_snapshot buf =
     (if poisoned buf then Some (0, 0)
      else if entries buf = [] then Some (0, 0)
      else
        let total = sum_list (entries buf);
            avg = f64_div (f64_of_nat (unat total)) (f64_of_nat (length (entries buf)));
            sorted = sort (entries buf)
        in map_option (\<lambda>p95. (avg, p95)) (nth_opt sorted (p95_index (length sorted))))"


section \<open>The buffer is the last \<open>LATENCY_BUF_CAP\<close> pushes\<close>

definition last_n :: "nat \<Rightarrow> 'a list \<Rightarrow> 'a list" where
  "last_n n xs = drop (length xs - n) xs"

lemma last_n_length [simp]: "length (last_n n xs) = min n (length xs)"
  by (simp add: last_n_def)

lemma last_n_snoc:
  assumes "0 < n"
  shows "last_n n (last_n n xs @ [x]) = last_n n (xs @ [x])"
proof (cases "length xs < n")
  case True
  then show ?thesis by (simp add: last_n_def)
next
  case False
  then have "length xs - n + 1 = length xs + 1 - n" by simp
  with False assms show ?thesis
    by (simp add: last_n_def Suc_diff_le)
qed

text \<open>
  The interface of a bounded history: a client that only pushes and reads sees exactly
  the most recent \<open>cap\<close> values.
\<close>

locale bounded_history =
  fixes start :: 'h and push :: "'h \<Rightarrow> 'a \<Rightarrow> 'h" and contents :: "'h \<Rightarrow> 'a list"
    and live :: "'h \<Rightarrow> bool" and cap :: nat
  assumes cap_pos: "0 < cap"
    and start_empty: "live start \<and> contents start = []"
    and push_live: "live h \<Longrightarrow> live (push h x)"
    and push_contents: "live h \<Longrightarrow> length (contents h) \<le> cap \<Longrightarrow>
      contents (push h x) = last_n cap (contents h @ [x])"
begin

lemma pushes:
  "live (foldl push start xs) \<and> contents (foldl push start xs) = last_n cap xs"
proof (induction xs rule: rev_induct)
  case Nil
  then show ?case by (simp add: start_empty last_n_def)
next
  case (snoc x xs)
  then show ?case by (simp add: push_live push_contents last_n_snoc cap_pos)
qed

lemma pushes_bounded: "length (contents (foldl push start xs)) \<le> cap"
  by (simp add: pushes)

end

lemma push_latency_entries:
  assumes "\<not> poisoned b" and "length (entries b) \<le> LATENCY_BUF_CAP"
  shows "entries (push_latency b x) = last_n LATENCY_BUF_CAP (entries b @ [x])"
proof (cases "length (entries b) = LATENCY_BUF_CAP")
  case True
  then show ?thesis using assms
    by (cases "entries b") (simp_all add: push_latency_def last_n_def LATENCY_BUF_CAP_def)
next
  case False
  then show ?thesis using assms by (simp add: push_latency_def last_n_def)
qed

interpretation lat: bounded_history new_latency_buffer push_latency entries
    "\<lambda>b. \<not> poisoned b" LATENCY_BUF_CAP
  by unfold_locales
    (simp_all add: new_latency_buffer_def LATENCY_BUF_CAP_def [THEN arg_cong [where f = "(<) 0"]]
      push_latency_entries, simp add: push_latency_def Let_def)

lemma push_latency_bounded:
  "length (entries b) \<le> LATENCY_BUF_CAP \<Longrightarrow> length (entries (push_latency b x)) \<le> LATENCY_BUF_CAP"
  by (cases "poisoned b") (simp_all add: push_latency_entries, simp add: push_latency_def)

section \<open>The percentile index\<close>

lemma f64_of_nat_exact: "n < 2 ^ 53 \<Longrightarrow> f64_of_nat n = n"
  by (simp add: f64_of_nat_def bit_length_le rne_def)

text \<open>
  Rounding never pushes the product past an integer: for every buffer length the
  floating-point index is the exact nearest rank \<open>ceil(95 n / 100)\<close>.
\<close>

definition p95_rank :: "nat \<Rightarrow> nat" where
  "p95_rank n = (95 * n + 99) div 100"

lemma p95_rank_bounds: "95 * n \<le> 100 * p95_rank n" "100 * p95_rank n \<le> 95 * n + 99"
  by (simp_all add: p95_rank_def)

lemma p95_index_eq:
  assumes "n \<le> LATENCY_BUF_CAP"
  shows "p95_index n = p95_rank n - 1"
proof -
  define k where "k = p95_rank n"
  define p where "p = n * p95_numerator"
  define s where "s = bit_length p - 53"
  have n: "n \<le> 1024" using assms by (simp add: LATENCY_BUF_CAP_def)
  have "p < 2 ^ 63" using n by (simp add: p_def p95_numerator_def)
  then have s: "s \<le> 10" using bit_length_le [of p 63] by (simp add: s_def)
  have fp: "f64_of_nat p = rne p (2 ^ s) * 2 ^ s" by (simp add: f64_of_nat_def s_def Let_def)
  have k: "95 * n \<le> 100 * k" "100 * k \<le> 95 * n + 99" using p95_rank_bounds [of n] by (simp_all add: k_def)
  have split: "(2::nat) ^ 53 = 2 ^ (53 - s) * 2 ^ s" using s by (simp flip: power_add)
  have "p \<le> k * 2 ^ 53" using k(1) by (simp add: p_def p95_numerator_def)
  then have "rne p (2 ^ s) \<le> k * 2 ^ (53 - s)"
    by (intro rne_le) (simp_all only: split zero_less_power zero_less_numeral mult.assoc)
  then have upper: "f64_of_nat p \<le> k * 2 ^ 53"
    by (simp only: fp split mult.assoc [symmetric] mult_le_mono1)
  have "(2::nat) ^ s \<le> 2 ^ 10" using s by (intro power_increasing) simp_all
  then have "2 * p \<le> 2 * f64_of_nat p + 1024"
    using rne_error [of "2 ^ s" p] by (simp add: fp)
  then have lower: "k * 2 ^ 53 < f64_of_nat p + 2 ^ 53"
    using k n by (simp add: p_def p95_numerator_def)
  have "(f64_of_nat p + (2 ^ 53 - 1)) div 2 ^ 53 = k"
    using upper lower by (intro div_nat_eqI) (simp_all add: algebra_simps)
  then show ?thesis using n
    by (simp add: p95_index_def f64_of_nat_exact flip: p_def k_def)
qed

section \<open>The snapshot\<close>

lemma sorted_rank:
  assumes "sorted xs" and "i < length xs"
  shows "Suc i \<le> length (filter (\<lambda>x. x \<le> xs ! i) xs)"
    and "length (filter (\<lambda>x. x < xs ! i) xs) \<le> i"
proof -
  have *: "length (filter P xs) = length (filter P (take k xs)) + length (filter P (drop k xs))" for P k
    by (metis append_take_drop_id filter_append length_append)
  have "filter (\<lambda>x. x \<le> xs ! i) (take (Suc i) xs) = take (Suc i) xs"
    using assms by (auto simp: filter_id_conv in_set_conv_nth sorted_nth_mono)
  then show "Suc i \<le> length (filter (\<lambda>x. x \<le> xs ! i) xs)"
    using assms(2) * [of _ "Suc i"] by simp
  have "filter (\<lambda>x. x < xs ! i) (drop i xs) = []"
    using assms by (auto simp: filter_empty_conv in_set_conv_nth not_less sorted_nth_mono)
  moreover have "length (filter (\<lambda>x. x < xs ! i) (take i xs)) \<le> i"
    by (rule le_trans [OF length_filter_le]) simp
  ultimately show "length (filter (\<lambda>x. x < xs ! i) xs) \<le> i"
    using * [of "\<lambda>x. x < xs ! i" i] by simp
qed

lemma length_filter_sort: "length (filter P (sort xs)) = length (filter P xs)"
  by (simp add: filter_sort)

lemma p95_index_in_range:
  assumes "xs \<noteq> []" and "length xs \<le> LATENCY_BUF_CAP"
  shows "p95_index (length xs) < length xs"
proof -
  have "0 < length xs" using assms(1) by simp
  moreover have "100 * p95_rank (length xs) \<le> 95 * length xs + 99" by (rule p95_rank_bounds)
  ultimately have "p95_rank (length xs) - 1 < length xs" by linarith
  then show ?thesis by (simp only: p95_index_eq [OF assms(2)])
qed

lemma latency_snapshot_percentile_aux:
  assumes "entries b \<noteq> []" and "\<not> poisoned b" and "length (entries b) \<le> LATENCY_BUF_CAP"
    and "latency_snapshot b = Some (avg, p)"
  shows "p \<in> set (entries b)
    \<and> 95 * length (entries b) \<le> 100 * length (filter (\<lambda>x. x \<le> p) (entries b))
    \<and> 100 * length (filter (\<lambda>x. x < p) (entries b)) < 95 * length (entries b)"
proof -
  define xs where "xs = sort (entries b)"
  define i where "i = p95_index (length xs)"
  have len: "length xs = length (entries b)" by (simp add: xs_def)
  have i: "i < length xs"
    using p95_index_in_range [OF assms(1,3)] by (simp add: i_def xs_def)
  have p: "p = xs ! i" using assms i
    by (auto simp: latency_snapshot_def Let_def nth_opt_def xs_def i_def split: if_splits)
  have Suc_i: "Suc i = p95_rank (length xs)"
  proof -
    have "0 < length xs" using assms(1) len by simp
    then have "0 < p95_rank (length xs)" using p95_rank_bounds(1) [of "length xs"] by linarith
    then show ?thesis using p95_index_eq [of "length xs"] assms(3) len by (simp add: i_def)
  qed
  have "sorted xs" by (simp add: xs_def)
  note rank = sorted_rank [OF this i, folded p]
  have "p \<in> set (entries b)" using p i nth_mem [OF i] by (simp add: xs_def)
  moreover have "95 * length (entries b) \<le> 100 * length (filter (\<lambda>x. x \<le> p) (entries b))"
    using rank(1) Suc_i p95_rank_bounds(1) [of "length xs"] len
      length_filter_sort [of "\<lambda>x. x \<le> p" "entries b"] by (simp add: xs_def)
  moreover have "100 * length (filter (\<lambda>x. x < p) (entries b)) < 95 * length (entries b)"
    using rank(2) Suc_i p95_rank_bounds(2) [of "length xs"] len
      length_filter_sort [of "\<lambda>x. x < p" "entries b"] by (simp add: xs_def)
  ultimately show ?thesis by blast
qed

text \<open>The \<open>u64\<close> sum does not wrap as long as every latency is below \<open>2^54\<close> microseconds (570 years).\<close>

lemma unat_sum_list_no_wrap:
  fixes xs :: "u64 list"
  assumes "\<forall>x \<in> set xs. unat x < 2 ^ 54" and "length xs \<le> LATENCY_BUF_CAP"
  shows "unat (sum_list xs) = sum_list (map unat xs)"
proof -
  have "unat (sum_list xs) = sum_list (map unat xs) \<and> sum_list (map unat xs) \<le> length xs * 2 ^ 54"
    using assms
  proof (induction xs)
    case Nil
    then show ?case by simp
  next
    case (Cons x xs)
    then have IH: "unat (sum_list xs) = sum_list (map unat xs)"
        "sum_list (map unat xs) \<le> length xs * 2 ^ 54" and x: "unat x < 2 ^ 54"
      by simp_all
    have "length xs < 1024" using Cons.prems(2) by (simp add: LATENCY_BUF_CAP_def)
    then have "unat x + unat (sum_list xs) < 2 ^ LENGTH(64)"
      using IH x by simp
    then have "unat (x + sum_list xs) = unat x + unat (sum_list xs)"
      by (rule unat_add_lem [THEN iffD1])
    then show ?case using IH x by simp
  qed
  then show ?thesis ..
qed

section \<open>Comparisons with zero\<close>

text \<open>\<open>x == 0.0\<close> and \<open>x > 0.0\<close> on bit patterns: both zeros are equal, and an infinity but no NaN is positive.\<close>

definition f64_eq_zero :: "f64 \<Rightarrow> bool" where
  "f64_eq_zero x \<longleftrightarrow> x = 0 \<or> x = 2 ^ 63"

definition f64_gt_zero :: "f64 \<Rightarrow> bool" where
  "f64_gt_zero x \<longleftrightarrow> 0 < x \<and> x \<le> 0x7FF0000000000000"

lemma bit_length_lt: "n < 2 ^ bit_length n"
proof (induction n rule: bit_length.induct)
  case (1 n)
  show ?case
  proof (cases "n = 0")
    case False
    then have "n div 2 < 2 ^ bit_length (n div 2)" using 1 by blast
    then show ?thesis using False by (subst bit_length.simps) simp
  qed simp
qed

lemma bit_length_ge: "0 < n \<Longrightarrow> 2 ^ (bit_length n - 1) \<le> n"
proof (induction n rule: bit_length.induct)
  case (1 n)
  show ?case
  proof (cases "n = 1")
    case True
    then show ?thesis by (simp add: bit_length.simps)
  next
    case False
    then have "0 < n div 2" using 1(2) by linarith
    then have half: "2 ^ (bit_length (n div 2) - 1) \<le> n div 2" "0 < bit_length (n div 2)"
      using 1 by (simp_all add: bit_length.simps [of "n div 2"])
    then have "2 ^ bit_length (n div 2) \<le> 2 * (n div 2)"
      by (cases "bit_length (n div 2)") simp_all
    then have "2 ^ bit_length (n div 2) \<le> n" by linarith
    then show ?thesis using 1(2) by (subst bit_length.simps) simp
  qed
qed

lemma f64_of_nat_bounds:
  assumes "0 < n" and "n \<le> 2 ^ 64"
  shows "0 < f64_of_nat n" "f64_of_nat n \<le> 2 ^ 64"
proof -
  define s where "s = bit_length n - 53"
  have f: "f64_of_nat n = rne n (2 ^ s) * 2 ^ s" by (simp add: f64_of_nat_def s_def Let_def)
  have "bit_length n \<le> 65" using assms(2) by (intro bit_length_le) simp
  then have s: "s \<le> 64" by (simp add: s_def)
  then have "(2::nat) ^ 64 = 2 ^ (64 - s) * 2 ^ s" by (simp flip: power_add)
  with assms(2) have "rne n (2 ^ s) * 2 ^ s \<le> 2 ^ (64 - s) * 2 ^ s"
    by (intro mult_le_mono1 rne_le) simp_all
  then show "f64_of_nat n \<le> 2 ^ 64" using \<open>2 ^ 64 = 2 ^ (64 - s) * 2 ^ s\<close> f by metis
  have "(2::nat) ^ s \<le> 2 ^ (bit_length n - 1)" by (rule power_increasing) (simp_all add: s_def)
  then have "2 ^ s \<le> n" using bit_length_ge [OF assms(1)] by linarith
  then have "0 < n div 2 ^ s" by (simp add: div_greater_zero_iff)
  then have "0 < rne n (2 ^ s)" by (simp add: rne_def Let_def)
  then show "0 < f64_of_nat n" by (simp add: f)
qed

text \<open>A positive integer divided by one is positive.\<close>

lemma f64_div_gt_zero:
  assumes "0 < a" and "a \<le> 2 ^ 64"
  shows "f64_gt_zero (f64_div a 1)"
proof -
  define k where "k = 54 - int (bit_length a)"
  define scaled :: "int \<Rightarrow> nat \<times> nat"
    where "scaled s = (if 0 \<le> s then (a * 2 ^ nat s, 1) else (a, 2 ^ nat (- s)))" for s
  define s where "s = (case scaled k of (x, y) \<Rightarrow> if 2 ^ 53 \<le> x div y then k - 1 else k)"
  define q where "q = (case scaled s of (x, y) \<Rightarrow> rne x y)"
  define m t where "m = (if q = 2 ^ 53 then 2 ^ 52 else q)" and "t = (if q = 2 ^ 53 then s - 1 else s)"
  define v where "v = (1075 - t) * 2 ^ 52 + (int m - 2 ^ 52)"
  have one: "bit_length 1 = 1" by (simp add: bit_length.simps)
  have "(\<lambda>s. if 0 \<le> s then (a * 2 ^ nat s, 1) else (a, 1 * 2 ^ nat (- s))) = scaled"
    by (simp add: scaled_def fun_eq_iff)
  moreover have "53 + int 1 - int (bit_length a) = k" by (simp add: k_def)
  ultimately have "f64_div a 1 = (case (if q = 2 ^ 53 then (2 ^ 52, s - 1) else (q, s)) of
      (m, t) \<Rightarrow> word_of_int ((1075 - t) * 2 ^ 52 + (int m - 2 ^ 52)))"
    by (simp only: f64_div_def one Let_def q_def s_def assms(1) [unfolded neq0_conv [symmetric]] if_False)
  then have div: "f64_div a 1 = word_of_int v" by (simp add: v_def m_def t_def)
  have len: "0 < bit_length a" "bit_length a \<le> 65"
    using assms bit_length_le [of a 65] by (simp_all add: bit_length.simps [of a])
  have s: "s = k \<or> s = k - 1" by (auto simp: s_def split: prod.split)
  have "q \<le> 2 ^ 53"
  proof -
    obtain x y where xy: "scaled s = (x, y)" by fastforce
    then have y: "0 < y" by (auto simp: scaled_def split: if_splits)
    have "x \<le> 2 ^ 53 * y"
    proof (cases "s = k")
      case True
      then have "x div y < 2 ^ 53" using xy by (auto simp: s_def split: if_splits)
      then have "x < 2 ^ 53 * y" using y by (simp add: div_less_iff_less_mult)
      then show ?thesis by simp
    next
      case False
      then have "s = 53 - int (bit_length a)" using s by (simp add: k_def)
      then have "bit_length a + nat s = 53" if "0 \<le> s" using that by linarith
      moreover have "a * 2 ^ nat s \<le> 2 ^ (bit_length a + nat s)"
        using bit_length_lt [of a] by (simp add: power_add)
      moreover have "53 + nat (- s) = bit_length a" if "s < 0"
        using that \<open>s = 53 - int (bit_length a)\<close> by linarith
      then have "a \<le> 2 ^ 53 * 2 ^ nat (- s)" if "s < 0"
        using that bit_length_lt [of a] by (simp only: flip: power_add)
      ultimately show ?thesis using xy by (auto simp: scaled_def split: if_splits)
    qed
    then show ?thesis using xy y by (simp add: q_def rne_le)
  qed
  have "- 12 \<le> s" "s \<le> 53" using s len by (auto simp: k_def)
  then have "- 13 \<le> t" "t \<le> 53" by (auto simp: t_def)
  moreover have "m \<le> 2 ^ 53" using \<open>q \<le> 2 ^ 53\<close> by (auto simp: m_def)
  ultimately have v: "0 < v" "v \<le> 0x7FF0000000000000" by (auto simp: v_def)
  then have "uint (word_of_int v :: f64) = v" by (simp add: uint_word_of_int)
  then show ?thesis using v unfolding div by (simp add: f64_gt_zero_def word_less_def word_le_def)
qed

lemma snapshot_single:
  assumes "\<not> poisoned b" and "entries b = [x]" and "x \<noteq> 0"
  shows "\<exists>avg. latency_snapshot b = Some (avg, x) \<and> f64_gt_zero avg"
proof -
  have "0 < unat x" using assms(3) by (simp add: unat_gt_0)
  moreover have "unat x < 2 ^ LENGTH(64)" by (rule unsigned_less)
  then have "unat x \<le> 2 ^ 64" by simp
  ultimately have "f64_gt_zero (f64_div (f64_of_nat (unat x)) 1)"
    by (intro f64_div_gt_zero f64_of_nat_bounds)
  moreover have "p95_index 1 = 0" "f64_of_nat 1 = 1"
    by (simp_all add: p95_index_eq LATENCY_BUF_CAP_def p95_rank_def f64_of_nat_exact)
  ultimately show ?thesis using assms(1,2) by (simp add: latency_snapshot_def Let_def nth_opt_def)
qed

end
