(* ===== verification/Sql_Guard.thy ===== *)
theory Sql_Guard
  imports Request
begin

text \<open>
  \<open>validate_sql\<close> of \<open>src/writer.rs\<close>: the check of the first token of a statement against
  the always-forbidden transaction keywords and the flags of the configuration. The
  lemmas give the exact set of accepted statements, show that the letter case and
  leading white space of the keyword do not matter, that switching a permission on
  never rejects more, and which spellings of a transaction statement the check lets
  through.
\<close>

definition tx_keywords :: "string list" where
  "tx_keywords = [''BEGIN'', ''COMMIT'', ''ROLLBACK'', ''SAVEPOINT'', ''RELEASE'', ''PRAGMA'']"

definition schema_keywords :: "string list" where
  "schema_keywords = [''CREATE'', ''ALTER'', ''DROP'', ''TRUNCATE'']"

definition first_token :: "string \<Rightarrow> string" where
  "first_token s = (case first_ascii_token (trim_start s) of None \<Rightarrow> [] | Some t \<Rightarrow> t)"

definition validate_sql :: "string \<Rightarrow> gateway_config \<Rightarrow> 'e error + unit" where
  "validate_sql s config =
     (if \<not> cfg_allow_raw_sql config then
        Inl (SqlRejected ''raw SQL is disabled (allow_raw_sql = false)'')
      else
        let tok = first_token s; token = to_ascii_uppercase tok in
        if List.member tx_keywords token then
          Inl (SqlRejected (''statement starts with forbidden keyword '' @ squote tok))
        else if token = ''DROP'' \<and> \<not> cfg_allow_drop config then
          Inl (SqlRejected ''DROP statements are disabled (allow_drop = false)'')
        else if token = ''DELETE'' \<and> \<not> cfg_allow_delete config then
          Inl (SqlRejected ''DELETE statements are disabled (allow_delete = false)'')
        else if List.member schema_keywords token \<and> \<not> cfg_allow_schema_write config then
          Inl (SqlRejected
            (''schema-write statements are disabled (allow_schema_write = false); ''
             @ ''statement starts with '' @ squote tok))
        else Inr ())"

section \<open>Which statements pass\<close>

definition keyword :: "string \<Rightarrow> string" where
  "keyword s = to_ascii_uppercase (first_token s)"

definition guard_accepts :: "gateway_config \<Rightarrow> string \<Rightarrow> bool" where
  "guard_accepts config k \<longleftrightarrow>
     cfg_allow_raw_sql config \<and> k \<notin> set tx_keywords
     \<and> (k = ''DROP'' \<longrightarrow> cfg_allow_drop config)
     \<and> (k = ''DELETE'' \<longrightarrow> cfg_allow_delete config)
     \<and> (k \<in> set schema_keywords \<longrightarrow> cfg_allow_schema_write config)"

lemma validate_sql_Inr_iff [guard_simps]:
  "validate_sql s config = Inr () \<longleftrightarrow> guard_accepts config (keyword s)"
  by (auto simp: validate_sql_def guard_accepts_def keyword_def Let_def)

lemma validate_sql_Inl_SqlRejected:
  "validate_sql s config = Inl e \<Longrightarrow> \<exists>m. e = SqlRejected m"
  by (auto simp: validate_sql_def Let_def split: if_splits)

lemma validate_sql_isl_iff:
  "isl (validate_sql s config :: 'e error + unit) \<longleftrightarrow> \<not> guard_accepts config (keyword s)"
proof (cases "validate_sql s config :: 'e error + unit")
  case (Inl e)
  then have "(validate_sql s config :: 'e error + unit) \<noteq> Inr ()" by simp
  then have "\<not> guard_accepts config (keyword s)" by (simp only: validate_sql_Inr_iff not_False_eq_True)
  with Inl show ?thesis by simp
next
  case (Inr u)
  then have "(validate_sql s config :: 'e error + unit) = Inr ()" by simp
  then have "guard_accepts config (keyword s)" by (simp only: validate_sql_Inr_iff)
  with Inr show ?thesis by simp
qed

text \<open>Permissions are ordered field by field.\<close>

definition permits_le :: "gateway_config \<Rightarrow> gateway_config \<Rightarrow> bool" where
  "permits_le c d \<longleftrightarrow>
     (cfg_allow_raw_sql c \<longrightarrow> cfg_allow_raw_sql d)
     \<and> (cfg_allow_schema_write c \<longrightarrow> cfg_allow_schema_write d)
     \<and> (cfg_allow_delete c \<longrightarrow> cfg_allow_delete d)
     \<and> (cfg_allow_drop c \<longrightarrow> cfg_allow_drop d)"

lemma guard_accepts_mono: "permits_le c d \<Longrightarrow> guard_accepts c k \<Longrightarrow> guard_accepts d k"
  by (auto simp: permits_le_def guard_accepts_def)

section \<open>The keyword of a statement\<close>

lemma takeWhile_token:
  assumes "\<forall>c \<in> set t. \<not> is_ascii_ws c" and "rest = [] \<or> is_ascii_ws (hd rest)"
  shows "takeWhile (\<lambda>c. \<not> is_ascii_ws c) (t @ rest) = t"
  using assms by (cases rest) (auto simp: takeWhile_append)

lemma first_token_eq:
  assumes "\<forall>c \<in> set ws. is_ascii_ws c"
    and "t \<noteq> []" and "\<forall>c \<in> set t. \<not> is_ascii_ws c" and "ws_len (t @ rest) = 0"
    and "rest = [] \<or> is_ascii_ws (hd rest)"
  shows "first_token (ws @ t @ rest) = t"
proof -
  have "trim_start (ws @ t @ rest) = t @ rest"
    using assms(1,4) by (simp add: trim_start_ws_prefix trim_start_id)
  moreover obtain a t' where t: "t = a # t'" "\<not> is_ascii_ws a"
    using assms(2,3) by (cases t) auto
  moreover have "takeWhile (\<lambda>c. \<not> is_ascii_ws c) (t @ rest) = t"
    by (rule takeWhile_token) (use assms in auto)
  ultimately show ?thesis
    by (simp add: first_token_def first_ascii_token_def)
qed

lemma byte_ascii_upper_letter:
  assumes "65 \<le> byte (ascii_upper c)" and "byte (ascii_upper c) \<le> 90"
  shows "65 \<le> byte c \<and> byte c \<le> 90 \<or> 97 \<le> byte c \<and> byte c \<le> 122"
  using assms by (auto simp: ascii_upper_def split: if_splits)

definition is_letter :: "char \<Rightarrow> bool" where
  "is_letter c \<longleftrightarrow> 65 \<le> byte c \<and> byte c \<le> 90 \<or> 97 \<le> byte c \<and> byte c \<le> 122"

lemma is_letter_not_ws: "is_letter c \<Longrightarrow> \<not> is_ascii_ws c"
  by (auto simp: is_letter_def is_ascii_ws_def)

lemma ws_len_letter: "is_letter c \<Longrightarrow> ws_len (c # s) = 0"
proof -
  assume "is_letter c"
  then have "\<not> byte c \<le> 13" "byte c \<noteq> 32" "byte c < 0xC2"
    by (auto simp: is_letter_def)
  then show ?thesis by (simp split: list.split)
qed

lemma upper_letters:
  assumes "\<forall>k \<in> set (to_ascii_uppercase t). 65 \<le> byte k \<and> byte k \<le> 90"
  shows "\<forall>c \<in> set t. is_letter c"
  using assms byte_ascii_upper_letter by (auto simp: to_ascii_uppercase_def is_letter_def)

definition guarded_keywords :: "string list" where
  "guarded_keywords = tx_keywords @ schema_keywords @ [''DELETE'']"

lemma guarded_keywords_upper:
  "list_all (\<lambda>k. k \<noteq> [] \<and> list_all (\<lambda>c. 65 \<le> byte c \<and> byte c \<le> 90) k) guarded_keywords"
  by code_simp

lemma keyword_letters:
  assumes "k \<in> set guarded_keywords"
  shows "k \<noteq> []" and "\<forall>c \<in> set k. 65 \<le> byte c \<and> byte c \<le> 90"
  using guarded_keywords_upper assms by (auto simp only: list_all_iff)

text \<open>
  A guarded keyword is recognised whatever its letter case, after any ASCII white space,
  at the end of the statement or before any ASCII white space.
\<close>

lemma keyword_recognised:
  assumes "\<forall>c \<in> set ws. is_ascii_ws c" and "to_ascii_uppercase t = k"
    and "k \<in> set guarded_keywords"
    and "rest = [] \<or> is_ascii_ws (hd rest)"
  shows "keyword (ws @ t @ rest) = k"
proof -
  have "t \<noteq> []" using keyword_letters(1) [OF assms(3)] assms(2)
    by (auto simp: to_ascii_uppercase_def)
  have letters: "\<forall>c \<in> set t. is_letter c"
    by (rule upper_letters) (use keyword_letters(2) [OF assms(3)] assms(2) in simp)
  with \<open>t \<noteq> []\<close> have "ws_len (t @ rest) = 0"
    by (cases t) (simp_all add: ws_len_letter del: ws_len.simps)
  moreover have "\<forall>c \<in> set t. \<not> is_ascii_ws c"
    using letters by (simp add: is_letter_not_ws)
  ultimately show ?thesis
    using assms \<open>t \<noteq> []\<close> by (simp add: keyword_def first_token_eq)
qed

text \<open>
  A transaction keyword with a character glued to it is a different token: this is how
  \<open>COMMIT;\<close> passes. \<open>t\<close> may be any token that does not spell a guarded keyword.
\<close>

lemma keyword_of_token:
  assumes "t \<noteq> []" and "\<forall>c \<in> set t. \<not> is_ascii_ws c" and "ws_len t = 0"
  shows "keyword t = to_ascii_uppercase t"
  using first_token_eq [of "[]" t "[]"] assms by (simp add: keyword_def)

end
