(* ===== verification/Writer.thy ===== *)
theory Writer
  imports Driver Latency Sql_Guard
begin

text \<open>
  \<open>Writer\<close> of \<open>src/writer.rs\<close>, the single-request path: the admission checks, the
  idempotency lookup, the transaction body and \<open>apply\<close>. The statements that \<open>apply_inner\<close>
  and \<open>apply_savepoint\<close> share in the source (operations, commit row, idempotency row) are
  one definition here, \<open>tx_body\<close>; theory \<open>Batch\<close> uses it for the batch path.

  \<open>Writer::receiver\<close> is not a field: theory \<open>Run_Loop\<close> threads the channel separately.
\<close>

section \<open>State\<close>

record 'c writer =
  w_conn :: 'c
  w_track_commits :: bool
  w_idempotency :: bool
  w_config :: gateway_config
  w_latency_buf :: latency_buffer

definition new_writer ::
  "'c \<Rightarrow> bool \<Rightarrow> bool \<Rightarrow> gateway_config \<Rightarrow> latency_buffer \<Rightarrow> 'c writer" where
  "new_writer conn track_commits idempotency config latency_buf =
     \<lparr>w_conn = conn, w_track_commits = track_commits, w_idempotency = idempotency,
      w_config = config, w_latency_buf = latency_buf\<rparr>"

section \<open>Admission: SQL checks, then the idempotency lookup\<close>

fun validate_all :: "gateway_config \<Rightarrow> 'n sql_operation list \<Rightarrow> 'e error + unit" where
  "validate_all config [] = Inr ()"
| "validate_all config (op # ops) =
     (case validate_sql (sql op) config of
        Inl e \<Rightarrow> Inl e
      | Inr _ \<Rightarrow> validate_all config ops)"

text \<open>The lookup with its row closure: hash, then the optional response text.\<close>

definition idem_lookup ::
  "('c, 'e) driver \<Rightarrow> string \<Rightarrow> 'c \<Rightarrow> ('e + string \<times> string option) \<times> 'c" where
  "idem_lookup D key c =
     (case prepare_cached D idem_select_sql c of
        (Inl e, c1) \<Rightarrow> (Inl e, c1)
      | (Inr _, c1) \<Rightarrow>
        (case query_row D idem_select_sql [Text key] c1 of
           (Inl e, c2) \<Rightarrow> (Inl e, c2)
         | (Inr row, c2) \<Rightarrow>
           (case get_string D row 0 of
              Inl e \<Rightarrow> (Inl e, c2)
            | Inr h \<Rightarrow>
              (case get_opt_string D row 1 of
                 Inl e \<Rightarrow> (Inl e, c2)
               | Inr r \<Rightarrow> (Inr (h, r), c2)))))"

text \<open>The replayed response, or a bare \<open>committed\<close> when the stored text does not parse.\<close>

definition stored_response :: "'n serde \<Rightarrow> string \<Rightarrow> string option \<Rightarrow> write_response" where
  "stored_response S req_id response_json =
     (case response_json of
        None \<Rightarrow> committed req_id None
      | Some t \<Rightarrow>
        (case from_text S t of
           Inl _ \<Rightarrow> committed req_id None
         | Inr v \<Rightarrow>
           (case response_of_value S v of
              None \<Rightarrow> committed req_id None
            | Some r \<Rightarrow> r)))"

datatype admission = Answer write_response | Proceed "(string \<times> string) option"

definition admit ::
  "('n, 'c, 'e) env \<Rightarrow> gateway_config \<Rightarrow> bool \<Rightarrow> 'n write_request \<Rightarrow> 'c \<Rightarrow> admission \<times> 'c" where
  "admit E config idempotency request c =
     (let req_id = rq_request_id request; show_err = err_to_string (drv E) in
      case validate_all config (rq_operations request) of
        Inl e \<Rightarrow> (Answer (failed req_id (error_to_string show_err e)), c)
      | Inr _ \<Rightarrow>
        (case (if idempotency then rq_idempotency_key request else None) of
           None \<Rightarrow> (Proceed None, c)
         | Some key \<Rightarrow>
           (case to_text (serde E) (operations_to_value (rq_operations request)) of
              Inl m \<Rightarrow> (Answer (failed req_id m), c)
            | Inr request_hash \<Rightarrow>
              (case idem_lookup (drv E) key c of
                 (Inr (stored_hash, response_json), c1) \<Rightarrow>
                   (if stored_hash = request_hash
                    then (Answer (stored_response (serde E) req_id response_json), c1)
                    else (Answer (failed req_id
                           (error_to_string show_err (IdempotencyConflict key))), c1))
               | (Inl e, c1) \<Rightarrow>
                   (if is_no_rows (drv E) e then (Proceed (Some (key, request_hash)), c1)
                    else (Answer (failed req_id (show_err e)), c1))))))"

section \<open>The body of a transaction\<close>

fun exec_ops ::
  "('n, 'c, 'e) env \<Rightarrow> 'n sql_operation list \<Rightarrow> 'c \<Rightarrow> (string + unit) \<times> 'c" where
  "exec_ops E [] c = (Inr (), c)"
| "exec_ops E (op # ops) c =
     (case params_from (serde E) (b64 E) (params op) of
        Inl e \<Rightarrow> (Inl (error_to_string (err_to_string (drv E)) e), c)
      | Inr ps \<Rightarrow>
        (case prepare_cached (drv E) (sql op) c of
           (Inl e, c1) \<Rightarrow> (Inl (err_to_string (drv E) e), c1)
         | (Inr _, c1) \<Rightarrow>
           (case stmt_execute (drv E) (sql op) ps c1 of
              (Inl e, c2) \<Rightarrow> (Inl (err_to_string (drv E) e), c2)
            | (Inr _, c2) \<Rightarrow> exec_ops E ops c2)))"

text \<open>A fixed internal statement: prepare, bind, execute.\<close>

definition exec_fixed ::
  "('c, 'e) driver \<Rightarrow> string \<Rightarrow> sql_value list \<Rightarrow> 'c \<Rightarrow> (string + unit) \<times> 'c" where
  "exec_fixed D s ps c =
     (case prepare_cached D s c of
        (Inl e, c1) \<Rightarrow> (Inl (err_to_string D e), c1)
      | (Inr _, c1) \<Rightarrow>
        (case stmt_execute D s ps c1 of
           (Inl e, c2) \<Rightarrow> (Inl (err_to_string D e), c2)
         | (Inr _, c2) \<Rightarrow> (Inr (), c2)))"

fun opt_text :: "string option \<Rightarrow> sql_value" where
  "opt_text None = Null"
| "opt_text (Some s) = Text s"

fun opt_integer :: "i64 option \<Rightarrow> sql_value" where
  "opt_integer None = Null"
| "opt_integer (Some i) = Integer i"

definition commit_params :: "'n write_request \<Rightarrow> sql_value list" where
  "commit_params request =
     [Text (rq_request_id request), Text (rq_actor_id request), opt_text (rq_run_id request)]"

definition record_commit ::
  "('n, 'c, 'e) env \<Rightarrow> bool \<Rightarrow> 'n write_request \<Rightarrow> 'c \<Rightarrow> (string + i64 option) \<times> 'c" where
  "record_commit E track_commits request c =
     (if track_commits then
        (case exec_fixed (drv E) commit_insert_sql (commit_params request) c of
           (Inl m, c1) \<Rightarrow> (Inl m, c1)
         | (Inr _, c1) \<Rightarrow> (Inr (Some (last_insert_rowid (drv E) c1)), c1))
      else (Inr None, c))"

text \<open>\<open>serde_json::to_string(&resp_preview).unwrap_or_default()\<close>.\<close>

definition response_preview :: "'n serde \<Rightarrow> string \<Rightarrow> i64 option \<Rightarrow> string" where
  "response_preview S req_id commit_seq =
     (case to_text S (response_to_value S (committed req_id commit_seq)) of
        Inl _ \<Rightarrow> [] | Inr t \<Rightarrow> t)"

definition idem_params :: "'n serde \<Rightarrow> string \<Rightarrow> i64 option \<Rightarrow> string \<Rightarrow> string \<Rightarrow> sql_value list" where
  "idem_params S req_id commit_seq key hash =
     [Text key, Text hash, Text (response_preview S req_id commit_seq), opt_integer commit_seq]"

definition record_idempotency ::
  "('n, 'c, 'e) env \<Rightarrow> string \<Rightarrow> i64 option \<Rightarrow> (string \<times> string) option \<Rightarrow> 'c \<Rightarrow>
   (string + unit) \<times> 'c" where
  "record_idempotency E req_id commit_seq record c =
     (case record of
        None \<Rightarrow> (Inr (), c)
      | Some (key, hash) \<Rightarrow>
          exec_fixed (drv E) idem_insert_sql (idem_params (serde E) req_id commit_seq key hash) c)"

definition tx_body ::
  "('n, 'c, 'e) env \<Rightarrow> bool \<Rightarrow> 'n write_request \<Rightarrow> (string \<times> string) option \<Rightarrow> 'c \<Rightarrow>
   (string + i64 option) \<times> 'c" where
  "tx_body E track_commits request record c =
     (case exec_ops E (rq_operations request) c of
        (Inl m, c1) \<Rightarrow> (Inl m, c1)
      | (Inr _, c1) \<Rightarrow>
        (case record_commit E track_commits request c1 of
           (Inl m, c2) \<Rightarrow> (Inl m, c2)
         | (Inr commit_seq, c2) \<Rightarrow>
           (case record_idempotency E (rq_request_id request) commit_seq record c2 of
              (Inl m, c3) \<Rightarrow> (Inl m, c3)
            | (Inr _, c3) \<Rightarrow> (Inr commit_seq, c3))))"

section \<open>\<open>apply_inner\<close> and \<open>apply\<close>\<close>

text \<open>\<open>start.elapsed().as_micros() as u64\<close>, from two readings of the clock.\<close>

definition elapsed_micros :: "('c, 'e) driver \<Rightarrow> 'c \<Rightarrow> 'c \<Rightarrow> u64" where
  "elapsed_micros D c0 c1 = of_nat (clock_micros D c1 - clock_micros D c0)"

definition apply_inner ::
  "('n, 'c, 'e) env \<Rightarrow> 'c writer \<Rightarrow> 'n write_request \<Rightarrow> (string \<times> string) option \<Rightarrow>
   write_response \<times> 'c writer" where
  "apply_inner E w request record =
     (let req_id = rq_request_id request; show_err = err_to_string (drv E) in
      case begin_immediate (drv E) (w_conn w) of
        (Inl e, c1) \<Rightarrow> (failed req_id (show_err e), w\<lparr>w_conn := c1\<rparr>)
      | (Inr _, c1) \<Rightarrow>
        (case tx_body E (w_track_commits w) request record c1 of
           (Inl m, c2) \<Rightarrow> (failed req_id m, w\<lparr>w_conn := drop_tx (drv E) c2\<rparr>)
         | (Inr commit_seq, c2) \<Rightarrow>
           (case commit_tx (drv E) c2 of
              (Inl e, c3) \<Rightarrow> (failed req_id (show_err e), w\<lparr>w_conn := c3\<rparr>)
            | (Inr _, c3) \<Rightarrow>
                (committed req_id commit_seq,
                 w\<lparr>w_conn := c3,
                   w_latency_buf := push_latency (w_latency_buf w)
                     (elapsed_micros (drv E) (w_conn w) c3)\<rparr>))))"

definition writer_apply ::
  "('n, 'c, 'e) env \<Rightarrow> 'c writer \<Rightarrow> 'n write_request \<Rightarrow> write_response \<times> 'c writer" where
  "writer_apply E w request =
     (case admit E (w_config w) (w_idempotency w) request (w_conn w) of
        (Answer r, c1) \<Rightarrow> (r, w\<lparr>w_conn := c1\<rparr>)
      | (Proceed record, c1) \<Rightarrow> apply_inner E (w\<lparr>w_conn := c1\<rparr>) request record)"

end
