(* ===== verification/Writer_Spec.thy ===== *)
theory Writer_Spec
  imports Writer
begin

text \<open>
  What a request may do to the database, stated on the durable content alone, and the
  proof that \<open>apply\<close> does nothing else. \<open>tx_effect\<close> is the all-or-nothing meaning of a
  request, \<open>serves\<close> the contract of one request: refused or failed without effect,
  executed once, or answered from the idempotency table without effect.
\<close>

section \<open>The abstract transaction\<close>

fun ops_effect ::
  "('n, 'c, 'e) env \<Rightarrow> ('c, 'd) reading \<Rightarrow> 'n sql_operation list \<Rightarrow> 'd \<Rightarrow> 'd option" where
  "ops_effect E A [] d = Some d"
| "ops_effect E A (op # ops) d =
     (case (params_from (serde E) (b64 E) (params op) :: 'e error + sql_value list) of
        Inl _ \<Rightarrow> None
      | Inr ps \<Rightarrow> Option.bind (effect A (sql op) ps d) (ops_effect E A ops))"

definition commit_effect ::
  "('c, 'd) reading \<Rightarrow> bool \<Rightarrow> 'n write_request \<Rightarrow> 'd \<Rightarrow> i64 option \<Rightarrow> 'd \<Rightarrow> bool" where
  "commit_effect A track request d commit_seq d' \<longleftrightarrow>
     (if track then effect A commit_insert_sql (commit_params request) d = Some d'
        \<and> (\<exists>i. commit_seq = Some i \<and> sint i = max_seq A d')
      else d' = d \<and> commit_seq = None)"

definition idem_effect ::
  "('n, 'c, 'e) env \<Rightarrow> ('c, 'd) reading \<Rightarrow> string \<Rightarrow> i64 option \<Rightarrow> (string \<times> string) option \<Rightarrow>
   'd \<Rightarrow> 'd \<Rightarrow> bool" where
  "idem_effect E A req_id commit_seq record d d' \<longleftrightarrow>
     (case record of
        None \<Rightarrow> d' = d
      | Some (key, hash) \<Rightarrow>
          effect A idem_insert_sql (idem_params (serde E) req_id commit_seq key hash) d = Some d')"

definition tx_effect ::
  "('n, 'c, 'e) env \<Rightarrow> ('c, 'd) reading \<Rightarrow> bool \<Rightarrow> 'n write_request \<Rightarrow> (string \<times> string) option \<Rightarrow>
   'd \<Rightarrow> i64 option \<Rightarrow> 'd \<Rightarrow> bool" where
  "tx_effect E A track request record d commit_seq d' \<longleftrightarrow>
     (\<exists>d1 d2. ops_effect E A (rq_operations request) d = Some d1
        \<and> commit_effect A track request d1 commit_seq d2
        \<and> idem_effect E A (rq_request_id request) commit_seq record d2 d')"

definition plain_request :: "('c, 'd) reading \<Rightarrow> 'n write_request \<Rightarrow> bool" where
  "plain_request A request \<longleftrightarrow> (\<forall>op \<in> set (rq_operations request). plain A (sql op))"

section \<open>The contract of one request\<close>

text \<open>The idempotency record a request carries: its key and the text of its operations.\<close>

definition request_record ::
  "'n serde \<Rightarrow> bool \<Rightarrow> 'n write_request \<Rightarrow> (string \<times> string) option" where
  "request_record S idempotency request =
     (case (if idempotency then rq_idempotency_key request else None) of
        None \<Rightarrow> None
      | Some key \<Rightarrow>
        (case to_text S (operations_to_value (rq_operations request)) of
           Inl _ \<Rightarrow> None | Inr hash \<Rightarrow> Some (key, hash)))"

definition unseen :: "('c, 'd) reading \<Rightarrow> 'd \<Rightarrow> (string \<times> string) option \<Rightarrow> bool" where
  "unseen A d record \<longleftrightarrow> (case record of None \<Rightarrow> True | Some (key, _) \<Rightarrow> stored A d key = None)"

inductive serves ::
  "('n, 'c, 'e) env \<Rightarrow> ('c, 'd) reading \<Rightarrow> gateway_config \<Rightarrow> bool \<Rightarrow> bool \<Rightarrow>
   'd \<Rightarrow> 'n write_request \<Rightarrow> write_response \<Rightarrow> 'd \<Rightarrow> bool"
  for E :: "('n, 'c, 'e) env" and A :: "('c, 'd) reading"
    and config :: gateway_config and track :: bool and idempotency :: bool
where
  not_served: "rs_status resp = Failed \<Longrightarrow> serves E A config track idempotency d request resp d"
| executed: "\<forall>op \<in> set (rq_operations request). guard_accepts config (keyword (sql op)) \<Longrightarrow>
    unseen A d (request_record (serde E) idempotency request) \<Longrightarrow>
    tx_effect E A track request (request_record (serde E) idempotency request) d seq d' \<Longrightarrow>
    serves E A config track idempotency d request (committed (rq_request_id request) seq) d'"
| replayed: "request_record (serde E) idempotency request = Some (key, hash) \<Longrightarrow>
    stored A d key = Some (hash, j) \<Longrightarrow>
    resp = stored_response (serde E) (rq_request_id request) j \<Longrightarrow>
    serves E A config track idempotency d request resp d"

text \<open>A sequence of requests served one after the other.\<close>

fun serves_all ::
  "('n, 'c, 'e) env \<Rightarrow> ('c, 'd) reading \<Rightarrow> gateway_config \<Rightarrow> bool \<Rightarrow> bool \<Rightarrow>
   'd \<Rightarrow> ('n write_request \<times> write_response) list \<Rightarrow> 'd \<Rightarrow> bool" where
  "serves_all E A config track idempotency d [] d' \<longleftrightarrow> d' = d"
| "serves_all E A config track idempotency d ((request, resp) # rest) d' \<longleftrightarrow>
     (\<exists>d1. serves E A config track idempotency d request resp d1
        \<and> serves_all E A config track idempotency d1 rest d')"

lemma serves_all_append:
  "serves_all E A config track idempotency d (xs @ ys) d' \<longleftrightarrow>
     (\<exists>d1. serves_all E A config track idempotency d xs d1
        \<and> serves_all E A config track idempotency d1 ys d')"
proof (induction xs arbitrary: d)
  case Nil
  then show ?case by simp
next
  case (Cons x xs)
  then show ?case by (cases x) (simp, blast)
qed

lemma serves_all_failed:
  "\<forall>(request, resp) \<in> set rs. rs_status resp = Failed \<Longrightarrow>
     serves_all E A config track idempotency d rs d"
proof (induction rs)
  case Nil
  then show ?case by simp
next
  case (Cons x rs)
  then show ?case by (cases x) (auto intro!: exI [of _ d] serves.not_served)
qed

lemma validate_all_Inr_iff:
  "(validate_all config ops :: 'e error + unit) = Inr () \<longleftrightarrow>
     (\<forall>op \<in> set ops. guard_accepts config (keyword (sql op)))"
proof (induction ops)
  case Nil
  then show ?case by simp
next
  case (Cons op ops)
  have "(validate_sql (sql op) config :: 'e error + unit) = Inr () \<longleftrightarrow>
      guard_accepts config (keyword (sql op))"
    by (rule validate_sql_Inr_iff)
  with Cons show ?case
    by (cases "validate_sql (sql op) config :: 'e error + unit") simp_all
qed

section \<open>\<open>apply\<close> meets the contract\<close>

locale gateway_db = sqlite "drv E" A
  for E :: "('n, 'c, 'e) env" and A :: "('c, 'd) reading"
begin

lemma tx_step_same: "in_tx A c \<Longrightarrow> same_reading A c c' \<Longrightarrow> tx_step A c c'"
  by (simp add: same_reading_def tx_step_def)

lemma tx_step_refl: "in_tx A c \<Longrightarrow> tx_step A c c"
  by (simp add: tx_step_def)

lemma tx_step_trans: "tx_step A a b \<Longrightarrow> tx_step A b c \<Longrightarrow> tx_step A a c"
  by (simp add: tx_step_def)

lemma tx_step_in_tx: "tx_step A c c' \<Longrightarrow> in_tx A c'"
  by (simp add: tx_step_def)

text \<open>One prepared statement: on success its effect on the view, on failure no effect.\<close>

lemma exec_fixed_step:
  assumes "in_tx A c" and "plain A s \<or> internal_sql s" and "exec_fixed (drv E) s ps c = (r, c')"
  shows "tx_step A c c'" and "r = Inr u \<Longrightarrow> effect A s ps (view A c) = Some (view A c')"
proof -
  obtain p c1 where p: "prepare_cached (drv E) s c = (p, c1)" by fastforce
  have c1: "same_reading A c c1" using p by (rule prepare_same)
  then have tx1: "in_tx A c1" and view1: "view A c1 = view A c"
    using assms(1) by (simp_all add: same_reading_def)
  obtain q c2 where q: "stmt_execute (drv E) s ps c1 = (q, c2)" by fastforce
  have step2: "tx_step A c1 c2"
    using execute_ok [OF tx1 assms(2)] execute_err [OF tx1 assms(2)] tx1 q
    by (cases q) (auto intro: tx_step_same)
  have eff: "q = Inr n \<Longrightarrow> effect A s ps (view A c) = Some (view A c2)" for n
    using execute_ok [OF tx1 assms(2)] q view1 by simp
  show "tx_step A c c'"
    using assms(3) p q tx_step_same [OF assms(1) c1] tx_step_trans [OF tx_step_same [OF assms(1) c1] step2]
    by (auto simp: exec_fixed_def split: sum.splits)
  show "r = Inr u \<Longrightarrow> effect A s ps (view A c) = Some (view A c')"
    using assms(3) p q eff by (auto simp: exec_fixed_def split: sum.splits)
qed

lemma exec_ops_step:
  assumes "in_tx A c" and "\<forall>op \<in> set ops. plain A (sql op)" and "exec_ops E ops c = (r, c')"
  shows "tx_step A c c' \<and> (r = Inr () \<longrightarrow> ops_effect E A ops (view A c) = Some (view A c'))"
  using assms
proof (induction ops arbitrary: c)
  case Nil
  then show ?case by (auto simp: tx_step_refl)
next
  case (Cons op ops)
  show ?case
  proof (cases "params_from (serde E) (b64 E) (params op) :: 'e error + sql_value list")
    case (Inl e)
    with Cons.prems show ?thesis by (auto simp: tx_step_refl)
  next
    case (Inr ps)
    obtain q c1 where q: "exec_fixed (drv E) (sql op) ps c = (q, c1)" by fastforce
    have plain: "plain A (sql op) \<or> internal_sql (sql op)" using Cons.prems(2) by simp
    note step1 = exec_fixed_step [OF Cons.prems(1) plain q]
    have eq: "exec_ops E (op # ops) c =
        (case q of Inl m \<Rightarrow> (Inl m, c1) | Inr _ \<Rightarrow> exec_ops E ops c1)"
      using q Inr by (auto simp: exec_fixed_def split: sum.splits prod.splits)
    show ?thesis
    proof (cases q)
      case (Inl m)
      with eq Cons.prems(3) have "r = Inl m" and "c' = c1" by simp_all
      with step1(1) show ?thesis by simp
    next
      case (Inr u)
      then have "exec_ops E ops c1 = (r, c')" using eq Cons.prems(3) by simp
      then have "tx_step A c1 c' \<and>
          (r = Inr () \<longrightarrow> ops_effect E A ops (view A c1) = Some (view A c'))"
        using Cons.IH Cons.prems(2) tx_step_in_tx [OF step1(1)] by simp
      then show ?thesis
        using step1(2) [OF Inr] tx_step_trans [OF step1(1)]
          \<open>params_from (serde E) (b64 E) (params op) = Inr ps\<close> by simp
    qed
  qed
qed

lemma record_commit_step:
  assumes "in_tx A c" and "record_commit E track request c = (r, c')"
  shows "tx_step A c c'"
    and "r = Inr seq \<Longrightarrow> commit_effect A track request (view A c) seq (view A c')"
proof -
  obtain q c1 where q: "exec_fixed (drv E) commit_insert_sql (commit_params request) c = (q, c1)"
    by fastforce
  note step = exec_fixed_step [OF assms(1) _ q, simplified internal_sql_def, simplified]
  show "tx_step A c c'"
    using assms q step(1)
    by (auto simp: record_commit_def tx_step_refl split: if_splits sum.splits)
  show "commit_effect A track request (view A c) seq (view A c')" if r: "r = Inr seq"
  proof (cases track)
    case False
    with assms r show ?thesis by (simp add: record_commit_def commit_effect_def)
  next
    case True
    then obtain u where "q = Inr u" and c': "c' = c1"
        and seq: "seq = Some (last_insert_rowid (drv E) c1)"
      using assms(2) q r by (auto simp: record_commit_def split: sum.splits)
    from \<open>q = Inr u\<close> q obtain p c0 n where
        p: "prepare_cached (drv E) commit_insert_sql c = (p, c0)"
        and n: "stmt_execute (drv E) commit_insert_sql (commit_params request) c0 = (Inr n, c1)"
      by (auto simp: exec_fixed_def split: sum.splits prod.splits)
    have "in_tx A c0" using prepare_same [OF p] assms(1) by (simp add: same_reading_def)
    then have "sint (last_insert_rowid (drv E) c1) = max_seq A (view A c1)"
      using commit_rowid n by blast
    then show ?thesis using True step(2) \<open>q = Inr u\<close> seq c'
      by (simp add: commit_effect_def)
  qed
qed

lemma record_idempotency_step:
  assumes "in_tx A c" and "record_idempotency E req_id seq record c = (r, c')"
  shows "tx_step A c c'"
    and "r = Inr u \<Longrightarrow> idem_effect E A req_id seq record (view A c) (view A c')"
  using assms exec_fixed_step [OF assms(1), of idem_insert_sql]
  by (auto simp: record_idempotency_def idem_effect_def internal_sql_def tx_step_refl
      split: option.splits)

text \<open>The body: a success has the whole effect, a failure leaves the durable content alone.\<close>

lemma tx_body_step:
  assumes "in_tx A c" and "plain_request A request" and "tx_body E track request record c = (r, c')"
  shows "tx_step A c c'"
    and "r = Inr seq \<Longrightarrow> tx_effect E A track request record (view A c) seq (view A c')"
proof -
  obtain r1 c1 where 1: "exec_ops E (rq_operations request) c = (r1, c1)" by fastforce
  have ops: "tx_step A c c1" "r1 = Inr () \<longrightarrow>
      ops_effect E A (rq_operations request) (view A c) = Some (view A c1)"
    using exec_ops_step [OF assms(1) _ 1] assms(2) by (simp_all add: plain_request_def)
  obtain r2 c2 where 2: "record_commit E track request c1 = (r2, c2)" by fastforce
  note com = record_commit_step [OF tx_step_in_tx [OF ops(1)] 2]
  note to2 = tx_step_trans [OF ops(1) com(1)]
  have "tx_step A c c' \<and> (\<forall>seq. r = Inr seq \<longrightarrow>
      tx_effect E A track request record (view A c) seq (view A c'))"
  proof (cases r1)
    case (Inl m)
    with assms(3) 1 ops(1) show ?thesis by (auto simp: tx_body_def)
  next
    case r1: (Inr u)
    show ?thesis
    proof (cases r2)
      case (Inl m)
      with r1 assms(3) 1 2 to2 show ?thesis by (auto simp: tx_body_def)
    next
      case r2: (Inr s)
      obtain r3 c3 where 3: "record_idempotency E (rq_request_id request) s record c2 = (r3, c3)"
        by fastforce
      note idem = record_idempotency_step [OF tx_step_in_tx [OF to2] 3]
      have "c' = c3" and "\<And>seq. r = Inr seq \<Longrightarrow> seq = s \<and> r3 = Inr ()"
        using assms(3) 1 2 3 r1 r2 by (auto simp: tx_body_def split: sum.splits)
      then show ?thesis
        using tx_step_trans [OF to2 idem(1)] idem(2) ops(2) r1 com(2) [OF r2]
        by (auto simp: tx_effect_def)
    qed
  qed
  then show "tx_step A c c'"
    and "r = Inr seq \<Longrightarrow> tx_effect E A track request record (view A c) seq (view A c')"
    by blast+
qed

text \<open>The admission checks read the database and never change it.\<close>

lemma idem_lookup_step:
  assumes "idem_lookup (drv E) key c = (r, c')"
  shows "same_reading A c c'"
    and "r = Inr (h, j) \<Longrightarrow> stored A (view A c) key = Some (h, j)"
    and "r = Inl e \<Longrightarrow> is_no_rows (drv E) e \<Longrightarrow> stored A (view A c) key = None"
proof -
  obtain p c1 where p: "prepare_cached (drv E) idem_select_sql c = (p, c1)" by fastforce
  obtain q c2 where q: "query_row (drv E) idem_select_sql [Text key] c1 = (q, c2)" by fastforce
  have c1: "same_reading A c c1" using p by (rule prepare_same)
  then have view1: "view A c1 = view A c" by (simp add: same_reading_def)
  have "same_reading A c c2" using same_reading_trans [OF c1 query_same [OF q]] .
  then show "same_reading A c c'"
    using assms p q c1 by (auto simp: idem_lookup_def split: sum.splits)
  show "r = Inr (h, j) \<Longrightarrow> stored A (view A c) key = Some (h, j)"
    using assms p q view1
    by (auto simp: idem_lookup_def split: sum.splits) (metis One_nat_def query_found)
  show "r = Inl e \<Longrightarrow> is_no_rows (drv E) e \<Longrightarrow> stored A (view A c) key = None"
    using assms p q view1
    by (auto simp: idem_lookup_def split: sum.splits)
      (metis prepare_error query_missing column_error)+
qed

lemma admit_Proceed:
  assumes "admit E config idempotency request c = (Proceed record, c')"
  shows "same_reading A c c'"
    and "\<forall>op \<in> set (rq_operations request). guard_accepts config (keyword (sql op))"
    and "record = request_record (serde E) idempotency request"
    and "unseen A (view A c) record"
proof -
  have valid: "(validate_all config (rq_operations request) :: 'e error + unit) = Inr ()"
    using assms by (auto simp: admit_def Let_def split: sum.splits)
  then show "\<forall>op \<in> set (rq_operations request). guard_accepts config (keyword (sql op))"
    by (simp only: validate_all_Inr_iff)
  have "same_reading A c c' \<and> record = request_record (serde E) idempotency request
      \<and> unseen A (view A c) record"
    using assms valid idem_lookup_step
    by (auto simp: admit_def Let_def request_record_def unseen_def
        split: option.splits sum.splits prod.splits if_splits)
  then show "same_reading A c c'" and "record = request_record (serde E) idempotency request"
    and "unseen A (view A c) record" by blast+
qed

lemma admit_Answer:
  assumes "admit E config idempotency request c = (Answer resp, c')"
  shows "same_reading A c c'"
    and "serves E A config track idempotency (view A c) request resp (view A c)"
proof -
  let ?key = "if idempotency then rq_idempotency_key request else None"
  have "same_reading A c c' \<and> (rs_status resp = Failed \<or> (\<exists>key hash j.
      request_record (serde E) idempotency request = Some (key, hash)
      \<and> stored A (view A c) key = Some (hash, j)
      \<and> resp = stored_response (serde E) (rq_request_id request) j))"
    using assms idem_lookup_step
    by (auto simp: admit_def Let_def request_record_def
        split: option.splits sum.splits prod.splits if_splits)
  then show "same_reading A c c'"
    and "serves E A config track idempotency (view A c) request resp (view A c)"
    by (auto intro: serves.not_served serves.replayed)
qed

lemma apply_inner_serves:
  assumes "idle A (w_conn w)" and "plain_request A request"
    and "apply_inner E w request record = (resp, w')"
  shows "idle A (w_conn w')"
    and "rs_status resp = Failed \<and> durable A (w_conn w') = durable A (w_conn w)
      \<or> (\<exists>seq. resp = committed (rq_request_id request) seq
          \<and> tx_effect E A (w_track_commits w) request record
              (durable A (w_conn w)) seq (durable A (w_conn w')))"
proof -
  obtain b c1 where b: "begin_immediate (drv E) (w_conn w) = (b, c1)" by fastforce
  have "idle A (w_conn w') \<and> (rs_status resp = Failed \<and> durable A (w_conn w') = durable A (w_conn w)
      \<or> (\<exists>seq. resp = committed (rq_request_id request) seq
          \<and> tx_effect E A (w_track_commits w) request record
              (durable A (w_conn w)) seq (durable A (w_conn w'))))"
  proof (cases b)
    case (Inl e)
    with assms(3) b begin_err [OF assms(1)] show ?thesis by (auto simp: apply_inner_def)
  next
    case (Inr u)
    with b have c1: "in_tx A c1" "durable A c1 = durable A (w_conn w)" "view A c1 = durable A (w_conn w)"
      using begin_ok [OF assms(1)] by blast+
    obtain r c2 where r: "tx_body E (w_track_commits w) request record c1 = (r, c2)" by fastforce
    note body = tx_body_step [OF c1(1) assms(2) r]
    then have c2: "in_tx A c2" "durable A c2 = durable A (w_conn w)"
      using c1(2) by (simp_all add: tx_step_def)
    show ?thesis
    proof (cases r)
      case (Inl m)
      with assms(3) b Inr r drop_rolls_back [OF c2(1)] c2(2) show ?thesis
        by (auto simp: apply_inner_def)
    next
      case r_ok: (Inr seq)
      obtain k c3 where k: "commit_tx (drv E) c2 = (k, c3)" by fastforce
      show ?thesis
      proof (cases k)
        case (Inl e)
        with assms(3) b Inr r r_ok k commit_err [OF c2(1)] c2(2) show ?thesis
          by (auto simp: apply_inner_def)
      next
        case k_ok: (Inr v)
        have "idle A c3" and "durable A c3 = view A c2"
          using commit_ok [OF c2(1)] k k_ok by blast+
        with assms(3) b Inr r r_ok k k_ok body(2) [OF r_ok] c1(3) show ?thesis
          by (auto simp: apply_inner_def)
      qed
    qed
  qed
  then show "idle A (w_conn w')"
    and "rs_status resp = Failed \<and> durable A (w_conn w') = durable A (w_conn w)
      \<or> (\<exists>seq. resp = committed (rq_request_id request) seq
          \<and> tx_effect E A (w_track_commits w) request record
              (durable A (w_conn w)) seq (durable A (w_conn w')))"
    by blast+
qed

lemma writer_apply_serves:
  assumes "idle A (w_conn w)" and "plain_request A request"
    and "writer_apply E w request = (resp, w')"
  shows "idle A (w_conn w') \<and> serves E A (w_config w) (w_track_commits w) (w_idempotency w)
    (durable A (w_conn w)) request resp (durable A (w_conn w'))"
proof -
  obtain a c1 where a: "admit E (w_config w) (w_idempotency w) request (w_conn w) = (a, c1)"
    by fastforce
  have view: "view A (w_conn w) = durable A (w_conn w)" using view_autocommit assms(1) by simp
  show ?thesis
  proof (cases a)
    case (Answer r)
    note ans = admit_Answer [OF a [unfolded Answer]]
    with assms a Answer view show ?thesis
      by (auto simp: writer_apply_def same_reading_def)
  next
    case (Proceed rec)
    note pro = admit_Proceed [OF a [unfolded Proceed]]
    let ?w = "w\<lparr>w_conn := c1\<rparr>"
    have w1: "idle A (w_conn ?w)" "durable A (w_conn ?w) = durable A (w_conn w)"
      using pro(1) assms(1) by (simp_all add: same_reading_def)
    have "apply_inner E ?w request rec = (resp, w')"
      using assms(3) a Proceed by (simp add: writer_apply_def)
    note inner = apply_inner_serves [OF w1(1) assms(2) this]
    show ?thesis
      using inner w1(2) pro(2,3,4) view
      by (auto intro: serves.not_served serves.executed)
  qed
qed

end

end
