(* ===== verification/Batch.thy ===== *)
theory Batch
  imports Writer_Spec
begin

text \<open>
  \<open>apply_batch\<close> and \<open>apply_savepoint\<close> of \<open>src/writer.rs\<close>: several requests in one outer
  transaction, each inside its own savepoint. The main lemma says that a batch is served
  exactly as if its requests had been applied one after the other in the batch's order.
\<close>

text \<open>The identity of a \<open>oneshot::Sender\<close>: the caller that waits on it.\<close>

type_synonym slot = nat

definition apply_savepoint ::
  "('n, 'c, 'e) env \<Rightarrow> bool \<Rightarrow> 'n write_request \<Rightarrow> string \<Rightarrow> (string \<times> string) option \<Rightarrow> 'c \<Rightarrow>
   write_response \<times> 'c" where
  "apply_savepoint E track_commits request sp_name record c =
     (let req_id = rq_request_id request; show_err = err_to_string (drv E);
          sp_fail = (\<lambda>m c. (failed req_id m,
                           snd (execute_batch (drv E) (rollback_release_sql sp_name) c)))
      in case execute_batch (drv E) (savepoint_sql sp_name) c of
           (Inl e, c1) \<Rightarrow> (failed req_id (show_err e), c1)
         | (Inr _, c1) \<Rightarrow>
           (case tx_body E track_commits request record c1 of
              (Inl m, c2) \<Rightarrow> sp_fail m c2
            | (Inr commit_seq, c2) \<Rightarrow>
              (case execute_batch (drv E) (release_sql sp_name) c2 of
                 (Inl e, c3) \<Rightarrow> sp_fail (show_err e) c3
               | (Inr _, c3) \<Rightarrow> (committed req_id commit_seq, c3))))"

text \<open>One turn of the loop over the batch, with the request's position \<open>idx\<close>.\<close>

definition batch_one ::
  "('n, 'c, 'e) env \<Rightarrow> 'c writer \<Rightarrow> nat \<Rightarrow> 'n write_request \<Rightarrow> 'c \<Rightarrow> write_response \<times> 'c" where
  "batch_one E w idx request c =
     (case admit E (w_config w) (w_idempotency w) request c of
        (Answer r, c1) \<Rightarrow> (r, c1)
      | (Proceed record, c1) \<Rightarrow>
          apply_savepoint E (w_track_commits w) request (''sp_'' @ nat_to_string idx) record c1)"

fun batch_loop ::
  "('n, 'c, 'e) env \<Rightarrow> 'c writer \<Rightarrow> nat \<Rightarrow> ('n write_request \<times> slot) list \<Rightarrow> 'c \<Rightarrow>
   (slot \<times> write_response) list \<times> 'c" where
  "batch_loop E w idx [] c = ([], c)"
| "batch_loop E w idx ((request, respond_to) # rest) c =
     (case batch_one E w idx request c of
        (resp, c1) \<Rightarrow>
          (case batch_loop E w (Suc idx) rest c1 of
             (responses, c2) \<Rightarrow> ((respond_to, resp) # responses, c2)))"

text \<open>A failed outer commit turns every \<open>Committed\<close> answer into a failure.\<close>

definition override_committed :: "string \<Rightarrow> write_response \<Rightarrow> write_response" where
  "override_committed err resp =
     (if rs_status resp = Committed then failed (rs_request_id resp) err else resp)"

definition apply_batch ::
  "('n, 'c, 'e) env \<Rightarrow> 'c writer \<Rightarrow> ('n write_request \<times> slot) list \<Rightarrow>
   (slot \<times> write_response) list \<times> 'c writer" where
  "apply_batch E w batch =
     (let show_err = err_to_string (drv E) in
      case begin_immediate (drv E) (w_conn w) of
        (Inl e, c1) \<Rightarrow>
          (map (\<lambda>(req, rt). (rt, failed (rq_request_id req) (show_err e))) batch,
           w\<lparr>w_conn := c1\<rparr>)
      | (Inr _, c1) \<Rightarrow>
        (case batch_loop E w 0 batch c1 of
           (responses, c2) \<Rightarrow>
             (case commit_tx (drv E) c2 of
                (Inr _, c3) \<Rightarrow>
                  (responses,
                   w\<lparr>w_conn := c3,
                     w_latency_buf := push_latency (w_latency_buf w)
                       (elapsed_micros (drv E) (w_conn w) c3)\<rparr>)
              | (Inl e, c3) \<Rightarrow>
                  (map (\<lambda>(rt, resp). (rt, override_committed (show_err e) resp)) responses,
                   w\<lparr>w_conn := c3\<rparr>))))"

section \<open>Every slot is answered, in order\<close>

lemma batch_loop_slots: "map fst (fst (batch_loop E w idx batch c)) = map snd batch"
  by (induction E w idx batch c rule: batch_loop.induct) (auto split: prod.splits)

lemma apply_batch_slots: "map fst (fst (apply_batch E w batch)) = map snd batch"
  using batch_loop_slots [of E w 0 batch]
  by (auto simp: apply_batch_def Let_def comp_def case_prod_unfold split: sum.splits)

lemma apply_inner_frame [frame_simps]:
  "w_config (snd (apply_inner E w request record)) = w_config w"
  "w_track_commits (snd (apply_inner E w request record)) = w_track_commits w"
  "w_idempotency (snd (apply_inner E w request record)) = w_idempotency w"
  by (auto simp: apply_inner_def Let_def split: sum.splits prod.splits)

lemma writer_apply_frame [frame_simps]:
  "w_config (snd (writer_apply E w request)) = w_config w"
  "w_track_commits (snd (writer_apply E w request)) = w_track_commits w"
  "w_idempotency (snd (writer_apply E w request)) = w_idempotency w"
  by (auto simp: writer_apply_def frame_simps split: admission.splits prod.splits)

lemma apply_batch_frame [frame_simps]:
  "w_config (snd (apply_batch E w batch)) = w_config w"
  "w_track_commits (snd (apply_batch E w batch)) = w_track_commits w"
  "w_idempotency (snd (apply_batch E w batch)) = w_idempotency w"
  by (auto simp: apply_batch_def Let_def split: sum.splits prod.splits)

section \<open>A batch is a sequence of single requests\<close>

context gateway_db
begin

lemma apply_savepoint_step:
  assumes "in_tx A c" and "plain_request A request"
    and "apply_savepoint E track request sp record c = (resp, c')"
  shows "tx_step A c c' \<and> (rs_status resp = Failed \<and> view A c' = view A c
      \<or> (\<exists>seq. resp = committed (rq_request_id request) seq
          \<and> tx_effect E A track request record (view A c) seq (view A c')))"
proof -
  obtain b c1 where b: "execute_batch (drv E) (savepoint_sql sp) c = (b, c1)" by fastforce
  show ?thesis
  proof (cases b)
    case (Inl e)
    with b savepoint_err [OF assms(1)] have same: "same_reading A c c1" by blast
    moreover have "resp = failed (rq_request_id request) (err_to_string (drv E) e) \<and> c' = c1"
      using assms(3) b Inl by (simp add: apply_savepoint_def)
    ultimately show ?thesis
      using tx_step_same [OF assms(1)] by (simp add: same_reading_def)
  next
    case (Inr u)
    with b savepoint_ok [OF assms(1)] have c1: "in_tx A c1" "durable A c1 = durable A c"
        "view A c1 = view A c" "savepoints A c1 = (sp, view A c) # savepoints A c"
      by blast+
    obtain r c2 where r: "tx_body E track request record c1 = (r, c2)" by fastforce
    note body = tx_body_step [OF c1(1) assms(2) r]
    have c2: "in_tx A c2" "durable A c2 = durable A c" "savepoints A c2 = (sp, view A c) # savepoints A c"
      using body(1) c1 by (simp_all add: tx_step_def)
    have undo: "tx_step A c x \<and> view A x = view A c"
      if "in_tx A y" "durable A y = durable A c" "savepoints A y = (sp, view A c) # savepoints A c"
        "x = snd (execute_batch (drv E) (rollback_release_sql sp) y)" for x y
      using rollback_to [OF that(1,3)] that(2,4)
      by (cases "execute_batch (drv E) (rollback_release_sql sp) y") (auto simp: tx_step_def)
    show ?thesis
    proof (cases r)
      case (Inl m)
      then show ?thesis using assms(3) b Inr r undo [OF c2]
        by (auto simp: apply_savepoint_def)
    next
      case r_ok: (Inr seq)
      obtain k c3 where k: "execute_batch (drv E) (release_sql sp) c2 = (k, c3)" by fastforce
      show ?thesis
      proof (cases k)
        case (Inl e)
        with k release_err [OF c2(1,3)] have "same_reading A c2 c3" by blast
        then have "in_tx A c3" "durable A c3 = durable A c"
            "savepoints A c3 = (sp, view A c) # savepoints A c"
          using c2 by (simp_all add: same_reading_def)
        then show ?thesis using assms(3) b Inr r r_ok k Inl undo
          by (auto simp: apply_savepoint_def)
      next
        case k_ok: (Inr v)
        with k release_ok [OF c2(1,3)] have "in_tx A c3" "durable A c3 = durable A c2"
            "view A c3 = view A c2" "savepoints A c3 = savepoints A c" by blast+
        then show ?thesis using assms(3) b Inr r r_ok k k_ok c2(2) body(2) [OF r_ok] c1(3)
          by (auto simp: apply_savepoint_def tx_step_def)
      qed
    qed
  qed
qed

lemma batch_one_step:
  assumes "in_tx A c" and "plain_request A request" and "batch_one E w idx request c = (resp, c')"
  shows "tx_step A c c' \<and> serves E A (w_config w) (w_track_commits w) (w_idempotency w)
      (view A c) request resp (view A c')"
proof -
  obtain a c1 where a: "admit E (w_config w) (w_idempotency w) request c = (a, c1)" by fastforce
  show ?thesis
  proof (cases a)
    case (Answer r)
    note ans = admit_Answer [OF a [unfolded Answer]]
    with assms a Answer tx_step_same [OF assms(1) ans(1)] show ?thesis
      by (auto simp: batch_one_def same_reading_def)
  next
    case (Proceed rec)
    note pro = admit_Proceed [OF a [unfolded Proceed]]
    have c1: "in_tx A c1" "view A c1 = view A c"
      using pro(1) assms(1) by (simp_all add: same_reading_def)
    have "apply_savepoint E (w_track_commits w) request (''sp_'' @ nat_to_string idx) rec c1
        = (resp, c')"
      using assms(3) a Proceed by (simp add: batch_one_def)
    note sp = apply_savepoint_step [OF c1(1) assms(2) this]
    show ?thesis
      using sp c1(2) pro(2,3,4) tx_step_trans [OF tx_step_same [OF assms(1) pro(1)]]
      by (auto intro: serves.not_served serves.executed)
  qed
qed

lemma batch_loop_step:
  assumes "in_tx A c" and "\<forall>(request, rt) \<in> set batch. plain_request A request"
    and "batch_loop E w idx batch c = (rs, c')"
  shows "tx_step A c c' \<and> serves_all E A (w_config w) (w_track_commits w) (w_idempotency w)
      (view A c) (zip (map fst batch) (map snd rs)) (view A c')"
  using assms
proof (induction batch arbitrary: idx c rs)
  case Nil
  then show ?case by (auto simp: tx_step_refl)
next
  case (Cons b batch)
  obtain request rt where b: "b = (request, rt)" by fastforce
  obtain resp c1 where one: "batch_one E w idx request c = (resp, c1)" by fastforce
  obtain rs' c2 where rest: "batch_loop E w (Suc idx) batch c1 = (rs', c2)" by fastforce
  have rs: "rs = (rt, resp) # rs'" and c2: "c2 = c'"
    using Cons.prems(3) b one rest by simp_all
  have "plain_request A request" using Cons.prems(2) b by simp
  note step = batch_one_step [OF Cons.prems(1) this one]
  have "in_tx A c1" using step by (simp add: tx_step_def)
  moreover have "\<forall>(request, rt) \<in> set batch. plain_request A request"
    using Cons.prems(2) by simp
  ultimately have "tx_step A c1 c' \<and> serves_all E A (w_config w) (w_track_commits w)
      (w_idempotency w) (view A c1) (zip (map fst batch) (map snd rs')) (view A c')"
    using rest [unfolded c2] by (rule Cons.IH)
  with step show ?case using b rs tx_step_trans by auto
qed

lemma override_all_failed:
  "\<forall>(request, resp) \<in> set (zip xs (map (\<lambda>x. override_committed e (snd x)) rs)).
     rs_status resp = Failed"
proof -
  have "rs_status (override_committed e r) = Failed" for r
    by (cases "rs_status r") (simp_all add: override_committed_def)
  then show ?thesis by (auto dest!: set_zip_rightD)
qed

lemma apply_batch_serves:
  assumes "idle A (w_conn w)" and "\<forall>(request, rt) \<in> set batch. plain_request A request"
    and "apply_batch E w batch = (rs, w')"
  shows "idle A (w_conn w') \<and> serves_all E A (w_config w) (w_track_commits w) (w_idempotency w)
      (durable A (w_conn w)) (zip (map fst batch) (map snd rs)) (durable A (w_conn w'))"
proof -
  obtain b c1 where b: "begin_immediate (drv E) (w_conn w) = (b, c1)" by fastforce
  show ?thesis
  proof (cases b)
    case (Inl e)
    then have c1: "idle A c1" "durable A c1 = durable A (w_conn w)"
      using begin_err [OF assms(1)] b by blast+
    have rs: "rs = map (\<lambda>(req, rt). (rt, failed (rq_request_id req) (err_to_string (drv E) e))) batch"
        and w': "w' = w\<lparr>w_conn := c1\<rparr>"
      using assms(3) b Inl by (simp_all add: apply_batch_def)
    have "\<forall>(request, resp) \<in> set (zip (map fst batch) (map snd rs)). rs_status resp = Failed"
      by (auto simp: rs dest!: set_zip_rightD)
    from serves_all_failed [OF this] c1 w' show ?thesis by simp
  next
    case (Inr u)
    with b have c1: "in_tx A c1" "durable A c1 = durable A (w_conn w)" "view A c1 = durable A (w_conn w)"
      using begin_ok [OF assms(1)] by blast+
    obtain qs c2 where loop: "batch_loop E w 0 batch c1 = (qs, c2)" by fastforce
    note step = batch_loop_step [OF c1(1) assms(2) loop]
    then have c2: "in_tx A c2" "durable A c2 = durable A (w_conn w)"
      using c1(2) by (simp_all add: tx_step_def)
    obtain k c3 where k: "commit_tx (drv E) c2 = (k, c3)" by fastforce
    show ?thesis
    proof (cases k)
      case (Inl e)
      then have c3: "idle A c3" "durable A c3 = durable A (w_conn w)"
        using commit_err [OF c2(1)] k c2(2) by simp_all
      have "map snd rs = map (\<lambda>x. override_committed (err_to_string (drv E) e) (snd x)) qs"
          and w': "w' = w\<lparr>w_conn := c3\<rparr>"
        using assms(3) b Inr loop k Inl by (auto simp: apply_batch_def)
      with serves_all_failed [OF override_all_failed] c3 show ?thesis by simp
    next
      case k_ok: (Inr v)
      then have "idle A c3" "durable A c3 = view A c2"
        using commit_ok [OF c2(1)] k by blast+
      with assms(3) b Inr loop k k_ok step c1(3) show ?thesis by (auto simp: apply_batch_def)
    qed
  qed
qed

end

end
