(* ===== verification/Run_Loop.thy ===== *)
theory Run_Loop
  imports Batch
begin

text \<open>
  The actor loop \<open>Writer::run\<close> of \<open>src/writer.rs\<close> with its greedy batching. The tokio
  channel is outside the repository: \<open>receiver\<close> holds the two calls the loop makes on it,
  over a channel state \<open>'q\<close>. A reply sent on a \<open>oneshot\<close> is an entry of the output list
  (\<open>let _ = respond_to.send(...)\<close> ignores whether the caller still waits).
\<close>

datatype 'n command =
    Write "'n write_request" slot
  | Shutdown
  | Checkpoint slot

datatype 'e reply =
    WriteReply slot write_response
  | CheckpointReply slot "'e error + unit"

text \<open>\<open>None\<close>: all senders are gone (\<open>blocking_recv\<close>), or the queue is empty now (\<open>try_recv\<close>).\<close>

record ('n, 'q) receiver =
  blocking_recv :: "'q \<Rightarrow> 'n command option \<times> 'q"
  try_recv :: "'q \<Rightarrow> 'n command option \<times> 'q"

section \<open>The loop body\<close>

definition single_op :: "'n write_request \<Rightarrow> bool" where
  "single_op request \<longleftrightarrow> length (rq_operations request) = 1"

text \<open>
  \<open>while batch.len() < max_size\<close>: the first argument counts the places left. The result is
  what was added to the batch and the command that ended the drain, if one did.
\<close>

fun drain ::
  "('n, 'q) receiver \<Rightarrow> nat \<Rightarrow> 'q \<Rightarrow> ('n write_request \<times> slot) list \<times> 'n command option \<times> 'q" where
  "drain rx 0 q = ([], None, q)"
| "drain rx (Suc n) q =
     (case try_recv rx q of
        (None, q1) \<Rightarrow> ([], None, q1)
      | (Some (Write r2 rt2), q1) \<Rightarrow>
          (if single_op r2 then
             (case drain rx n q1 of (batch, deferred, q2) \<Rightarrow> ((r2, rt2) # batch, deferred, q2))
           else ([], Some (Write r2 rt2), q1))
      | (Some ctrl, q1) \<Rightarrow> ([], Some ctrl, q1))"

definition apply_and_reply ::
  "('n, 'c, 'e) env \<Rightarrow> 'c writer \<Rightarrow> 'n write_request \<Rightarrow> slot \<Rightarrow> 'e reply list \<times> 'c writer" where
  "apply_and_reply E w request respond_to =
     (case writer_apply E w request of (resp, w1) \<Rightarrow> ([WriteReply respond_to resp], w1))"

definition checkpoint_and_reply ::
  "('n, 'c, 'e) env \<Rightarrow> 'c writer \<Rightarrow> slot \<Rightarrow> 'e reply list \<times> 'c writer" where
  "checkpoint_and_reply E w respond_to =
     (case execute_batch (drv E) checkpoint_sql (w_conn w) of
        (r, c1) \<Rightarrow> ([CheckpointReply respond_to (map_err Sqlite r)], w\<lparr>w_conn := c1\<rparr>))"

text \<open>
  The collected batch: one request skips the batch machinery.
\<close>

definition commit_collected ::
  "('n, 'c, 'e) env \<Rightarrow> 'c writer \<Rightarrow> ('n write_request \<times> slot) list \<Rightarrow> 'e reply list \<times> 'c writer" where
  "commit_collected E w batch =
     (case batch of
        [(req, rt)] \<Rightarrow> apply_and_reply E w req rt
      | _ \<Rightarrow> (case apply_batch E w batch of
                (rs, w1) \<Rightarrow> (map (\<lambda>(rt, resp). WriteReply rt resp) rs, w1)))"

text \<open>One command outside a drain, and the deferred command after one. \<open>True\<close> is \<open>break\<close>.\<close>

fun handle_alone ::
  "('n, 'c, 'e) env \<Rightarrow> 'c writer \<Rightarrow> 'n command \<Rightarrow> bool \<times> 'e reply list \<times> 'c writer" where
  "handle_alone E w (Write request respond_to) = (False, apply_and_reply E w request respond_to)"
| "handle_alone E w Shutdown = (True, [], w)"
| "handle_alone E w (Checkpoint respond_to) = (False, checkpoint_and_reply E w respond_to)"

definition handle_batched ::
  "('n, 'c, 'e) env \<Rightarrow> ('n, 'q) receiver \<Rightarrow> nat \<Rightarrow> 'c writer \<Rightarrow> 'n write_request \<Rightarrow> slot \<Rightarrow> 'q \<Rightarrow>
   bool \<times> 'e reply list \<times> 'c writer \<times> 'q" where
  "handle_batched E rx limit w request respond_to q =
     (case drain rx (limit - 1) q of
        (extra, deferred_cmd, q1) \<Rightarrow>
          (case commit_collected E w ((request, respond_to) # extra) of
             (out1, w1) \<Rightarrow>
               (case deferred_cmd of
                  None \<Rightarrow> (False, out1, w1, q1)
                | Some cmd \<Rightarrow>
                    (case handle_alone E w1 cmd of
                       (stop, out2, w2) \<Rightarrow> (stop, out1 @ out2, w2, q1)))))"

definition run_step ::
  "('n, 'c, 'e) env \<Rightarrow> ('n, 'q) receiver \<Rightarrow> 'c writer \<Rightarrow> 'n command \<Rightarrow> 'q \<Rightarrow>
   bool \<times> 'e reply list \<times> 'c writer \<times> 'q" where
  "run_step E rx w cmd q =
     (case (cmd, cfg_batch (w_config w)) of
        (Write request respond_to, Some b) \<Rightarrow>
          if single_op request
          then handle_batched E rx (max_size b) w request respond_to q
          else (case handle_alone E w cmd of (stop, out, w1) \<Rightarrow> (stop, out, w1, q))
      | _ \<Rightarrow> (case handle_alone E w cmd of (stop, out, w1) \<Rightarrow> (stop, out, w1, q)))"

section \<open>The loop\<close>

definition shutdown_checkpoint :: "('n, 'c, 'e) env \<Rightarrow> 'c writer \<Rightarrow> 'c writer" where
  "shutdown_checkpoint E w = w\<lparr>w_conn := snd (execute_batch (drv E) checkpoint_sql (w_conn w))\<rparr>"

text \<open>\<open>None\<close> is a loop that never ends because the channel never stops delivering.\<close>

partial_function (option) run ::
  "('n, 'c, 'e) env \<Rightarrow> ('n, 'q) receiver \<Rightarrow> 'c writer \<Rightarrow> 'e reply list \<Rightarrow> 'q \<Rightarrow>
   ('e reply list \<times> 'c writer \<times> 'q) option" where
  "run E rx w out q =
     (case blocking_recv rx q of
        (None, q1) \<Rightarrow> Some (out, shutdown_checkpoint E w, q1)
      | (Some cmd, q1) \<Rightarrow>
          (case run_step E rx w cmd q1 of
             (stop, rs, w1, q2) \<Rightarrow>
               if stop then Some (out @ rs, shutdown_checkpoint E w1, q2)
               else run E rx w1 (out @ rs) q2))"

declare run.simps [code]

section \<open>Which replies answer which commands\<close>

text \<open>
  \<open>answers cmds replies log\<close>: the replies answer exactly these commands, each once, in
  order, each on the slot of its command; \<open>log\<close> lists the requests with their responses.
\<close>

inductive answers ::
  "'n command list \<Rightarrow> 'e reply list \<Rightarrow> ('n write_request \<times> write_response) list \<Rightarrow> bool" where
  answers_Nil: "answers [] [] []"
| answers_Write: "answers cs rs l \<Longrightarrow>
    answers (Write r t # cs) (WriteReply t resp # rs) ((r, resp) # l)"
| answers_Checkpoint: "answers cs rs l \<Longrightarrow>
    answers (Checkpoint t # cs) (CheckpointReply t x # rs) l"

inductive_cases answers_Shutdown_elim: "answers (Shutdown # cs) rs l"
inductive_simps answers_Nil_simp [simp]: "answers [] rs l"
inductive_simps answers_Write_simp [simp]: "answers (Write r t # cs) rs l"
inductive_simps answers_Checkpoint_simp [simp]: "answers (Checkpoint t # cs) rs l"

lemma answers_append:
  "answers cs rs l \<Longrightarrow> answers cs' rs' l' \<Longrightarrow> answers (cs @ cs') (rs @ rs') (l @ l')"
  by (induction rule: answers.induct) auto

fun command_slot :: "'n command \<Rightarrow> slot option" where
  "command_slot (Write r t) = Some t"
| "command_slot Shutdown = None"
| "command_slot (Checkpoint t) = Some t"

fun reply_slot :: "'e reply \<Rightarrow> slot" where
  "reply_slot (WriteReply t resp) = t"
| "reply_slot (CheckpointReply t x) = t"

lemma answers_slots: "answers cs rs l \<Longrightarrow> map command_slot cs = map (Some \<circ> reply_slot) rs"
  by (induction rule: answers.induct) auto

definition writes :: "('n write_request \<times> slot) list \<Rightarrow> 'n command list" where
  "writes batch = map (\<lambda>(r, t). Write r t) batch"

lemma answers_batch:
  "map fst rs = map snd batch \<Longrightarrow>
   answers (writes batch) (map (\<lambda>(t, resp). WriteReply t resp) rs) (zip (map fst batch) (map snd rs))"
proof (induction batch arbitrary: rs)
  case Nil
  then show ?case by (simp add: writes_def)
next
  case (Cons b batch)
  then show ?case by (cases b; cases rs) (auto simp: writes_def)
qed

section \<open>The interfaces of the loop\<close>

text \<open>
  What the loop needs of the channel: \<open>pending\<close> lists the commands it will still deliver,
  oldest first. A blocking receive takes the oldest and ends only when none is left; a
  non-blocking one takes the oldest or leaves everything where it is.
\<close>

locale command_channel =
  fixes rx :: "('n, 'q) receiver" and pending :: "'q \<Rightarrow> 'n command list"
  assumes recv_some: "blocking_recv rx q = (Some cmd, q') \<Longrightarrow> pending q = cmd # pending q'"
    and recv_none: "blocking_recv rx q = (None, q') \<Longrightarrow> pending q = [] \<and> pending q' = []"
    and try_some: "try_recv rx q = (Some cmd, q') \<Longrightarrow> pending q = cmd # pending q'"
    and try_none: "try_recv rx q = (None, q') \<Longrightarrow> pending q' = pending q"
begin

fun deferred_list :: "'n command option \<Rightarrow> 'n command list" where
  "deferred_list None = []"
| "deferred_list (Some c) = [c]"

lemma drain_pending:
  "drain rx n q = (batch, d, q') \<Longrightarrow>
     pending q = writes batch @ deferred_list d @ pending q' \<and> length batch \<le> n
     \<and> (\<forall>(r, t) \<in> set batch. single_op r)"
proof (induction n arbitrary: q batch)
  case 0
  then show ?case by (simp add: writes_def)
next
  case (Suc n)
  obtain r q1 where r: "try_recv rx q = (r, q1)" by fastforce
  show ?case
  proof (cases r)
    case None
    with Suc.prems r show ?thesis by (auto simp: writes_def dest: try_none)
  next
    case (Some cmd)
    with r have pend: "pending q = cmd # pending q1" by (simp add: try_some)
    show ?thesis
    proof (cases "\<exists>r2 t2. cmd = Write r2 t2 \<and> single_op r2")
      case True
      then obtain r2 t2 where cmd: "cmd = Write r2 t2" "single_op r2" by blast
      obtain b d' q2 where rest: "drain rx n q1 = (b, d', q2)" by (metis prod_cases3)
      with Suc.prems r Some cmd have *: "batch = (r2, t2) # b" "d' = d" "q2 = q'" by auto
      with Suc.IH [OF rest [unfolded *]] pend cmd show ?thesis by (simp add: writes_def)
    next
      case False
      with Suc.prems r Some have "batch = [] \<and> d = Some cmd \<and> q' = q1"
        by (cases cmd) auto
      with pend show ?thesis by (simp add: writes_def)
    qed
  qed
qed

end

text \<open>
  What the loop needs of the writer's operations: a relation \<open>R w log w'\<close> between the
  state before, the requests answered with their responses, and the state after.
\<close>

locale writer_contract =
  fixes E :: "('n, 'c, 'e) env" and admissible :: "'n write_request \<Rightarrow> bool"
    and R :: "'c writer \<Rightarrow> ('n write_request \<times> write_response) list \<Rightarrow> 'c writer \<Rightarrow> bool"
  assumes R_nil: "R w [] w"
    and R_append: "R w l w1 \<Longrightarrow> R w1 l' w2 \<Longrightarrow> R w (l @ l') w2"
    and apply_R: "admissible r \<Longrightarrow> writer_apply E w r = (resp, w') \<Longrightarrow> R w [(r, resp)] w'"
    and batch_R: "batch \<noteq> [] \<Longrightarrow> \<forall>(r, t) \<in> set batch. admissible r \<Longrightarrow> apply_batch E w batch = (rs, w') \<Longrightarrow>
      R w (zip (map fst batch) (map snd rs)) w'"
    and checkpoint_R: "execute_batch (drv E) checkpoint_sql (w_conn w) = (x, c') \<Longrightarrow>
      R w [] (w\<lparr>w_conn := c'\<rparr>)"

fun admissible_command :: "('n write_request \<Rightarrow> bool) \<Rightarrow> 'n command \<Rightarrow> bool" where
  "admissible_command admissible (Write r t) = admissible r"
| "admissible_command admissible _ = True"

locale actor_loop = writer_contract E admissible R + command_channel rx pending
  for E :: "('n, 'c, 'e) env" and admissible R and rx :: "('n, 'q) receiver" and pending
begin

lemma handle_alone_answers:
  assumes "handle_alone E w cmd = (stop, rs, w')" and "admissible_command admissible cmd"
  shows "stop = (cmd = Shutdown)"
    and "\<exists>l. answers (if stop then [] else [cmd]) rs l \<and> R w l w'"
  using assms
  by (cases cmd; auto simp: apply_and_reply_def checkpoint_and_reply_def R_nil
      split: prod.splits intro: apply_R checkpoint_R)+

lemma commit_collected_answers:
  assumes "commit_collected E w batch = (rs, w')" and "\<forall>(r, t) \<in> set batch. admissible r"
    and "batch \<noteq> []"
  shows "\<exists>l. answers (writes batch) rs l \<and> R w l w'"
proof (cases "\<exists>r t. batch = [(r, t)]")
  case True
  then obtain r t where b: "batch = [(r, t)]" by blast
  with assms have "apply_and_reply E w r t = (rs, w')" and "admissible r"
    by (simp_all add: commit_collected_def)
  with b show ?thesis
    by (auto simp: apply_and_reply_def writes_def split: prod.splits intro: apply_R)
next
  case False
  then have eq: "commit_collected E w batch =
      (case apply_batch E w batch of (rs, w1) \<Rightarrow> (map (\<lambda>(rt, resp). WriteReply rt resp) rs, w1))"
    by (auto simp: commit_collected_def split: list.splits)
  obtain qs w1 where qs: "apply_batch E w batch = (qs, w1)" by fastforce
  have "map fst qs = map snd batch" using apply_batch_slots [of E w batch] qs by simp
  from answers_batch [OF this] batch_R [OF assms(3,2) qs] eq qs assms(1) show ?thesis by auto
qed

text \<open>One turn of the loop answers a prefix of what is pending and nothing else.\<close>

lemma run_step_answers:
  assumes step: "run_step E rx w cmd q = (stop, rs, w', q')"
    and adm: "\<forall>c \<in> set (cmd # pending q). admissible_command admissible c"
  shows "\<exists>cs l. cmd # pending q = cs @ (if stop then [Shutdown] else []) @ pending q'
    \<and> (\<not> stop \<longrightarrow> cs \<noteq> []) \<and> Shutdown \<notin> set cs \<and> answers cs rs l \<and> R w l w'"
proof (cases "\<exists>r t b. cmd = Write r t \<and> cfg_batch (w_config w) = Some b \<and> single_op r")
  case False
  then have "run_step E rx w cmd q =
      (case handle_alone E w cmd of (stop, out, w1) \<Rightarrow> (stop, out, w1, q))"
    by (auto simp: run_step_def split: command.split option.split)
  with step have alone: "handle_alone E w cmd = (stop, rs, w')" and q': "q' = q"
    by (auto split: prod.splits)
  have "admissible_command admissible cmd" using adm by simp
  note this_answers = handle_alone_answers [OF alone this]
  from this_answers(2) obtain l where l: "answers (if stop then [] else [cmd]) rs l" "R w l w'"
    by blast
  show ?thesis
    by (rule exI [of _ "if stop then [] else [cmd]"], rule exI [of _ l])
      (use l this_answers(1) q' in auto)
next
  case True
  then obtain r t b where cmd: "cmd = Write r t" "cfg_batch (w_config w) = Some b" "single_op r"
    by blast
  obtain extra d q1 where dr: "drain rx (max_size b - 1) q = (extra, d, q1)" by (metis prod_cases3)
  let ?batch = "(r, t) # extra"
  obtain out1 w1 where c: "commit_collected E w ?batch = (out1, w1)" by fastforce
  have pend: "cmd # pending q = writes ?batch @ deferred_list d @ pending q1"
    using drain_pending [OF dr] cmd(1) by (simp add: writes_def)
  have "admissible x" if "(x, y) \<in> set ?batch" for x y
  proof -
    have "Write x y \<in> set (writes ?batch)" using that by (force simp: writes_def)
    then have "Write x y \<in> set (cmd # pending q)" using pend by simp
    with adm have "admissible_command admissible (Write x y)" by (rule bspec)
    then show ?thesis by simp
  qed
  then have "\<forall>(x, y) \<in> set ?batch. admissible x" by blast
  from commit_collected_answers [OF c this list.distinct(2)]
  obtain l1 where l1: "answers (writes ?batch) out1 l1" "R w l1 w1" by blast
  have no_stop: "Shutdown \<notin> set (writes ?batch)" by (auto simp: writes_def)
  have eq: "run_step E rx w cmd q = handle_batched E rx (max_size b) w r t q"
    using cmd by (simp add: run_step_def)
  show ?thesis
  proof (cases d)
    case None
    with step eq dr c have "stop = False" "rs = out1" "w' = w1" "q' = q1"
      by (simp_all add: handle_batched_def)
    with pend None l1 no_stop show ?thesis
      by (intro exI [of _ "writes ?batch"] exI [of _ l1]) (simp add: writes_def)
  next
    case (Some cmd')
    obtain st out2 w2 where alone: "handle_alone E w1 cmd' = (st, out2, w2)" by (metis prod_cases3)
    with step eq dr c Some have res: "stop = st" "rs = out1 @ out2" "w' = w2" "q' = q1"
      by (simp_all add: handle_batched_def)
    have "cmd' \<in> set (cmd # pending q)" using pend Some by simp
    with adm have "admissible_command admissible cmd'" by blast
    note rest = handle_alone_answers [OF alone this]
    from rest(2) obtain l2 where l2: "answers (if st then [] else [cmd']) out2 l2" "R w1 l2 w2"
      by blast
    show ?thesis
      by (rule exI [of _ "writes ?batch @ (if st then [] else [cmd'])"], rule exI [of _ "l1 @ l2"])
        (use pend Some res rest(1) no_stop l2 l1 answers_append [OF l1(1) l2(1)]
          R_append [OF l1(2) l2(2)] in \<open>auto simp: writes_def\<close>)
  qed
qed

text \<open>
  The loop ends, and its replies answer exactly the commands queued before the first
  \<open>Shutdown\<close>.
\<close>

lemma run_answers:
  assumes "\<forall>c \<in> set (pending q). admissible_command admissible c"
  shows "\<exists>rs w1 q' l. run E rx w out q = Some (out @ rs, shutdown_checkpoint E w1, q')
    \<and> answers (takeWhile (\<lambda>c. c \<noteq> Shutdown) (pending q)) rs l \<and> R w l w1"
  using assms
proof (induction "length (pending q)" arbitrary: w out q rule: less_induct)
  case less
  obtain r q1 where r: "blocking_recv rx q = (r, q1)" by fastforce
  show ?case
  proof (cases r)
    case None
    with r have "pending q = []" by (simp add: recv_none)
    moreover have "run E rx w out q = Some (out @ [], shutdown_checkpoint E w, q1)"
      using r None by (simp add: run.simps)
    ultimately show ?thesis using R_nil by fastforce
  next
    case (Some cmd)
    with r have pend: "pending q = cmd # pending q1" by (simp add: recv_some)
    obtain stop rs w1 q2 where step: "run_step E rx w cmd q1 = (stop, rs, w1, q2)"
      by (metis prod_cases4)
    from run_step_answers [OF step] less.prems pend obtain cs l where
      cs: "pending q = cs @ (if stop then [Shutdown] else []) @ pending q2"
        "\<not> stop \<longrightarrow> cs \<noteq> []" "Shutdown \<notin> set cs" "answers cs rs l" "R w l w1"
      by metis
    have tw: "takeWhile (\<lambda>c. c \<noteq> Shutdown) (cs @ x) = cs @ takeWhile (\<lambda>c. c \<noteq> Shutdown) x" for x
      using cs(3) by (intro takeWhile_append2) auto
    have unf: "run E rx w out q = (if stop then Some (out @ rs, shutdown_checkpoint E w1, q2)
        else run E rx w1 (out @ rs) q2)"
      using r Some step by (subst run.simps) simp
    show ?thesis
    proof (cases stop)
      case True
      then have "takeWhile (\<lambda>c. c \<noteq> Shutdown) (pending q) = cs" using cs(1) tw by simp
      with unf True cs(4,5) show ?thesis by auto
    next
      case False
      then have "length (pending q2) < length (pending q)" using cs(1,2) by simp
      moreover have "\<forall>c \<in> set (pending q2). admissible_command admissible c" using less.prems cs(1) by auto
      ultimately obtain rs' w2 q' l' where
        "run E rx w1 (out @ rs) q2 = Some ((out @ rs) @ rs', shutdown_checkpoint E w2, q')"
        "answers (takeWhile (\<lambda>c. c \<noteq> Shutdown) (pending q2)) rs' l'" "R w1 l' w2"
        using less.hyps by blast
      then have "run E rx w out q = Some (out @ (rs @ rs'), shutdown_checkpoint E w2, q')
          \<and> answers (takeWhile (\<lambda>c. c \<noteq> Shutdown) (pending q)) (rs @ rs') (l @ l') \<and> R w (l @ l') w2"
        using unf False cs(1,4,5) tw by (simp add: answers_append R_append)
      then show ?thesis by blast
    qed
  qed
qed

end

end
