(* ===== verification/Actor.thy ===== *)
theory Actor
  imports Run_Loop
begin

text \<open>
  The two contracts of the writer's operations under which the loop is instantiated. One
  holds for every driver: the settings never change and the latency buffer stays bounded.
  The other is the service contract on a database that obeys the SQLite laws.
\<close>

section \<open>Settings and latency buffer\<close>

definition same_settings :: "'c writer \<Rightarrow> 'c writer \<Rightarrow> bool" where
  "same_settings w w' \<longleftrightarrow>
     w_config w' = w_config w \<and> w_track_commits w' = w_track_commits w
     \<and> w_idempotency w' = w_idempotency w"

definition buffer_grows :: "latency_buffer \<Rightarrow> nat \<Rightarrow> latency_buffer \<Rightarrow> bool" where
  "buffer_grows b n b' \<longleftrightarrow> (\<exists>xs. length xs \<le> n \<and> b' = foldl push_latency b xs)"

lemma buffer_grows_refl [intro]: "buffer_grows b n b"
  unfolding buffer_grows_def by (rule exI [of _ "[]"]) simp

lemma buffer_grows_push: "0 < n \<Longrightarrow> buffer_grows b n (push_latency b x)"
  unfolding buffer_grows_def by (rule exI [of _ "[x]"]) simp

lemma buffer_grows_trans:
  "buffer_grows b m b1 \<Longrightarrow> buffer_grows b1 n b2 \<Longrightarrow> buffer_grows b (m + n) b2"
  unfolding buffer_grows_def by (metis foldl_append length_append add_mono)

text \<open>Every answered request pushes at most one latency; a batch pushes one for all.\<close>

definition maintains :: "'c writer \<Rightarrow> ('n write_request \<times> write_response) list \<Rightarrow> 'c writer \<Rightarrow> bool" where
  "maintains w l w' \<longleftrightarrow>
     same_settings w w' \<and> buffer_grows (w_latency_buf w) (length l) (w_latency_buf w')"

lemma apply_maintains:
  assumes "writer_apply E w r = (resp, w')"
  shows "maintains w [(r, resp)] w'"
proof -
  have "same_settings w (snd (writer_apply E w r))"
    by (simp add: same_settings_def frame_simps)
  moreover have "buffer_grows (w_latency_buf w) 1 (w_latency_buf (snd (writer_apply E w r)))"
    by (auto simp: writer_apply_def apply_inner_def Let_def buffer_grows_push
        split: admission.splits prod.splits sum.splits)
  ultimately show ?thesis using assms by (simp add: maintains_def)
qed

lemma apply_batch_nil_or_grows:
  "batch \<noteq> [] \<Longrightarrow>
     buffer_grows (w_latency_buf w) (length batch) (w_latency_buf (snd (apply_batch E w batch)))"
  by (auto simp: apply_batch_def Let_def buffer_grows_push split: prod.splits sum.splits)

lemma batch_maintains:
  assumes "batch \<noteq> []" and "apply_batch E w batch = (rs, w')"
  shows "maintains w (zip (map fst batch) (map snd rs)) w'"
proof -
  have "map fst rs = map snd batch" using apply_batch_slots [of E w batch] assms(2) by simp
  then have "length rs = length batch" by (metis length_map)
  moreover have "same_settings w (snd (apply_batch E w batch))"
    by (simp add: same_settings_def frame_simps)
  ultimately show ?thesis
    using assms apply_batch_nil_or_grows [OF assms(1), of w E] by (simp add: maintains_def)
qed

interpretation upkeep: writer_contract E "\<lambda>_. True" maintains for E :: "('n, 'c, 'e) env"
proof (unfold_locales, goal_cases)
  case (2 w l w1 l' w2)
  then show ?case by (auto simp: maintains_def same_settings_def intro: buffer_grows_trans)
next
  case (3 r w resp w')
  then show ?case by (simp add: apply_maintains)
next
  case (4 batch w rs w')
  then show ?case by (simp add: batch_maintains)
qed (auto simp: maintains_def same_settings_def)

section \<open>Service\<close>

definition serviced ::
  "('n, 'c, 'e) env \<Rightarrow> ('c, 'd) reading \<Rightarrow> 'c writer \<Rightarrow> ('n write_request \<times> write_response) list \<Rightarrow>
   'c writer \<Rightarrow> bool" where
  "serviced E A w l w' \<longleftrightarrow> same_settings w w' \<and>
     (idle A (w_conn w) \<longrightarrow> idle A (w_conn w')
        \<and> serves_all E A (w_config w) (w_track_commits w) (w_idempotency w)
            (durable A (w_conn w)) l (durable A (w_conn w')))"

context gateway_db
begin

lemma apply_serviced:
  assumes "plain_request A r" and "writer_apply E w r = (resp, w')"
  shows "serviced E A w [(r, resp)] w'"
proof -
  have "same_settings w (snd (writer_apply E w r))"
    by (simp add: same_settings_def frame_simps)
  with assms writer_apply_serves show ?thesis by (auto simp: serviced_def)
qed

lemma batch_serviced:
  assumes "\<forall>(r, t) \<in> set batch. plain_request A r" and "apply_batch E w batch = (rs, w')"
  shows "serviced E A w (zip (map fst batch) (map snd rs)) w'"
proof -
  have "same_settings w (snd (apply_batch E w batch))"
    by (simp add: same_settings_def frame_simps)
  with assms apply_batch_serves show ?thesis by (auto simp: serviced_def)
qed

lemma checkpoint_serviced:
  assumes "execute_batch (drv E) checkpoint_sql (w_conn w) = (x, c')"
  shows "serviced E A w [] (w\<lparr>w_conn := c'\<rparr>)"
  using assms checkpoint_same by (auto simp: serviced_def same_settings_def)

end

sublocale gateway_db \<subseteq> service: writer_contract E "plain_request A" "serviced E A"
proof (unfold_locales, goal_cases)
  case (2 w l w1 l' w2)
  then show ?case by (auto simp: serviced_def same_settings_def serves_all_append)
next
  case (3 r w resp w')
  then show ?case by (simp add: apply_serviced)
next
  case (4 batch w rs w')
  then show ?case by (simp add: batch_serviced)
next
  case (5 w x c')
  then show ?case by (simp add: checkpoint_serviced)
qed (simp add: serviced_def same_settings_def)

text \<open>The loop over a channel on such a database.\<close>

locale gateway_loop = gateway_db E A + command_channel rx pending
  for E :: "('n, 'c, 'e) env" and A :: "('c, 'd) reading"
    and rx :: "('n, 'q) receiver" and pending

sublocale gateway_loop \<subseteq> loop: actor_loop E "plain_request A" "serviced E A" rx pending
  by unfold_locales

context gateway_loop
begin

lemma run_serves:
  assumes "idle A (w_conn w)"
    and "\<forall>request t. Write request t \<in> set (pending q) \<longrightarrow> plain_request A request"
  shows "\<exists>rs w' q' l. run E rx w out q = Some (out @ rs, w', q')
    \<and> answers (takeWhile (\<lambda>c. c \<noteq> Shutdown) (pending q)) rs l \<and> idle A (w_conn w')
    \<and> serves_all E A (w_config w) (w_track_commits w) (w_idempotency w)
        (durable A (w_conn w)) l (durable A (w_conn w'))"
proof -
  have "admissible_command (plain_request A) c" if "c \<in> set (pending q)" for c
    using that assms(2) by (cases c rule: command.exhaust) auto
  then obtain rs w1 q' l where r: "run E rx w out q = Some (out @ rs, shutdown_checkpoint E w1, q')"
      "answers (takeWhile (\<lambda>c. c \<noteq> Shutdown) (pending q)) rs l" "serviced E A w l w1"
    using loop.run_answers [of q w out] by blast
  have "idle A (w_conn (shutdown_checkpoint E w1))
      \<and> durable A (w_conn (shutdown_checkpoint E w1)) = durable A (w_conn w1)"
    using r(3) assms(1) checkpoint_same [of "w_conn w1"]
    by (cases "execute_batch (drv E) checkpoint_sql (w_conn w1)")
      (simp add: shutdown_checkpoint_def serviced_def)
  with r assms(1) show ?thesis by (fastforce simp: serviced_def)
qed

end

section \<open>The loop on any driver\<close>

text \<open>The upkeep contract with a channel: no SQLite law is needed.\<close>

locale upkeep_loop = command_channel rx pending
  for rx :: "('n, 'q) receiver" and pending

sublocale upkeep_loop \<subseteq> turns: actor_loop E "\<lambda>_. True" maintains rx pending
  for E :: "('n, 'c, 'e) env"
  by unfold_locales

context upkeep_loop
begin

lemma run_total:
  fixes E :: "('n, 'c, 'e) env"
  shows "\<exists>rs w' q' l. run E rx w out q = Some (out @ rs, w', q')
    \<and> answers (takeWhile (\<lambda>c. c \<noteq> Shutdown) (pending q)) rs l
    \<and> same_settings w w' \<and> buffer_grows (w_latency_buf w) (length l) (w_latency_buf w')"
proof -
  have "admissible_command (\<lambda>_. True) c" for c :: "'n command"
    by (cases c) auto
  then show ?thesis
    using turns.run_answers [of q E w out]
    by (fastforce simp: maintains_def same_settings_def shutdown_checkpoint_def)
qed

end

end
