(* ===== verification/Writer_Live.thy ===== *)
theory Writer_Live
  imports Batch
begin

text \<open>
  The contract \<open>serves\<close> allows a request to fail at any time, because every driver call may.
  This theory adds the other direction: on a database whose calls succeed whenever the
  statement is meaningful, a request that can be carried out is carried out, and a known
  idempotency key is answered from the table.
\<close>

section \<open>The reference semantics of a request\<close>

text \<open>\<open>None\<close> where a step is impossible: bad parameter, failing statement.\<close>

definition spec_commit ::
  "('c, 'd) reading \<Rightarrow> bool \<Rightarrow> 'n write_request \<Rightarrow> 'd \<Rightarrow> (i64 option \<times> 'd) option" where
  "spec_commit A track request d =
     (if track
      then map_option (\<lambda>d'. (Some (word_of_int (max_seq A d')), d'))
             (effect A commit_insert_sql (commit_params request) d)
      else Some (None, d))"

definition spec_tx ::
  "('n, 'c, 'e) env \<Rightarrow> ('c, 'd) reading \<Rightarrow> bool \<Rightarrow> 'n write_request \<Rightarrow> (string \<times> string) option \<Rightarrow>
   'd \<Rightarrow> (i64 option \<times> 'd) option" where
  "spec_tx E A track request record d =
     (case ops_effect E A (rq_operations request) d of
        None \<Rightarrow> None
      | Some d1 \<Rightarrow>
        (case spec_commit A track request d1 of
           None \<Rightarrow> None
         | Some (seq, d2) \<Rightarrow>
           (case record of
              None \<Rightarrow> Some (seq, d2)
            | Some (key, hash) \<Rightarrow> map_option (Pair seq) (effect A idem_insert_sql
                (idem_params (serde E) (rq_request_id request) seq key hash) d2))))"

text \<open>A response up to the text of a failure.\<close>

definition outcome :: "write_response \<Rightarrow> write_response option" where
  "outcome r = (if rs_status r = Failed then None else Some r)"

lemma outcome_simps [simp]:
  "outcome (failed i e) = None" "outcome (committed i s) = Some (committed i s)"
  by (simp_all add: outcome_def)

definition spec_execute ::
  "('n, 'c, 'e) env \<Rightarrow> ('c, 'd) reading \<Rightarrow> bool \<Rightarrow> 'n write_request \<Rightarrow> (string \<times> string) option \<Rightarrow>
   'd \<Rightarrow> write_response option \<times> 'd" where
  "spec_execute E A track request record d =
     (case spec_tx E A track request record d of
        None \<Rightarrow> (None, d)
      | Some (seq, d') \<Rightarrow> (Some (committed (rq_request_id request) seq), d'))"

definition spec_serve ::
  "('n, 'c, 'e) env \<Rightarrow> ('c, 'd) reading \<Rightarrow> gateway_config \<Rightarrow> bool \<Rightarrow> bool \<Rightarrow>
   'n write_request \<Rightarrow> 'd \<Rightarrow> write_response option \<times> 'd" where
  "spec_serve E A config track idempotency request d =
     (if \<not> list_all (\<lambda>op. guard_accepts config (keyword (sql op))) (rq_operations request)
      then (None, d)
      else case (if idempotency then rq_idempotency_key request else None) of
        None \<Rightarrow> spec_execute E A track request None d
      | Some key \<Rightarrow>
        (case to_text (serde E) (operations_to_value (rq_operations request)) of
           Inl _ \<Rightarrow> (None, d)
         | Inr hash \<Rightarrow>
           (case stored A d key of
              Some (h, j) \<Rightarrow>
                (if h = hash
                 then outcome (stored_response (serde E) (rq_request_id request) j) else None, d)
            | None \<Rightarrow> spec_execute E A track request (Some (key, hash)) d)))"

fun spec_serve_all ::
  "('n, 'c, 'e) env \<Rightarrow> ('c, 'd) reading \<Rightarrow> gateway_config \<Rightarrow> bool \<Rightarrow> bool \<Rightarrow>
   'n write_request list \<Rightarrow> 'd \<Rightarrow> write_response option list \<times> 'd" where
  "spec_serve_all E A config track idempotency [] d = ([], d)"
| "spec_serve_all E A config track idempotency (r # rs) d =
     (case spec_serve E A config track idempotency r d of
        (x, d1) \<Rightarrow> (case spec_serve_all E A config track idempotency rs d1 of
           (xs, d2) \<Rightarrow> (x # xs, d2)))"

lemma tx_effect_spec_tx:
  assumes "tx_effect E A track request record d seq d'"
  shows "spec_tx E A track request record d = Some (seq, d')"
proof -
  have "spec_commit A track request d1 = Some (seq, d2)"
    if "commit_effect A track request d1 seq d2" for d1 d2
    using that by (auto simp: commit_effect_def spec_commit_def split: if_splits)
      (metis word_of_int_sint)
  with assms show ?thesis
    by (auto simp: tx_effect_def spec_tx_def idem_effect_def split: option.splits)
qed

section \<open>A healthy connection\<close>

text \<open>
  \<open>healthy\<close> holds of a connection with no lock held by another process and no I/O error: a
  call fails only for a reason that lies in the statement and the data.
\<close>

locale live_db = gateway_db E A
  for E :: "('n, 'c, 'e) env" and A :: "('c, 'd) reading" +
  fixes healthy :: "'c \<Rightarrow> bool"
  assumes begin_live: "idle A c \<Longrightarrow> healthy c \<Longrightarrow> begin_immediate (drv E) c = (r, c') \<Longrightarrow>
      r = Inr () \<and> healthy c'"
    and commit_live: "in_tx A c \<Longrightarrow> healthy c \<Longrightarrow> commit_tx (drv E) c = (r, c') \<Longrightarrow>
      r = Inr () \<and> healthy c'"
    and drop_live: "in_tx A c \<Longrightarrow> healthy c \<Longrightarrow> healthy (drop_tx (drv E) c)"
    and prepare_keeps: "healthy c \<Longrightarrow> prepare_cached (drv E) s c = (r, c') \<Longrightarrow> healthy c'"
    and prepare_live: "healthy c \<Longrightarrow> prepare_cached (drv E) s c = (r, c') \<Longrightarrow>
      effect A s ps (view A c) = Some d \<or> s = idem_select_sql \<Longrightarrow> r = Inr ()"
    and execute_keeps: "in_tx A c \<Longrightarrow> healthy c \<Longrightarrow> plain A s \<or> internal_sql s \<Longrightarrow>
      stmt_execute (drv E) s ps c = (q, c') \<Longrightarrow> healthy c'"
    and execute_live: "in_tx A c \<Longrightarrow> healthy c \<Longrightarrow> stmt_execute (drv E) s ps c = (q, c') \<Longrightarrow>
      effect A s ps (view A c) = Some d \<Longrightarrow> \<exists>n. q = Inr n"
    and savepoint_live: "in_tx A c \<Longrightarrow> healthy c \<Longrightarrow>
      execute_batch (drv E) (savepoint_sql sp) c = (r, c') \<Longrightarrow> r = Inr () \<and> healthy c'"
    and release_live: "in_tx A c \<Longrightarrow> healthy c \<Longrightarrow> savepoints A c = (sp, d) # rest \<Longrightarrow>
      execute_batch (drv E) (release_sql sp) c = (r, c') \<Longrightarrow> r = Inr () \<and> healthy c'"
    and rollback_live: "in_tx A c \<Longrightarrow> healthy c \<Longrightarrow> savepoints A c = (sp, d) # rest \<Longrightarrow>
      execute_batch (drv E) (rollback_release_sql sp) c = (r, c') \<Longrightarrow> healthy c'"
    and query_live: "healthy c \<Longrightarrow> query_row (drv E) idem_select_sql [Text k] c = (row_res, c') \<Longrightarrow>
      healthy c' \<and> (case row_res of Inl e \<Rightarrow> is_no_rows (drv E) e
        | Inr row \<Rightarrow> (\<exists>h j. get_string (drv E) row 0 = Inr h \<and> get_opt_string (drv E) row 1 = Inr j))"
begin

lemma exec_fixed_keeps:
  assumes "in_tx A c" and "healthy c" and "plain A s \<or> internal_sql s"
    and "exec_fixed (drv E) s ps c = (r, c')"
  shows "healthy c'"
proof -
  obtain p c1 where p: "prepare_cached (drv E) s c = (p, c1)" by fastforce
  have "healthy c1" "in_tx A c1"
    using prepare_keeps [OF assms(2) p] prepare_same [OF p] assms(1) by (simp_all add: same_reading_def)
  then show ?thesis
    using assms(4) p execute_keeps [OF _ _ assms(3)]
    by (auto simp: exec_fixed_def split: sum.splits prod.splits)
qed

lemma exec_fixed_live:
  assumes "in_tx A c" and "healthy c" and "effect A s ps (view A c) = Some d"
    and "plain A s \<or> internal_sql s"
  shows "\<exists>c'. exec_fixed (drv E) s ps c = (Inr (), c') \<and> healthy c' \<and> in_tx A c' \<and> view A c' = d"
proof -
  obtain p c1 where p: "prepare_cached (drv E) s c = (p, c1)" by fastforce
  have c1: "in_tx A c1" "view A c1 = view A c" "healthy c1" "p = Inr ()"
    using prepare_same [OF p] assms(1) prepare_keeps [OF assms(2) p] prepare_live [OF assms(2) p]
      assms(3) by (auto simp: same_reading_def)
  obtain q c2 where q: "stmt_execute (drv E) s ps c1 = (q, c2)" by fastforce
  obtain n where "q = Inr n"
    using execute_live [OF c1(1,3) q] assms(3) c1(2) by auto
  then have ex: "exec_fixed (drv E) s ps c = (Inr (), c2)" using p q c1(4) by (simp add: exec_fixed_def)
  show ?thesis
    using ex exec_fixed_step [OF assms(1,4) ex] assms(3) exec_fixed_keeps [OF assms(1,2,4) ex]
    by (auto simp: tx_step_def)
qed

lemma exec_ops_keeps:
  assumes "in_tx A c" and "healthy c" and "\<forall>op \<in> set ops. plain A (sql op)"
    and "exec_ops E ops c = (r, c')"
  shows "healthy c'"
  using assms
proof (induction ops arbitrary: c)
  case Nil
  then show ?case by simp
next
  case (Cons op ops)
  show ?case
  proof (cases "params_from (serde E) (b64 E) (params op) :: 'e error + sql_value list")
    case (Inl e)
    with Cons.prems show ?thesis by simp
  next
    case (Inr ps)
    obtain q c1 where q: "exec_fixed (drv E) (sql op) ps c = (q, c1)" by fastforce
    have pl: "plain A (sql op) \<or> internal_sql (sql op)" using Cons.prems(3) by simp
    have c1: "healthy c1" "in_tx A c1"
      using exec_fixed_keeps [OF Cons.prems(1,2) pl q] exec_fixed_step(1) [OF Cons.prems(1) pl q]
      by (simp_all add: tx_step_def)
    have "exec_ops E (op # ops) c = (case q of Inl m \<Rightarrow> (Inl m, c1) | Inr _ \<Rightarrow> exec_ops E ops c1)"
      using q Inr by (auto simp: exec_fixed_def split: sum.splits prod.splits)
    then show ?thesis using c1 Cons.IH [OF c1(2,1)] Cons.prems by (cases q) auto
  qed
qed

lemma tx_body_keeps:
  assumes "in_tx A c" and "healthy c" and "plain_request A request"
    and "tx_body E track request record c = (r, c')"
  shows "healthy c'"
proof -
  obtain r1 c1 where 1: "exec_ops E (rq_operations request) c = (r1, c1)" by fastforce
  have pl: "\<forall>op \<in> set (rq_operations request). plain A (sql op)"
    using assms(3) by (simp add: plain_request_def)
  have c1: "healthy c1" "in_tx A c1"
    using exec_ops_keeps [OF assms(1,2) pl 1] exec_ops_step [OF assms(1) pl 1]
    by (simp_all add: tx_step_def)
  obtain r2 c2 where 2: "record_commit E track request c1 = (r2, c2)" by fastforce
  have "healthy c2"
    using 2 c1 exec_fixed_keeps [OF c1(2,1), of commit_insert_sql]
    by (auto simp: record_commit_def internal_sql_def split: if_splits prod.splits sum.splits)
  moreover have "in_tx A c2" using record_commit_step(1) [OF c1(2) 2] by (simp add: tx_step_def)
  ultimately have "healthy c3" if "record_idempotency E (rq_request_id request) s record c2 = (r3, c3)"
    for s r3 c3
    using that exec_fixed_keeps [of c2 idem_insert_sql]
    by (auto simp: record_idempotency_def internal_sql_def split: option.splits)
  then show ?thesis
    using assms(4) 1 2 c1(1) \<open>healthy c2\<close>
    by (auto simp: tx_body_def split: sum.splits prod.splits)
qed

lemma exec_ops_live:
  assumes "in_tx A c" and "healthy c" and "\<forall>op \<in> set ops. plain A (sql op)"
    and "ops_effect E A ops (view A c) = Some d"
  shows "\<exists>c'. exec_ops E ops c = (Inr (), c') \<and> healthy c' \<and> in_tx A c' \<and> view A c' = d"
  using assms
proof (induction ops arbitrary: c)
  case Nil
  then show ?case by simp
next
  case (Cons op ops)
  then obtain ps d1 where ps: "(params_from (serde E) (b64 E) (params op) :: 'e error + sql_value list) = Inr ps"
    and d1: "effect A (sql op) ps (view A c) = Some d1" and rest: "ops_effect E A ops d1 = Some d"
    by (auto split: sum.splits simp: bind_eq_Some_conv)
  obtain c1 where c1: "exec_fixed (drv E) (sql op) ps c = (Inr (), c1)" "healthy c1" "in_tx A c1" "view A c1 = d1"
    using exec_fixed_live [OF Cons.prems(1,2) d1] Cons.prems(3) by auto
  have "exec_ops E (op # ops) c = exec_ops E ops c1"
    using c1(1) ps by (auto simp: exec_fixed_def split: sum.splits prod.splits)
  moreover have "\<exists>c'. exec_ops E ops c1 = (Inr (), c') \<and> healthy c' \<and> in_tx A c' \<and> view A c' = d"
    by (rule Cons.IH) (use c1 rest Cons.prems in simp_all)
  ultimately show ?case by simp
qed

lemma record_commit_live:
  assumes "in_tx A c" and "healthy c" and "spec_commit A track request (view A c) = Some (seq, d)"
  shows "\<exists>c'. record_commit E track request c = (Inr seq, c') \<and> healthy c' \<and> in_tx A c' \<and> view A c' = d"
proof (cases track)
  case False
  then show ?thesis using assms by (simp add: record_commit_def spec_commit_def)
next
  case True
  then have eff: "effect A commit_insert_sql (commit_params request) (view A c) = Some d"
    and seq: "seq = Some (word_of_int (max_seq A d))"
    using assms(3) by (auto simp: spec_commit_def)
  obtain c2 where c2: "exec_fixed (drv E) commit_insert_sql (commit_params request) c = (Inr (), c2)"
      "healthy c2" "in_tx A c2" "view A c2 = d"
    using exec_fixed_live [OF assms(1,2) eff] by (auto simp: internal_sql_def)
  then have rc: "record_commit E track request c = (Inr (Some (last_insert_rowid (drv E) c2)), c2)"
    using True by (simp add: record_commit_def)
  have "sint (last_insert_rowid (drv E) c2) = max_seq A d"
    using record_commit_step(2) [OF assms(1) rc] True c2(4) by (simp add: commit_effect_def)
  then have "seq = Some (last_insert_rowid (drv E) c2)" using seq by (metis word_of_int_sint)
  with rc c2 show ?thesis by blast
qed

lemma tx_body_live:
  assumes "in_tx A c" and "healthy c" and "plain_request A request"
    and "spec_tx E A track request record (view A c) = Some (seq, d)"
  shows "\<exists>c'. tx_body E track request record c = (Inr seq, c') \<and> view A c' = d"
proof -
  obtain d1 d2 where e: "ops_effect E A (rq_operations request) (view A c) = Some d1"
      "spec_commit A track request d1 = Some (seq, d2)"
      "case record of None \<Rightarrow> d = d2 | Some (key, hash) \<Rightarrow> effect A idem_insert_sql
         (idem_params (serde E) (rq_request_id request) seq key hash) d2 = Some d"
    using assms(4) by (auto simp: spec_tx_def split: option.splits)
  obtain c1 where c1: "exec_ops E (rq_operations request) c = (Inr (), c1)" "healthy c1" "in_tx A c1" "view A c1 = d1"
    using exec_ops_live [OF assms(1,2) _ e(1)] assms(3) by (auto simp: plain_request_def)
  obtain c2 where c2: "record_commit E track request c1 = (Inr seq, c2)" "healthy c2" "in_tx A c2" "view A c2 = d2"
    using record_commit_live [OF c1(3,2)] e(2) c1(4) by blast
  have "\<exists>c3. record_idempotency E (rq_request_id request) seq record c2 = (Inr (), c3) \<and> view A c3 = d"
  proof (cases "record")
    case None
    then show ?thesis using c2 e(3) by (simp add: record_idempotency_def)
  next
    case (Some r)
    then obtain key hash where r: "record = Some (key, hash)" by (cases r) simp
    then have eff: "effect A idem_insert_sql
        (idem_params (serde E) (rq_request_id request) seq key hash) (view A c2) = Some d"
      using e(3) c2(4) by simp
    show ?thesis
      using exec_fixed_live [OF c2(3,2) eff] r by (auto simp: record_idempotency_def internal_sql_def)
  qed
  then show ?thesis using c1 c2 by (auto simp: tx_body_def)
qed

text \<open>The body succeeds exactly when the reference semantics is defined.\<close>

lemma tx_body_spec:
  assumes "in_tx A c" and "healthy c" and "plain_request A request"
    and "tx_body E track request record c = (r, c')"
  shows "healthy c'" and "tx_step A c c'"
    and "case r of Inl m \<Rightarrow> spec_tx E A track request record (view A c) = None
      | Inr seq \<Rightarrow> spec_tx E A track request record (view A c) = Some (seq, view A c')"
proof -
  show "healthy c'" using assms by (rule tx_body_keeps)
  show "tx_step A c c'" using assms(1,3,4) by (rule tx_body_step)
  show "case r of Inl m \<Rightarrow> spec_tx E A track request record (view A c) = None
      | Inr seq \<Rightarrow> spec_tx E A track request record (view A c) = Some (seq, view A c')"
  proof (cases r)
    case (Inl m)
    then show ?thesis
      using tx_body_live [OF assms(1,2,3), of track "record"] assms(4)
      by (cases "spec_tx E A track request record (view A c)") fastforce+
  next
    case (Inr seq)
    then show ?thesis
      using tx_effect_spec_tx [OF tx_body_step(2) [OF assms(1,3,4)]] by simp
  qed
qed

text \<open>What the idempotency lookup of a healthy connection answers.\<close>

lemma idem_lookup_live:
  assumes "healthy c"
  obtains (found) h j c' where "idem_lookup (drv E) k c = (Inr (h, j), c')"
      "stored A (view A c) k = Some (h, j)" "healthy c'" "same_reading A c c'"
  | (missing) e c' where "idem_lookup (drv E) k c = (Inl e, c')" "is_no_rows (drv E) e"
      "stored A (view A c) k = None" "healthy c'" "same_reading A c c'"
proof -
  obtain p0 c1 where p0: "prepare_cached (drv E) idem_select_sql c = (p0, c1)" by fastforce
  then have p: "prepare_cached (drv E) idem_select_sql c = (Inr (), c1)" "healthy c1"
    using prepare_live [OF assms p0] prepare_keeps [OF assms p0] by simp_all
  obtain r c2 where q0: "query_row (drv E) idem_select_sql [Text k] c1 = (r, c2)" by fastforce
  have q: "query_row (drv E) idem_select_sql [Text k] c1 = (r, c2)" "healthy c2"
    and r: "case r of Inl e \<Rightarrow> is_no_rows (drv E) e
      | Inr row \<Rightarrow> (\<exists>h j. get_string (drv E) row 0 = Inr h \<and> get_opt_string (drv E) row 1 = Inr j)"
    using q0 query_live [OF p(2) q0] by blast+
  show ?thesis
  proof (cases r)
    case (Inl e)
    then have look: "idem_lookup (drv E) k c = (Inl e, c2)" using p q by (simp add: idem_lookup_def)
    show ?thesis
      using missing [OF look _ _ q(2)] idem_lookup_step [OF look] r Inl by simp
  next
    case (Inr row)
    then obtain h j where "get_string (drv E) row 0 = Inr h" "get_opt_string (drv E) row 1 = Inr j"
      using r by auto
    then have look: "idem_lookup (drv E) k c = (Inr (h, j), c2)" using p q Inr by (simp add: idem_lookup_def)
    show ?thesis
      using found [OF look _ q(2)] idem_lookup_step [OF look] by simp
  qed
qed

section \<open>\<open>apply\<close> and \<open>apply_batch\<close> compute the reference semantics\<close>

lemma validate_all_list_all:
  "(\<exists>u. (validate_all config ops :: 'e error + unit) = Inr u) \<longleftrightarrow>
     list_all (\<lambda>op. guard_accepts config (keyword (sql op))) ops"
  using validate_all_Inr_iff [of config ops] by (simp add: list_all_iff)

lemma admit_live:
  assumes "healthy c" and "admit E config idempotency request c = (a, c')"
  shows "healthy c'" and "same_reading A c c'"
    and "case a of
        Answer resp \<Rightarrow> spec_serve E A config track idempotency request (view A c) = (outcome resp, view A c)
      | Proceed record \<Rightarrow> spec_serve E A config track idempotency request (view A c)
          = spec_execute E A track request record (view A c)"
proof -
  let ?d = "view A c"
  let ?key = "if idempotency then rq_idempotency_key request else None"
  have "healthy c' \<and> same_reading A c c' \<and> (case a of
        Answer resp \<Rightarrow> spec_serve E A config track idempotency request ?d = (outcome resp, ?d)
      | Proceed record \<Rightarrow> spec_serve E A config track idempotency request ?d
          = spec_execute E A track request record ?d)"
  proof (cases "validate_all config (rq_operations request) :: 'e error + unit")
    case (Inl e)
    then have "\<not> list_all (\<lambda>op. guard_accepts config (keyword (sql op))) (rq_operations request)"
      using validate_all_list_all [of config "rq_operations request"] by simp
    with Inl assms show ?thesis by (auto simp: admit_def spec_serve_def)
  next
    case (Inr u)
    then have ok: "list_all (\<lambda>op. guard_accepts config (keyword (sql op))) (rq_operations request)"
      using validate_all_list_all [of config "rq_operations request"] by simp
    show ?thesis
    proof (cases ?key)
      case None
      with Inr ok assms show ?thesis
        by (auto simp: admit_def spec_serve_def spec_execute_def Let_def)
    next
      case (Some key)
      show ?thesis
      proof (cases "to_text (serde E) (operations_to_value (rq_operations request))")
        case (Inl m)
        with Some Inr ok assms show ?thesis
          by (auto simp: admit_def spec_serve_def Let_def split: if_splits)
      next
        case hash: (Inr hash)
        from assms(1) show ?thesis
        proof (cases rule: idem_lookup_live [where k = key])
          case (found h j c1)
          with Some Inr ok hash assms show ?thesis
            by (auto simp: admit_def spec_serve_def Let_def split: if_splits)
        next
          case (missing e c1)
          with Some Inr ok hash assms show ?thesis
            by (auto simp: admit_def spec_serve_def spec_execute_def Let_def split: if_splits)
        qed
      qed
    qed
  qed
  then show "healthy c'" and "same_reading A c c'"
    and "case a of
        Answer resp \<Rightarrow> spec_serve E A config track idempotency request (view A c) = (outcome resp, view A c)
      | Proceed record \<Rightarrow> spec_serve E A config track idempotency request (view A c)
          = spec_execute E A track request record (view A c)"
    by blast+
qed

lemma apply_inner_live:
  assumes "idle A (w_conn w)" and "healthy (w_conn w)" and "plain_request A request"
    and "apply_inner E w request record = (resp, w')"
  shows "healthy (w_conn w') \<and> (outcome resp, durable A (w_conn w'))
      = spec_execute E A (w_track_commits w) request record (durable A (w_conn w))"
proof -
  obtain b c1 where b: "begin_immediate (drv E) (w_conn w) = (b, c1)" by fastforce
  have b_ok: "b = Inr ()" "healthy c1" using begin_live [OF assms(1,2) b] by simp_all
  have c1: "in_tx A c1" "durable A c1 = durable A (w_conn w)" "view A c1 = durable A (w_conn w)"
    using begin_ok [OF assms(1)] b b_ok(1) by blast+
  obtain r c2 where r: "tx_body E (w_track_commits w) request record c1 = (r, c2)" by fastforce
  note body = tx_body_spec [OF c1(1) b_ok(2) assms(3) r]
  have c2: "in_tx A c2" "durable A c2 = durable A (w_conn w)"
    using body(2) c1(2) by (simp_all add: tx_step_def)
  show ?thesis
  proof (cases r)
    case (Inl m)
    with body c1(3) have "spec_tx E A (w_track_commits w) request record (durable A (w_conn w)) = None"
      by simp
    with assms(4) b b_ok r Inl drop_rolls_back [OF c2(1)] c2(2) drop_live [OF c2(1) body(1)]
    show ?thesis by (auto simp: apply_inner_def spec_execute_def)
  next
    case r_ok: (Inr seq)
    obtain k c3 where k: "commit_tx (drv E) c2 = (k, c3)" by fastforce
    have k_ok: "k = Inr ()" "healthy c3" using commit_live [OF c2(1) body(1) k] by simp_all
    have "durable A c3 = view A c2" using commit_ok [OF c2(1)] k k_ok(1) by blast
    with assms(4) b b_ok r r_ok k k_ok body(3) c1(3) show ?thesis
      by (auto simp: apply_inner_def spec_execute_def)
  qed
qed

lemma writer_apply_live:
  assumes "idle A (w_conn w)" and "healthy (w_conn w)" and "plain_request A request"
    and "writer_apply E w request = (resp, w')"
  shows "healthy (w_conn w') \<and> (outcome resp, durable A (w_conn w'))
      = spec_serve E A (w_config w) (w_track_commits w) (w_idempotency w) request (durable A (w_conn w))"
proof -
  obtain a c1 where a: "admit E (w_config w) (w_idempotency w) request (w_conn w) = (a, c1)"
    by fastforce
  have view: "view A (w_conn w) = durable A (w_conn w)" using view_autocommit assms(1) by simp
  note adm = admit_live(1,2) [OF assms(2) a] admit_live(3) [OF assms(2) a, of "w_track_commits w"]
  have c1: "idle A c1" "durable A c1 = durable A (w_conn w)"
    using adm(2) assms(1) by (simp_all add: same_reading_def)
  show ?thesis
  proof (cases a)
    case (Answer r)
    with assms(4) a adm(1,3) c1(2) view show ?thesis by (auto simp: writer_apply_def)
  next
    case (Proceed rec)
    let ?w = "w\<lparr>w_conn := c1\<rparr>"
    have "apply_inner E ?w request rec = (resp, w')"
      using assms(4) a Proceed by (simp add: writer_apply_def)
    with apply_inner_live [of ?w request rec] c1 adm assms(3) Proceed view show ?thesis by simp
  qed
qed

lemma apply_savepoint_live:
  assumes "in_tx A c" and "healthy c" and "plain_request A request"
    and "apply_savepoint E track request sp record c = (resp, c')"
  shows "healthy c' \<and> (outcome resp, view A c') = spec_execute E A track request record (view A c)"
proof -
  obtain b c1 where b: "execute_batch (drv E) (savepoint_sql sp) c = (b, c1)" by fastforce
  have b_ok: "b = Inr ()" "healthy c1" using savepoint_live [OF assms(1,2) b] by simp_all
  have c1: "in_tx A c1" "durable A c1 = durable A c" "view A c1 = view A c"
      "savepoints A c1 = (sp, view A c) # savepoints A c"
    using savepoint_ok [OF assms(1)] b b_ok(1) by blast+
  obtain r c2 where r: "tx_body E track request record c1 = (r, c2)" by fastforce
  note body = tx_body_spec [OF c1(1) b_ok(2) assms(3) r]
  have c2: "in_tx A c2" "savepoints A c2 = (sp, view A c) # savepoints A c"
    using body(2) c1(4) by (simp_all add: tx_step_def)
  show ?thesis
  proof (cases r)
    case (Inl m)
    obtain u c3 where u: "execute_batch (drv E) (rollback_release_sql sp) c2 = (u, c3)" by fastforce
    have "healthy c3" "view A c3 = view A c"
      using rollback_live [OF c2(1) body(1) c2(2) u] rollback_to [OF c2 u] by simp_all
    with assms(4) b b_ok r Inl u body(3) c1(3) show ?thesis
      by (auto simp: apply_savepoint_def spec_execute_def)
  next
    case r_ok: (Inr seq)
    obtain k c3 where k: "execute_batch (drv E) (release_sql sp) c2 = (k, c3)" by fastforce
    have k_ok: "k = Inr ()" "healthy c3" using release_live [OF c2(1) body(1) c2(2) k] by simp_all
    have "view A c3 = view A c2" using release_ok [OF c2] k k_ok(1) by blast
    with assms(4) b b_ok r r_ok k k_ok body(3) c1(3) show ?thesis
      by (auto simp: apply_savepoint_def spec_execute_def)
  qed
qed

lemma batch_one_live:
  assumes "in_tx A c" and "healthy c" and "plain_request A request"
    and "batch_one E w idx request c = (resp, c')"
  shows "healthy c' \<and> (outcome resp, view A c')
      = spec_serve E A (w_config w) (w_track_commits w) (w_idempotency w) request (view A c)"
proof -
  obtain a c1 where a: "admit E (w_config w) (w_idempotency w) request c = (a, c1)"
    by fastforce
  note adm = admit_live(1,2) [OF assms(2) a] admit_live(3) [OF assms(2) a, of "w_track_commits w"]
  have c1: "in_tx A c1" "view A c1 = view A c"
    using adm(2) assms(1) by (simp_all add: same_reading_def)
  show ?thesis
  proof (cases a)
    case (Answer r)
    with assms(4) a adm(1,3) c1(2) show ?thesis by (simp add: batch_one_def)
  next
    case (Proceed rec)
    then have "apply_savepoint E (w_track_commits w) request (''sp_'' @ nat_to_string idx) rec c1
        = (resp, c')"
      using assms(4) a by (simp add: batch_one_def)
    from apply_savepoint_live [OF c1(1) adm(1) assms(3) this] c1(2) adm(3) Proceed
    show ?thesis by simp
  qed
qed

lemma batch_loop_live:
  assumes "in_tx A c" and "healthy c" and "\<forall>(request, rt) \<in> set batch. plain_request A request"
    and "batch_loop E w idx batch c = (rs, c')"
  shows "healthy c' \<and> (map (outcome \<circ> snd) rs, view A c') = spec_serve_all E A (w_config w)
      (w_track_commits w) (w_idempotency w) (map fst batch) (view A c)"
  using assms
proof (induction batch arbitrary: idx c rs)
  case Nil
  then show ?case by auto
next
  case (Cons b batch)
  obtain request rt where b: "b = (request, rt)" by fastforce
  obtain resp c1 where one: "batch_one E w idx request c = (resp, c1)" by fastforce
  obtain rs' c2 where rest: "batch_loop E w (Suc idx) batch c1 = (rs', c2)" by fastforce
  have rs: "rs = (rt, resp) # rs'" and c2: "c2 = c'"
    using Cons.prems(4) b one rest by simp_all
  have pl: "plain_request A request" using Cons.prems(3) b by simp
  note step = batch_one_live [OF Cons.prems(1,2) pl one]
  have "in_tx A c1" using batch_one_step [OF Cons.prems(1) pl one] by (simp add: tx_step_def)
  moreover have "\<forall>(request, rt) \<in> set batch. plain_request A request" using Cons.prems(3) by simp
  ultimately have "healthy c' \<and> (map (outcome \<circ> snd) rs', view A c') = spec_serve_all E A (w_config w)
      (w_track_commits w) (w_idempotency w) (map fst batch) (view A c1)"
    using step rest c2 by (intro Cons.IH) auto
  moreover have "spec_serve E A (w_config w) (w_track_commits w) (w_idempotency w) request (view A c)
      = (outcome resp, view A c1)"
    using step by simp
  moreover obtain xs d where
    "spec_serve_all E A (w_config w) (w_track_commits w) (w_idempotency w) (map fst batch) (view A c1) = (xs, d)"
    by fastforce
  ultimately show ?case by (simp add: b rs comp_def)
qed

lemma apply_batch_live:
  assumes "idle A (w_conn w)" and "healthy (w_conn w)"
    and "\<forall>(request, rt) \<in> set batch. plain_request A request"
    and "apply_batch E w batch = (rs, w')"
  shows "healthy (w_conn w') \<and> (map (outcome \<circ> snd) rs, durable A (w_conn w')) =
      spec_serve_all E A (w_config w) (w_track_commits w) (w_idempotency w) (map fst batch)
        (durable A (w_conn w))"
proof -
  obtain b c1 where b: "begin_immediate (drv E) (w_conn w) = (b, c1)" by fastforce
  have b_ok: "b = Inr ()" "healthy c1" using begin_live [OF assms(1,2) b] by simp_all
  have c1: "in_tx A c1" "view A c1 = durable A (w_conn w)"
    using begin_ok [OF assms(1)] b b_ok(1) by blast+
  obtain qs c2 where loop: "batch_loop E w 0 batch c1 = (qs, c2)" by fastforce
  note step = batch_loop_live [OF c1(1) b_ok(2) assms(3) loop]
  have c2: "in_tx A c2" using batch_loop_step [OF c1(1) assms(3) loop] by (simp add: tx_step_def)
  obtain k c3 where k: "commit_tx (drv E) c2 = (k, c3)" by fastforce
  have k_ok: "k = Inr ()" "healthy c3" using commit_live [OF c2 conjunct1 [OF step] k] by simp_all
  have "durable A c3 = view A c2" using commit_ok [OF c2] k k_ok(1) by blast
  with assms(4) b b_ok loop k k_ok step c1(2) show ?thesis by (auto simp: apply_batch_def)
qed

end

section \<open>One after the other\<close>

fun apply_each ::
  "('n, 'c, 'e) env \<Rightarrow> 'c writer \<Rightarrow> 'n write_request list \<Rightarrow> write_response list \<times> 'c writer" where
  "apply_each E w [] = ([], w)"
| "apply_each E w (r # rs) =
     (case writer_apply E w r of
        (resp, w1) \<Rightarrow> (case apply_each E w1 rs of (resps, w2) \<Rightarrow> (resp # resps, w2)))"

context live_db
begin

lemma apply_each_live:
  assumes "idle A (w_conn w)" and "healthy (w_conn w)" and "\<forall>r \<in> set rs. plain_request A r"
  shows "case apply_each E w rs of (resps, w') \<Rightarrow>
    (map outcome resps, durable A (w_conn w')) =
      spec_serve_all E A (w_config w) (w_track_commits w) (w_idempotency w) rs (durable A (w_conn w))"
  using assms
proof (induction rs arbitrary: w)
  case Nil
  then show ?case by simp
next
  case (Cons r rs)
  obtain resp w1 where r: "writer_apply E w r = (resp, w1)" by fastforce
  obtain resps w2 where rest: "apply_each E w1 rs = (resps, w2)" by fastforce
  have "plain_request A r" using Cons.prems(3) by simp
  note one = writer_apply_serves [OF Cons.prems(1) this r] writer_apply_live [OF Cons.prems(1,2) this r]
  have cfg: "w_config w1 = w_config w" "w_track_commits w1 = w_track_commits w"
      "w_idempotency w1 = w_idempotency w"
    using writer_apply_frame [of E w r] r by simp_all
  have "(map outcome resps, durable A (w_conn w2)) = spec_serve_all E A (w_config w)
      (w_track_commits w) (w_idempotency w) rs (durable A (w_conn w1))"
    using Cons.IH [of w1] one Cons.prems(3) rest cfg by simp
  moreover have "spec_serve E A (w_config w) (w_track_commits w) (w_idempotency w) r (durable A (w_conn w))
      = (outcome resp, durable A (w_conn w1))"
    using one(2) by simp
  ultimately show ?case using r rest
    by (cases "spec_serve_all E A (w_config w) (w_track_commits w) (w_idempotency w) rs
      (durable A (w_conn w1))") simp
qed

lemma apply_batch_each:
  assumes "idle A (w_conn w)" and "healthy (w_conn w)"
    and "\<forall>(request, rt) \<in> set batch. plain_request A request"
    and "apply_batch E w batch = (rs, w1)" and "apply_each E w (map fst batch) = (resps, w2)"
  shows "map (outcome \<circ> snd) rs = map outcome resps \<and> durable A (w_conn w1) = durable A (w_conn w2)"
proof -
  have "\<forall>r \<in> set (map fst batch). plain_request A r" using assms(3) by auto
  from apply_each_live [OF assms(1,2) this] apply_batch_live [OF assms(1-4)] assms(5)
  show ?thesis by (auto simp flip: prod.inject)
qed

end

end
