(* ===== verification/Exactly_Once.thy ===== *)
theory Exactly_Once
  imports Batch
begin

text \<open>
  Consequences of the service contract over sequences of requests: a stored idempotency
  entry never changes, a keyed request takes effect at most once and its retries get the
  first answer, and commit sequence numbers only grow.
\<close>

context gateway_db
begin

lemma ops_effect_keeps:
  "\<forall>op \<in> set ops. plain A (sql op) \<Longrightarrow> ops_effect E A ops d = Some d' \<Longrightarrow>
     stored A d' = stored A d \<and> max_seq A d' = max_seq A d"
proof (induction ops arbitrary: d)
  case Nil
  then show ?case by simp
next
  case (Cons op ops)
  then show ?case
    using plain_stored plain_max_seq
    by (fastforce simp: bind_eq_Some_conv split: sum.splits)
qed

lemma tx_effect_stored:
  assumes "plain_request A request" and "tx_effect E A track request record d seq d'"
  shows "stored A d' = (case record of None \<Rightarrow> stored A d
    | Some (k, h) \<Rightarrow> if stored A d k = None
        then (stored A d)(k \<mapsto> (h, Some (response_preview (serde E) (rq_request_id request) seq)))
        else stored A d)"
proof -
  obtain d1 d2 where e: "ops_effect E A (rq_operations request) d = Some d1"
      "commit_effect A track request d1 seq d2"
      "idem_effect E A (rq_request_id request) seq record d2 d'"
    using assms(2) by (auto simp: tx_effect_def)
  have "stored A d1 = stored A d"
    using ops_effect_keeps [OF _ e(1)] assms(1) by (simp add: plain_request_def)
  moreover have "stored A d2 = stored A d1"
    using e(2) plain_stored [of commit_insert_sql] by (auto simp: commit_effect_def split: if_splits)
  ultimately show ?thesis
    using e(3) idem_insert_stored
    by (auto simp: idem_effect_def idem_params_def split: option.splits)
qed

text \<open>Without an idempotency entry the mark moves by the commit row alone.\<close>

lemma tx_effect_max_seq:
  assumes "plain_request A request" and "tx_effect E A track request record d seq d'"
  shows "if track then \<exists>i. seq = Some i \<and> sint i = max_seq A d' \<and> max_seq A d < max_seq A d'
    else seq = None \<and> max_seq A d' = max_seq A d"
proof -
  obtain d1 d2 where e: "ops_effect E A (rq_operations request) d = Some d1"
      "commit_effect A track request d1 seq d2"
      "idem_effect E A (rq_request_id request) seq record d2 d'"
    using assms(2) by (auto simp: tx_effect_def)
  have 1: "max_seq A d1 = max_seq A d"
    using ops_effect_keeps [OF _ e(1)] assms(1) by (simp add: plain_request_def)
  have 2: "max_seq A d' = max_seq A d2"
    using e(3) plain_max_seq [of idem_insert_sql] by (auto simp: idem_effect_def split: option.splits)
  from e(2) show ?thesis
    using 1 2 commit_insert_seq [of "commit_params request" d1 d2]
    by (auto simp: commit_effect_def split: if_splits)
qed

lemma serves_stored:
  assumes "serves E A config track idempotency d request resp d'" and "plain_request A request"
    and "stored A d k = Some x"
  shows "stored A d' k = Some x"
  using assms
proof (cases rule: serves.cases)
  case (executed seq)
  then show ?thesis using tx_effect_stored [OF assms(2)] assms(3)
    by (auto split: option.splits if_splits)
qed simp_all

lemma serves_all_stored:
  assumes "serves_all E A config track idempotency d l d'"
    and "\<forall>(request, resp) \<in> set l. plain_request A request" and "stored A d k = Some x"
  shows "stored A d' k = Some x"
  using assms
proof (induction l arbitrary: d)
  case Nil
  then show ?case by simp
next
  case (Cons y l)
  obtain request resp where y: "y = (request, resp)" by fastforce
  with Cons.prems(1) obtain d1 where s: "serves E A config track idempotency d request resp d1"
    and rest: "serves_all E A config track idempotency d1 l d'" by auto
  have "stored A d1 k = Some x" by (rule serves_stored [OF s]) (use Cons.prems y in auto)
  with rest Cons.prems(2) show ?case by (intro Cons.IH [of d1]) auto
qed

text \<open>The first \<open>Committed\<close> answer for a fresh key leaves the entry that later requests find.\<close>

lemma serves_first:
  assumes "serves E A config track idempotency d request resp d'" and "plain_request A request"
    and "request_record (serde E) idempotency request = Some (k, h)" and "stored A d k = None"
    and "rs_status resp = Committed"
  shows "\<exists>seq. resp = committed (rq_request_id request) seq
    \<and> stored A d' k = Some (h, Some (response_preview (serde E) (rq_request_id request) seq))"
  using assms(1)
proof (cases rule: serves.cases)
  case not_served
  with assms(5) show ?thesis by simp
next
  case (executed seq)
  then show ?thesis using tx_effect_stored [OF assms(2)] assms(3,4) by auto
next
  case (replayed key hash j)
  with assms(3,4) show ?thesis by simp
qed

lemma serves_known:
  assumes "serves E A config track idempotency d request resp d'"
    and "request_record (serde E) idempotency request = Some (k, h)" and "stored A d k = Some (h', j)"
  shows "d' = d \<and> (rs_status resp = Failed
    \<or> h = h' \<and> resp = stored_response (serde E) (rq_request_id request) j)"
  using assms by (cases rule: serves.cases) (auto simp: unseen_def)

end

text \<open>The commit sequence numbers in a list of answers.\<close>

definition commit_seqs :: "('n write_request \<times> write_response) list \<Rightarrow> int list" where
  "commit_seqs l = map sint (List.map_filter
     (\<lambda>(request, resp). if rs_status resp = Committed then rs_commit_seq resp else None) l)"

lemma commit_seqs_simps [simp]:
  "commit_seqs [] = []"
  "commit_seqs ((request, resp) # l) =
     (case (rs_status resp, rs_commit_seq resp) of
        (Committed, Some i) \<Rightarrow> sint i # commit_seqs l | _ \<Rightarrow> commit_seqs l)"
  by (simp_all add: commit_seqs_def List.map_filter_simps split: option.splits write_status.splits)

context gateway_db
begin

lemma serves_all_seqs:
  assumes "serves_all E A config True idempotency d l d'"
    and "\<forall>(request, resp) \<in> set l. plain_request A request
      \<and> (\<not> idempotency \<or> rq_idempotency_key request = None)"
  shows "sorted_wrt (<) (commit_seqs l) \<and> (\<forall>s \<in> set (commit_seqs l). max_seq A d < s \<and> s \<le> max_seq A d')
    \<and> max_seq A d \<le> max_seq A d'
    \<and> (\<forall>(request, resp) \<in> set l. rs_status resp = Committed \<longrightarrow> rs_commit_seq resp \<noteq> None)"
  using assms
proof (induction l arbitrary: d)
  case Nil
  then show ?case by simp
next
  case (Cons y l)
  obtain request resp where y: "y = (request, resp)" by fastforce
  with Cons.prems(1) obtain d1 where s: "serves E A config True idempotency d request resp d1"
    and rest: "serves_all E A config True idempotency d1 l d'" by auto
  have IH: "sorted_wrt (<) (commit_seqs l) \<and> (\<forall>s \<in> set (commit_seqs l). max_seq A d1 < s \<and> s \<le> max_seq A d')
    \<and> max_seq A d1 \<le> max_seq A d'
    \<and> (\<forall>(request, resp) \<in> set l. rs_status resp = Committed \<longrightarrow> rs_commit_seq resp \<noteq> None)"
    using rest Cons.prems(2) by (intro Cons.IH) auto
  from s show ?case
  proof (cases rule: serves.cases)
    case not_served
    then show ?thesis using IH y by simp
  next
    case (executed seq)
    then have "\<exists>i. seq = Some i \<and> sint i = max_seq A d1 \<and> max_seq A d < max_seq A d1"
      using tx_effect_max_seq [OF _ executed(4)] Cons.prems(2) y by simp
    then show ?thesis using IH y executed by fastforce
  next
    case (replayed key hash j)
    then have False using Cons.prems(2) y by (auto simp: request_record_def split: if_splits)
    then show ?thesis ..
  qed
qed

end

text \<open>A database whose JSON texts can be read back.\<close>

locale text_db = gateway_db E A + json_text "serde E"
  for E :: "('n, 'c, 'e) env" and A :: "('c, 'd) reading"
begin

lemma stored_preview:
  "stored_response (serde E) req_id' (Some (response_preview (serde E) req_id seq)) = committed req_id seq"
proof -
  obtain t where t: "to_text (serde E) (response_to_value (serde E) (committed req_id seq)) = Inr t"
    using to_text_total by blast
  with response_text_roundtrip [OF t] show ?thesis
    by (auto simp: stored_response_def response_preview_def)
qed

lemma request_record_key:
  assumes "rq_idempotency_key request = Some k"
  obtains h where "request_record (serde E) True request = Some (k, h)"
    "to_text (serde E) (operations_to_value (rq_operations request)) = Inr h"
  using to_text_total [of "operations_to_value (rq_operations request)"] assms
  by (auto simp: request_record_def)

lemma serves_retry:
  assumes "serves E A config track True d r1 resp1 d1" and "plain_request A r1"
    and "rq_idempotency_key r1 = Some k" and "stored A d k = None" and "rs_status resp1 = Committed"
    and "serves_all E A config track True d1 l d2" and "\<forall>(r, resp) \<in> set l. plain_request A r"
    and "serves E A config' track' True d2 r2 resp2 d3" and "rq_idempotency_key r2 = Some k"
  shows "d3 = d2 \<and> (rs_status resp2 = Failed \<or> rq_operations r2 = rq_operations r1 \<and> resp2 = resp1)"
proof -
  obtain h1 where h1: "request_record (serde E) True r1 = Some (k, h1)"
      "to_text (serde E) (operations_to_value (rq_operations r1)) = Inr h1"
    using request_record_key [OF assms(3)] by blast
  obtain h2 where h2: "request_record (serde E) True r2 = Some (k, h2)"
      "to_text (serde E) (operations_to_value (rq_operations r2)) = Inr h2"
    using request_record_key [OF assms(9)] by blast
  obtain seq where seq: "resp1 = committed (rq_request_id r1) seq"
      "stored A d1 k = Some (h1, Some (response_preview (serde E) (rq_request_id r1) seq))"
    using serves_first [OF assms(1,2) h1(1) assms(4,5)] by blast
  have "stored A d2 k = Some (h1, Some (response_preview (serde E) (rq_request_id r1) seq))"
    by (rule serves_all_stored [OF assms(6,7) seq(2)])
  from serves_known [OF assms(8) h2(1) this]
  have "d3 = d2 \<and> (rs_status resp2 = Failed \<or> h2 = h1 \<and> resp2 = resp1)"
    by (simp add: stored_preview seq(1))
  moreover have "h2 = h1 \<Longrightarrow> rq_operations r2 = rq_operations r1"
    using to_text_inj [OF h2(2), of "operations_to_value (rq_operations r1)"] h1(2)
      operations_to_value_inj by metis
  ultimately show ?thesis by blast
qed

end

end
