(* ===== verification/Startup.thy ===== *)
theory Startup
  imports Writer
begin

text \<open>
  What happens to a connection before the writer thread starts: \<open>apply_pragmas\<close> and
  \<open>run_migrations\<close> of \<open>src/writer.rs\<close>.
\<close>

definition nl :: string where
  "nl = [CHR 0x0A]"

definition commits_ddl :: string where
  "commits_ddl =
     ''CREATE TABLE IF NOT EXISTS squeuelite_commits ('' @ nl @
     ''                seq          INTEGER PRIMARY KEY AUTOINCREMENT,'' @ nl @
     ''                request_id   TEXT NOT NULL,'' @ nl @
     ''                actor_id     TEXT NOT NULL,'' @ nl @
     ''                run_id       TEXT,'' @ nl @
     ''                committed_at TEXT NOT NULL DEFAULT CURRENT_TIMESTAMP'' @ nl @
     ''            );''"

definition requests_ddl :: string where
  "requests_ddl =
     ''CREATE TABLE IF NOT EXISTS squeuelite_requests ('' @ nl @
     ''                idempotency_key TEXT PRIMARY KEY,'' @ nl @
     ''                request_hash    TEXT NOT NULL,'' @ nl @
     ''                status          TEXT NOT NULL,'' @ nl @
     ''                response_json   TEXT,'' @ nl @
     ''                commit_seq      INTEGER,'' @ nl @
     ''                created_at      TEXT NOT NULL DEFAULT CURRENT_TIMESTAMP,'' @ nl @
     ''                updated_at      TEXT NOT NULL DEFAULT CURRENT_TIMESTAMP'' @ nl @
     ''            );''"

definition migrate ::
  "('c, 'e) driver \<Rightarrow> string \<Rightarrow> 'c \<Rightarrow> ('e error + unit) \<times> 'c" where
  "migrate D ddl c =
     (case execute_batch D ddl c of
        (Inl e, c1) \<Rightarrow> (Inl (Migration (err_to_string D e)), c1)
      | (Inr _, c1) \<Rightarrow> (Inr (), c1))"

definition run_migrations ::
  "('c, 'e) driver \<Rightarrow> bool \<Rightarrow> bool \<Rightarrow> 'c \<Rightarrow> ('e error + unit) \<times> 'c" where
  "run_migrations D track_commits idempotency c =
     (case (if track_commits then migrate D commits_ddl c else (Inr (), c)) of
        (Inl e, c1) \<Rightarrow> (Inl e, c1)
      | (Inr _, c1) \<Rightarrow> if idempotency then migrate D requests_ddl c1 else (Inr (), c1))"

text \<open>
  \<open>journal_mode\<close> is read back as a string, whatever it is; then \<open>busy_timeout\<close>,
  \<open>synchronous\<close> and \<open>foreign_keys\<close>, each followed by \<open>?\<close>.
\<close>

definition apply_pragmas ::
  "('c, 'e) driver \<Rightarrow> gateway_config \<Rightarrow> 'c \<Rightarrow> ('e error + unit) \<times> 'c" where
  "apply_pragmas D config c =
     (case pragma_update_and_check D ''journal_mode''
             (Text (journal_as_pragma_value (cfg_journal_mode config))) c of
        (Inl e, c1) \<Rightarrow> (Inl (Sqlite e), c1)
      | (Inr row, c1) \<Rightarrow>
        (case get_string D row 0 of
           Inl e \<Rightarrow> (Inl (Sqlite e), c1)
         | Inr actual_mode \<Rightarrow>
           (case busy_timeout D (cfg_busy_timeout_ms config) c1 of
              (Inl e, c2) \<Rightarrow> (Inl (Sqlite e), c2)
            | (Inr _, c2) \<Rightarrow>
              (case pragma_update D ''synchronous''
                      (Text (sync_as_pragma_value (cfg_synchronous config))) c2 of
                 (Inl e, c3) \<Rightarrow> (Inl (Sqlite e), c3)
               | (Inr _, c3) \<Rightarrow>
                 (case pragma_update D ''foreign_keys''
                         (Integer (if cfg_foreign_keys config then 1 else 0)) c3 of
                    (Inl e, c4) \<Rightarrow> (Inl (Sqlite e), c4)
                  | (Inr _, c4) \<Rightarrow> (Inr (), c4))))))"

section \<open>Errors and order\<close>

lemma migrate_error: "migrate D ddl c = (Inl e, c') \<Longrightarrow> \<exists>m. e = Migration m"
  by (auto simp: migrate_def split: prod.splits sum.splits)

lemma run_migrations_error: "run_migrations D t i c = (Inl e, c') \<Longrightarrow> \<exists>m. e = Migration m"
  by (auto simp: run_migrations_def dest: migrate_error split: prod.splits sum.splits if_splits)

lemma apply_pragmas_error: "apply_pragmas D config c = (Inl e, c') \<Longrightarrow> \<exists>x. e = Sqlite x"
  by (auto simp: apply_pragmas_def split: prod.splits sum.splits)

text \<open>
  A driver that also writes down the set-up calls made on it, to state their order.
\<close>

datatype setup_call =
    Check_Pragma string sql_value
  | Update_Pragma string sql_value
  | Busy_Timeout u64
  | Execute_Batch string

definition lift_call ::
  "setup_call list \<Rightarrow> ('c \<Rightarrow> 'r \<times> 'c) \<Rightarrow> 'c \<times> setup_call list \<Rightarrow> 'r \<times> ('c \<times> setup_call list)" where
  "lift_call calls f cl = (case f (fst cl) of (r, c') \<Rightarrow> (r, (c', snd cl @ calls)))"

definition logging :: "('c, 'e) driver \<Rightarrow> ('c \<times> setup_call list, 'e) driver" where
  "logging D =
     \<lparr>err_to_string = err_to_string D, is_no_rows = is_no_rows D,
      conn_open = (\<lambda>p. map_sum id (\<lambda>c. (c, [])) (conn_open D p)),
      begin_immediate = lift_call [] (begin_immediate D), commit_tx = lift_call [] (commit_tx D),
      drop_tx = (\<lambda>(c, l). (drop_tx D c, l)),
      prepare_cached = (\<lambda>s. lift_call [] (prepare_cached D s)),
      stmt_execute = (\<lambda>s ps. lift_call [] (stmt_execute D s ps)),
      query_row = (\<lambda>s ps. lift_call [] (query_row D s ps)),
      get_string = get_string D, get_opt_string = get_opt_string D,
      execute_batch = (\<lambda>s. lift_call [Execute_Batch s] (execute_batch D s)),
      last_insert_rowid = (\<lambda>(c, l). last_insert_rowid D c),
      pragma_update = (\<lambda>k v. lift_call [Update_Pragma k v] (pragma_update D k v)),
      pragma_update_and_check = (\<lambda>k v. lift_call [Check_Pragma k v] (pragma_update_and_check D k v)),
      busy_timeout = (\<lambda>ms. lift_call [Busy_Timeout ms] (busy_timeout D ms)),
      clock_micros = (\<lambda>(c, l). clock_micros D c)\<rparr>"

definition pragma_plan :: "gateway_config \<Rightarrow> setup_call list" where
  "pragma_plan config =
     [Check_Pragma ''journal_mode'' (Text (journal_as_pragma_value (cfg_journal_mode config))),
      Busy_Timeout (cfg_busy_timeout_ms config),
      Update_Pragma ''synchronous'' (Text (sync_as_pragma_value (cfg_synchronous config))),
      Update_Pragma ''foreign_keys'' (Integer (if cfg_foreign_keys config then 1 else 0))]"

definition migration_plan :: "bool \<Rightarrow> bool \<Rightarrow> setup_call list" where
  "migration_plan track_commits idempotency =
     (if track_commits then [Execute_Batch commits_ddl] else [])
     @ (if idempotency then [Execute_Batch requests_ddl] else [])"

lemma apply_pragmas_plan:
  assumes "apply_pragmas (logging D) config (c, log) = (r, (c', log'))"
  shows "if is_ok r then log' = log @ pragma_plan config
    else \<exists>k. 0 < k \<and> log' = log @ take k (pragma_plan config)"
proof -
  have "log' = log @ take 1 (pragma_plan config) \<or> log' = log @ take 2 (pragma_plan config)
      \<or> log' = log @ take 3 (pragma_plan config) \<or> log' = log @ take 4 (pragma_plan config)"
    and "is_ok r \<Longrightarrow> log' = log @ pragma_plan config"
    using assms
    by (auto simp: apply_pragmas_def logging_def lift_call_def pragma_plan_def
        split: prod.splits sum.splits)
  then show ?thesis by (auto intro: exI [of _ 1] exI [of _ 2] exI [of _ 3] exI [of _ 4])
qed

lemma run_migrations_plan:
  assumes "run_migrations (logging D) t i (c, log) = (r, (c', log'))"
  shows "if is_ok r then log' = log @ migration_plan t i
    else \<exists>k. 0 < k \<and> log' = log @ take k (migration_plan t i)"
proof -
  have "is_ok r \<and> log' = log @ migration_plan t i
      \<or> isl r \<and> (log' = log @ take 1 (migration_plan t i) \<or> log' = log @ take 2 (migration_plan t i))"
    using assms
    by (auto simp: run_migrations_def migrate_def logging_def lift_call_def migration_plan_def
        split: prod.splits sum.splits if_splits)
  then show ?thesis by (auto intro: exI [of _ 1] exI [of _ 2])
qed

end
