(* ===== verification/Gateway.thy ===== *)
theory Gateway
  imports Startup Run_Loop
begin

text \<open>
  \<open>src/inprocess.rs\<close>: opening a gateway, the handle through which tasks submit requests
  under the overflow policy, and shutdown. The tokio channel, the writer thread's progress
  and the other tasks belong to the runtime: \<open>'s\<close> is their common state, and every await
  is a call of the record \<open>runtime\<close> that may change it.
\<close>

datatype try_send_result = Sent | Queue_Full | Queue_Closed

text \<open>
  \<open>spawn_writer cap w\<close>: \<open>mpsc::channel(cap)\<close> and the thread that runs the writer \<open>w\<close> on it;
  \<open>channel_ok\<close>: the capacities for which \<open>mpsc::channel\<close> does not panic. \<open>oneshot\<close> makes a
  fresh reply slot. \<open>send\<close> is \<open>False\<close> when the channel is closed; \<open>send_timeout\<close> is the
  combination \<open>timeout(send)\<close>, \<open>None\<close> when the time ran out. \<open>recv_write\<close> and
  \<open>recv_checkpoint\<close> await a slot, \<open>None\<close> when its sender was dropped. \<open>join_writer\<close> is
  \<open>False\<close> when the thread panicked. \<open>file_len\<close> is \<open>fs::metadata(path).ok().map(len)\<close>.
\<close>

record ('n, 'c, 'e, 's) runtime =
  channel_ok :: "nat \<Rightarrow> bool"
  spawn_writer :: "nat \<Rightarrow> 'c writer \<Rightarrow> 's"
  oneshot :: "'s \<Rightarrow> slot \<times> 's"
  send :: "'n command \<Rightarrow> 's \<Rightarrow> bool \<times> 's"
  try_send :: "'n command \<Rightarrow> 's \<Rightarrow> try_send_result \<times> 's"
  send_timeout :: "u64 \<Rightarrow> 'n command \<Rightarrow> 's \<Rightarrow> bool option \<times> 's"
  recv_write :: "slot \<Rightarrow> 's \<Rightarrow> write_response option \<times> 's"
  recv_checkpoint :: "slot \<Rightarrow> 's \<Rightarrow> ('e error + unit) option \<times> 's"
  chan_max_capacity :: "'s \<Rightarrow> nat"
  chan_capacity :: "'s \<Rightarrow> nat"
  shared_latency :: "'s \<Rightarrow> latency_buffer"
  join_writer :: "'s \<Rightarrow> bool \<times> 's"
  uuid_now_v7 :: "'s \<Rightarrow> string \<times> 's"
  file_len :: "string \<Rightarrow> 's \<Rightarrow> u64 option"

section \<open>\<open>InProcessGateway\<close>\<close>

text \<open>The sender and the shared latency buffer live in the runtime state.\<close>

record gateway =
  gw_db_path :: string
  gw_overflow :: overflow_policy
  gw_writer_handle :: bool

record gateway_handle =
  gh_overflow :: overflow_policy

text \<open>\<open>None\<close> is the panic of \<open>mpsc::channel\<close>.\<close>

definition open_with_config ::
  "('n, 'c, 'e) env \<Rightarrow> ('n, 'c, 'e, 's) runtime \<Rightarrow> gateway_config \<Rightarrow>
   ('e error + gateway \<times> 's) option" where
  "open_with_config E rt config =
     (case conn_open (drv E) (cfg_db_path config) of
        Inl e \<Rightarrow> Some (Inl (Sqlite e))
      | Inr conn \<Rightarrow>
        (case apply_pragmas (drv E) config conn of
           (Inl e, _) \<Rightarrow> Some (Inl e)
         | (Inr _, conn1) \<Rightarrow>
           (case run_migrations (drv E) (cfg_track_commits config) (cfg_idempotency config) conn1 of
              (Inl e, _) \<Rightarrow> Some (Inl e)
            | (Inr _, conn2) \<Rightarrow>
                if channel_ok rt (cfg_queue_capacity config) then
                  Some (Inr
                    (\<lparr>gw_db_path = cfg_db_path config, gw_overflow = cfg_overflow config,
                      gw_writer_handle = True\<rparr>,
                     spawn_writer rt (cfg_queue_capacity config)
                       (new_writer conn2 (cfg_track_commits config) (cfg_idempotency config)
                          config new_latency_buffer)))
                else None)))"

definition gateway_open ::
  "('n, 'c, 'e) env \<Rightarrow> ('n, 'c, 'e, 's) runtime \<Rightarrow> string \<Rightarrow> ('e error + gateway \<times> 's) option" where
  "gateway_open E rt db_path = open_with_config E rt (gateway_config_new db_path)"

definition handle :: "gateway \<Rightarrow> gateway_handle" where
  "handle gw = \<lparr>gh_overflow = gw_overflow gw\<rparr>"

definition gateway_db_path :: "gateway \<Rightarrow> string" where
  "gateway_db_path gw = gw_db_path gw"

definition shutdown ::
  "('n, 'c, 'e, 's) runtime \<Rightarrow> gateway \<Rightarrow> 's \<Rightarrow> ('e error + unit) \<times> 's" where
  "shutdown rt gw s =
     (case send rt Shutdown s of
        (_, s1) \<Rightarrow>
          if gw_writer_handle gw then
            (case join_writer rt s1 of
               (ok, s2) \<Rightarrow> (if ok then Inr () else Inl GatewayClosed, s2))
          else (Inr (), s1))"

section \<open>\<open>GatewayHandle\<close>\<close>

definition submit ::
  "('n, 'c, 'e, 's) runtime \<Rightarrow> overflow_policy \<Rightarrow> 'n command \<Rightarrow> 's \<Rightarrow> ('e error + unit) \<times> 's" where
  "submit rt overflow cmd s =
     (case overflow of
        Wait \<Rightarrow>
          (case send rt cmd s of (ok, s1) \<Rightarrow> (if ok then Inr () else Inl GatewayClosed, s1))
      | Reject \<Rightarrow>
          (case try_send rt cmd s of
             (Sent, s1) \<Rightarrow> (Inr (), s1)
           | (Queue_Full, s1) \<Rightarrow> (Inl GatewayOverloaded, s1)
           | (Queue_Closed, s1) \<Rightarrow> (Inl GatewayClosed, s1))
      | WaitTimeout ms \<Rightarrow>
          (case send_timeout rt ms cmd s of
             (None, s1) \<Rightarrow> (Inl GatewayOverloaded, s1)
           | (Some ok, s1) \<Rightarrow> (if ok then Inr () else Inl GatewayClosed, s1)))"

definition handle_execute ::
  "('n, 'c, 'e, 's) runtime \<Rightarrow> gateway_handle \<Rightarrow> 'n write_request \<Rightarrow> 's \<Rightarrow>
   ('e error + write_response) \<times> 's" where
  "handle_execute rt h request s =
     (case oneshot rt s of
        (slot, s1) \<Rightarrow>
          (case submit rt (gh_overflow h) (Write request slot) s1 of
             (Inl e, s2) \<Rightarrow> (Inl e, s2)
           | (Inr _, s2) \<Rightarrow>
             (case recv_write rt slot s2 of
                (None, s3) \<Rightarrow> (Inl GatewayClosed, s3)
              | (Some resp, s3) \<Rightarrow> (Inr resp, s3))))"

definition queue_depth :: "('n, 'c, 'e, 's) runtime \<Rightarrow> 's \<Rightarrow> nat" where
  "queue_depth rt s = chan_max_capacity rt s - chan_capacity rt s"

definition queue_capacity :: "('n, 'c, 'e, 's) runtime \<Rightarrow> 's \<Rightarrow> nat" where
  "queue_capacity rt s = chan_max_capacity rt s"

definition handle_checkpoint ::
  "('n, 'c, 'e, 's) runtime \<Rightarrow> 's \<Rightarrow> ('e error + unit) \<times> 's" where
  "handle_checkpoint rt s =
     (case oneshot rt s of
        (slot, s1) \<Rightarrow>
          (case send rt (Checkpoint slot) s1 of
             (ok, s2) \<Rightarrow>
               if \<not> ok then (Inl GatewayClosed, s2)
               else (case recv_checkpoint rt slot s2 of
                       (None, s3) \<Rightarrow> (Inl GatewayClosed, s3)
                     | (Some r, s3) \<Rightarrow> (r, s3))))"

definition handle_latency_snapshot :: "('n, 'c, 'e, 's) runtime \<Rightarrow> 's \<Rightarrow> (f64 \<times> u64) option" where
  "handle_latency_snapshot rt s = latency_snapshot (shared_latency rt s)"

section \<open>What a caller may rely on\<close>

text \<open>
  The interface the transports use: submitting a request ends with the writer's response
  or with one of the two queue errors.
\<close>

locale write_service =
  fixes exec :: "'n write_request \<Rightarrow> 's \<Rightarrow> ('e error + write_response) \<times> 's"
  assumes exec_errors: "exec r s = (Inl e, s') \<Longrightarrow> e = GatewayOverloaded \<or> e = GatewayClosed"
begin

lemma exec_cases:
  obtains (answered) resp s' where "exec r s = (Inr resp, s')"
  | (full) s' where "exec r s = (Inl GatewayOverloaded, s')"
  | (closed) s' where "exec r s = (Inl GatewayClosed, s')"
proof (cases "exec r s")
  case (Pair x s')
  then show ?thesis
    using that exec_errors [of r s _ s'] by (cases x) auto
qed

end

lemma submit_errors: "submit rt p cmd s = (Inl e, s') \<Longrightarrow> e = GatewayOverloaded \<or> e = GatewayClosed"
  by (auto simp: submit_def split: overflow_policy.splits prod.splits try_send_result.splits
      option.splits if_splits)

interpretation handle: write_service "handle_execute rt h"
  for rt :: "('n, 'c, 'e, 's) runtime" and h
  by unfold_locales
    (auto simp: handle_execute_def dest: submit_errors split: prod.splits sum.splits option.splits)

text \<open>
  The channel as tokio documents it, per reply slot, so that it stays true while other
  tasks use the channel: \<open>sent\<close> lists the commands accepted so far, \<open>replied\<close> the replies the
  writer has sent. An elapsed \<open>timeout(send)\<close> has not queued the command.
\<close>

definition on_slot :: "slot \<Rightarrow> 'n command list \<Rightarrow> 'n command list" where
  "on_slot t cmds = filter (\<lambda>c. command_slot c = Some t) cmds"

locale command_queue =
  fixes rt :: "('n, 'c, 'e, 's) runtime" and sent :: "'s \<Rightarrow> 'n command list"
    and replied :: "'s \<Rightarrow> 'e reply list"
  assumes oneshot_fresh: "oneshot rt s = (t, s') \<Longrightarrow> on_slot t (sent s') = []"
    and send_queue: "command_slot cmd = Some t \<Longrightarrow> send rt cmd s = (ok, s') \<Longrightarrow>
      on_slot t (sent s') = on_slot t (sent s) @ (if ok then [cmd] else [])"
    and try_queue: "command_slot cmd = Some t \<Longrightarrow> try_send rt cmd s = (x, s') \<Longrightarrow>
      on_slot t (sent s') = on_slot t (sent s) @ (if x = Sent then [cmd] else [])"
    and timeout_queue: "command_slot cmd = Some t \<Longrightarrow> send_timeout rt ms cmd s = (y, s') \<Longrightarrow>
      on_slot t (sent s') = on_slot t (sent s) @ (if y = Some True then [cmd] else [])"
    and write_queue: "recv_write rt t s = (resp, s') \<Longrightarrow> on_slot t (sent s') = on_slot t (sent s)
      \<and> (\<forall>x. resp = Some x \<longrightarrow> WriteReply t x \<in> set (replied s'))"
    and checkpoint_queue: "recv_checkpoint rt t s = (res, s') \<Longrightarrow> on_slot t (sent s') = on_slot t (sent s)
      \<and> (\<forall>x. res = Some x \<longrightarrow> CheckpointReply t x \<in> set (replied s'))"
begin

lemma submit_queue:
  assumes "command_slot cmd = Some t" and "submit rt p cmd s = (r, s')"
  shows "on_slot t (sent s') = on_slot t (sent s) @ (if is_ok r then [cmd] else [])"
  using assms(2) send_queue [OF assms(1)] try_queue [OF assms(1)] timeout_queue [OF assms(1)]
  by (auto simp: submit_def split: overflow_policy.splits prod.splits try_send_result.splits
      option.splits if_splits)

text \<open>One call of \<open>execute\<close> uses one slot: the request is queued on it at most once, and
  the response is the one the writer sent to that slot.\<close>

lemma execute_queue:
  assumes "handle_execute rt h r s = (x, s')"
  shows "let t = fst (oneshot rt s) in case x of
      Inr resp \<Rightarrow> on_slot t (sent s') = [Write r t] \<and> WriteReply t resp \<in> set (replied s')
    | Inl e \<Rightarrow> on_slot t (sent s') = [] \<or> e = GatewayClosed \<and> on_slot t (sent s') = [Write r t]"
proof -
  obtain t s1 where t: "oneshot rt s = (t, s1)" by fastforce
  obtain u s2 where u: "submit rt (gh_overflow h) (Write r t) s1 = (u, s2)" by fastforce
  have q2: "on_slot t (sent s2) = (if is_ok u then [Write r t] else [])"
    using submit_queue [OF _ u] oneshot_fresh [OF t] by simp
  show ?thesis
  proof (cases u)
    case (Inl e)
    with assms t u q2 show ?thesis by (auto simp: handle_execute_def Let_def)
  next
    case (Inr v)
    obtain w s3 where w: "recv_write rt t s2 = (w, s3)" by fastforce
    with assms t u Inr q2 write_queue [OF w] show ?thesis
      by (auto simp: handle_execute_def Let_def split: option.splits)
  qed
qed

lemma checkpoint_queued:
  assumes "handle_checkpoint rt s = (x, s')"
  shows "let t = fst (oneshot rt s) in on_slot t (sent s') = [Checkpoint t] \<and> CheckpointReply t x \<in> set (replied s')
    \<or> x = Inl GatewayClosed"
proof -
  obtain t s1 where t: "oneshot rt s = (t, s1)" by fastforce
  obtain ok s2 where u: "send rt (Checkpoint t) s1 = (ok, s2)" by fastforce
  obtain w s3 where w: "recv_checkpoint rt t s2 = (w, s3)" by fastforce
  show ?thesis
    using assms t u w oneshot_fresh [OF t] send_queue [OF _ u] checkpoint_queue [OF w]
    by (auto simp: handle_checkpoint_def Let_def split: if_splits option.splits)
qed

end

end
