(* ===== verification/Reference.thy ===== *)
theory Reference
  imports Actor Writer_Live Exactly_Once Gateway
begin

text \<open>
  Concrete instances of the parameters: an executable transactional store that follows the
  documented rules of SQLite for the calls the gateway makes (autocommit, \<open>BEGIN\<close>,
  \<open>COMMIT\<close>, the savepoint stack, \<open>OR ROLLBACK\<close>, \<open>AUTOINCREMENT\<close>, \<open>INSERT OR IGNORE\<close>), a JSON
  codec, and a command queue that delivers its commands in bursts. They show that the
  hypotheses of the theorems hold together, and the witnesses run on them. Nothing here
  models code of the repository.
\<close>

section \<open>The store\<close>

datatype ref_error = Ref_No_Rows | Ref_Error string

fun ref_error_text :: "ref_error \<Rightarrow> string" where
  "ref_error_text Ref_No_Rows = ''Query returned no rows''"
| "ref_error_text (Ref_Error m) = m"

text \<open>
  User statements are kept as rows: each may be executed once with the same parameters, and
  a single parameter must not be null, as if such a column were \<open>NOT NULL\<close> and every row unique.
  A string of several statements and a user's insert into the commit log fail.
\<close>

record ref_db =
  user_rows :: "(string \<times> sql_value list) list"
  commit_rows :: "sql_value list list"
  seq_mark :: int
  request_rows :: "(string \<times> (string \<times> string option)) list"

definition empty_db :: ref_db where
  "empty_db = \<lparr>user_rows = [], commit_rows = [], seq_mark = 0, request_rows = []\<rparr>"

text \<open>\<open>faults\<close> scripts which \<open>BEGIN\<close> and \<open>COMMIT\<close> calls fail; \<open>ticks\<close> is the clock.\<close>

record ref_conn =
  disk :: ref_db
  tx_view :: "ref_db option"
  by_savepoint :: bool
  save_stack :: "(string \<times> ref_db) list"
  last_rowid :: i64
  ticks :: nat
  faults :: "bool list"

definition ref_open :: "bool list \<Rightarrow> ref_conn" where
  "ref_open fs = \<lparr>disk = empty_db, tx_view = None, by_savepoint = False, save_stack = [],
     last_rowid = 0, ticks = 0, faults = fs\<rparr>"

definition cur_view :: "ref_conn \<Rightarrow> ref_db" where
  "cur_view c = (case tx_view c of None \<Rightarrow> disk c | Some v \<Rightarrow> v)"

definition set_view :: "ref_conn \<Rightarrow> ref_db \<Rightarrow> ref_conn" where
  "set_view c v = (case tx_view c of None \<Rightarrow> c\<lparr>disk := v\<rparr> | Some _ \<Rightarrow> c\<lparr>tx_view := Some v\<rparr>)"

definition end_tx :: "ref_conn \<Rightarrow> ref_db \<Rightarrow> ref_conn" where
  "end_tx c v = c\<lparr>disk := v, tx_view := None, by_savepoint := False, save_stack := []\<rparr>"

definition fault_now :: "ref_conn \<Rightarrow> bool" where
  "fault_now c = (case faults c of [] \<Rightarrow> False | b # _ \<Rightarrow> b)"

definition tick :: "ref_conn \<Rightarrow> ref_conn" where
  "tick c = c\<lparr>ticks := ticks c + 7, faults := drop 1 (faults c)\<rparr>"

definition ref_begin :: "ref_conn \<Rightarrow> (ref_error + unit) \<times> ref_conn" where
  "ref_begin c =
     (if tx_view c \<noteq> None then
        (Inl (Ref_Error ''cannot start a transaction within a transaction''), tick c)
      else if fault_now c then (Inl (Ref_Error ''database is locked''), tick c)
      else (Inr (), (tick c)\<lparr>tx_view := Some (disk c), by_savepoint := False, save_stack := []\<rparr>))"

definition ref_commit :: "ref_conn \<Rightarrow> (ref_error + unit) \<times> ref_conn" where
  "ref_commit c =
     (case tx_view c of
        None \<Rightarrow> (Inl (Ref_Error ''cannot commit - no transaction is active''), tick c)
      | Some v \<Rightarrow>
          if fault_now c then (Inl (Ref_Error ''disk I/O error''), end_tx (tick c) (disk c))
          else (Inr (), end_tx (tick c) v))"

definition ref_drop :: "ref_conn \<Rightarrow> ref_conn" where
  "ref_drop c = end_tx c (disk c)"

definition ref_prepare :: "string \<Rightarrow> ref_conn \<Rightarrow> (ref_error + unit) \<times> ref_conn" where
  "ref_prepare s c = (if s = [] then Inl (Ref_Error ''empty statement'') else Inr (), c)"

text \<open>Statements that end the transaction, in the spellings SQLite accepts.\<close>

definition ends_tx :: "string \<Rightarrow> bool" where
  "ends_tx s \<longleftrightarrow> keyword s \<in> {''COMMIT'', ''COMMIT;'', ''END'', ''END;''}"

definition or_rollback :: "string \<Rightarrow> bool" where
  "or_rollback s \<longleftrightarrow> take 18 s = ''INSERT OR ROLLBACK''"

definition many_statements :: "string \<Rightarrow> bool" where
  "many_statements s \<longleftrightarrow> 1 < length (dropWhile (\<lambda>c. c \<noteq> CHR '';'') s)"

definition writes_log :: "string \<Rightarrow> bool" where
  "writes_log s \<longleftrightarrow> take 31 s = ''INSERT INTO squeuelite_commits(''"

definition ref_effect :: "string \<Rightarrow> sql_value list \<Rightarrow> ref_db \<Rightarrow> ref_db option" where
  "ref_effect s ps d =
     (if s = commit_insert_sql then
        (if 0 \<le> seq_mark d \<and> seq_mark d < 2 ^ 63 - 1
         then Some (d\<lparr>commit_rows := ps # commit_rows d, seq_mark := seq_mark d + 1\<rparr>)
         else None)
      else if s = idem_insert_sql then
        (case ps of
           [Text k, Text h, Text j, _] \<Rightarrow>
             Some (if map_of (request_rows d) k = None
                   then d\<lparr>request_rows := (k, (h, Some j)) # request_rows d\<rparr> else d)
         | _ \<Rightarrow> None)
      else if s = [] \<or> many_statements s \<or> writes_log s \<or> ps = [Null] \<or> List.member (user_rows d) (s, ps) then None
      else Some (d\<lparr>user_rows := (s, ps) # user_rows d\<rparr>))"

definition ref_execute :: "string \<Rightarrow> sql_value list \<Rightarrow> ref_conn \<Rightarrow> (ref_error + nat) \<times> ref_conn" where
  "ref_execute s ps c =
     (if ends_tx s then
        (if tx_view c = None
         then (Inl (Ref_Error ''cannot commit - no transaction is active''), c)
         else (Inr 0, end_tx c (cur_view c)))
      else case ref_effect s ps (cur_view c) of
        None \<Rightarrow> (Inl (Ref_Error ''UNIQUE constraint failed''),
                 if or_rollback s then end_tx c (disk c) else c)
      | Some v \<Rightarrow> (Inr 1, (set_view c v)\<lparr>last_rowid :=
                    if s = commit_insert_sql then word_of_int (seq_mark v) else last_rowid c\<rparr>))"

definition ref_query :: "string \<Rightarrow> sql_value list \<Rightarrow> ref_conn \<Rightarrow>
    (ref_error + sql_value list) \<times> ref_conn" where
  "ref_query s ps c =
     (case ps of
        [Text k] \<Rightarrow>
          (case map_of (request_rows (cur_view c)) k of
             None \<Rightarrow> (Inl Ref_No_Rows, c)
           | Some (h, j) \<Rightarrow> (Inr [Text h, opt_text j], c))
      | _ \<Rightarrow> (Inl (Ref_Error ''bad parameters''), c))"

definition ref_get_opt_string :: "sql_value list \<Rightarrow> nat \<Rightarrow> ref_error + string option" where
  "ref_get_opt_string row i =
     (case nth_opt row i of
        Some (Text s) \<Rightarrow> Inr (Some s)
      | Some Null \<Rightarrow> Inr None
      | _ \<Rightarrow> Inl (Ref_Error ''invalid column type''))"

definition ref_get_string :: "sql_value list \<Rightarrow> nat \<Rightarrow> ref_error + string" where
  "ref_get_string row i =
     (case nth_opt row i of
        Some (Text s) \<Rightarrow> Inr s
      | _ \<Rightarrow> Inl (Ref_Error ''invalid column type''))"

text \<open>Savepoints: the innermost one of a name, and what is outside it.\<close>

fun find_save :: "string \<Rightarrow> (string \<times> ref_db) list \<Rightarrow> (ref_db \<times> (string \<times> ref_db) list) option" where
  "find_save n [] = None"
| "find_save n ((m, d) # rest) = (if m = n then Some (d, rest) else find_save n rest)"

definition release_to :: "ref_conn \<Rightarrow> ref_db \<Rightarrow> (string \<times> ref_db) list \<Rightarrow> ref_conn" where
  "release_to c v rest =
     (if by_savepoint c \<and> rest = [] then end_tx c v
      else (set_view c v)\<lparr>save_stack := rest\<rparr>)"

definition ref_savepoint :: "string \<Rightarrow> ref_conn \<Rightarrow> (ref_error + unit) \<times> ref_conn" where
  "ref_savepoint n c =
     (case tx_view c of
        None \<Rightarrow> (Inr (), c\<lparr>tx_view := Some (disk c), by_savepoint := True, save_stack := [(n, disk c)]\<rparr>)
      | Some v \<Rightarrow> (Inr (), c\<lparr>save_stack := (n, v) # save_stack c\<rparr>))"

definition ref_release :: "string \<Rightarrow> bool \<Rightarrow> ref_conn \<Rightarrow> (ref_error + unit) \<times> ref_conn" where
  "ref_release n undo c =
     (case find_save n (save_stack c) of
        None \<Rightarrow> (Inl (Ref_Error (''no such savepoint: '' @ n)), c)
      | Some (d, rest) \<Rightarrow> (Inr (), release_to c (if undo then d else cur_view c) rest))"

definition ref_batch :: "string \<Rightarrow> ref_conn \<Rightarrow> (ref_error + unit) \<times> ref_conn" where
  "ref_batch s c =
     (if take 10 s = ''SAVEPOINT '' then ref_savepoint (butlast (drop 10 s)) c
      else if take 8 s = ''RELEASE '' then ref_release (butlast (drop 8 s)) False c
      else if take 12 s = ''ROLLBACK TO '' then
        ref_release (take ((length s - 23) div 2) (drop 12 s)) True c
      else (Inr (), c))"

definition ref_driver :: "(ref_conn, ref_error) driver" where
  "ref_driver =
     \<lparr>err_to_string = ref_error_text,
      is_no_rows = (\<lambda>e. e = Ref_No_Rows),
      conn_open = (\<lambda>p. Inr (ref_open [])),
      begin_immediate = ref_begin,
      commit_tx = ref_commit,
      drop_tx = ref_drop,
      prepare_cached = ref_prepare,
      stmt_execute = ref_execute,
      query_row = ref_query,
      get_string = ref_get_string,
      get_opt_string = ref_get_opt_string,
      execute_batch = ref_batch,
      last_insert_rowid = last_rowid,
      pragma_update = (\<lambda>k v c. (Inr (), c)),
      pragma_update_and_check = (\<lambda>k v c. (Inr [v], c)),
      busy_timeout = (\<lambda>ms c. (Inr (), c)),
      clock_micros = ticks\<rparr>"

definition ref_reading :: "(ref_conn, ref_db) reading" where
  "ref_reading =
     \<lparr>idle = (\<lambda>c. tx_view c = None),
      in_tx = (\<lambda>c. tx_view c \<noteq> None \<and> \<not> by_savepoint c),
      durable = disk,
      view = cur_view,
      savepoints = save_stack,
      plain = (\<lambda>s. \<not> internal_sql s \<and> \<not> ends_tx s \<and> \<not> or_rollback s),
      effect = ref_effect,
      stored = (\<lambda>d. map_of (request_rows d)),
      max_seq = seq_mark\<rparr>"

section \<open>The store obeys the laws\<close>

lemma find_save_hd [simp]: "find_save n ((n, d) # rest) = Some (d, rest)"
  by simp

lemma ref_batch_savepoint: "ref_batch (savepoint_sql n) c = ref_savepoint n c"
  by (simp add: ref_batch_def savepoint_sql_def butlast_append)

lemma ref_batch_release: "ref_batch (release_sql n) c = ref_release n False c"
  by (simp add: ref_batch_def release_sql_def butlast_append)

lemma ref_batch_rollback: "ref_batch (rollback_release_sql n) c = ref_release n True c"
  by (simp add: ref_batch_def rollback_release_sql_def)

lemma ref_batch_checkpoint: "ref_batch checkpoint_sql c = (Inr (), c)"
  by (simp add: ref_batch_def checkpoint_sql_def)

lemma internal_not_ends_tx: "internal_sql s \<Longrightarrow> \<not> ends_tx s \<and> \<not> or_rollback s"
proof -
  have "keyword commit_insert_sql = ''INSERT'' \<and> keyword idem_insert_sql = ''INSERT''"
    by code_simp
  then show "internal_sql s \<Longrightarrow> \<not> ends_tx s \<and> \<not> or_rollback s"
    by (auto simp: internal_sql_def ends_tx_def or_rollback_def)
      (simp_all add: commit_insert_sql_def idem_insert_sql_def)
qed

lemmas ref_driver_sel = ref_driver_def driver.simps
lemmas ref_reading_sel = ref_reading_def reading.simps

lemma commit_idem_sql_neq: "commit_insert_sql \<noteq> idem_insert_sql"
  by (simp add: commit_insert_sql_def idem_insert_sql_def)

lemma ref_effect_idem:
  assumes "ref_effect idem_insert_sql [Text k, Text h, Text j, v] d = Some d'"
  shows "map_of (request_rows d') = (if map_of (request_rows d) k = None
    then (map_of (request_rows d))(k \<mapsto> (h, Some j)) else map_of (request_rows d))"
  using assms commit_idem_sql_neq by (auto simp: ref_effect_def split: if_splits)

lemma ref_effect_seq:
  "ref_effect commit_insert_sql ps d = Some d' \<Longrightarrow>
     seq_mark d' = seq_mark d + 1 \<and> 0 \<le> seq_mark d \<and> seq_mark d < 2 ^ 63 - 1"
  by (auto simp: ref_effect_def split: if_splits)

lemma ref_effect_other:
  "s \<noteq> idem_insert_sql \<Longrightarrow> ref_effect s ps d = Some d' \<Longrightarrow> request_rows d' = request_rows d"
  "s \<noteq> commit_insert_sql \<Longrightarrow> ref_effect s ps d = Some d' \<Longrightarrow> seq_mark d' = seq_mark d"
  by (auto simp: ref_effect_def split: if_splits list.splits sql_value.splits)

lemma ref_execute_in_tx:
  assumes "tx_view c = Some v" and "\<not> ends_tx s"
  shows "ref_execute s ps c = (case ref_effect s ps v of
      None \<Rightarrow> (Inl (Ref_Error ''UNIQUE constraint failed''), if or_rollback s then end_tx c (disk c) else c)
    | Some v' \<Rightarrow> (Inr 1, c\<lparr>tx_view := Some v', last_rowid :=
          if s = commit_insert_sql then word_of_int (seq_mark v') else last_rowid c\<rparr>))"
  using assms by (auto simp: ref_execute_def cur_view_def set_view_def split: option.splits)

section \<open>A JSON codec\<close>

text \<open>
  A prefix encoding with an inverse: characters of a string are prefixed by a dot, a
  newline is escaped, and the string is closed by a semicolon; numbers are 64-bit words in decimal.
\<close>

definition enc_str :: "string \<Rightarrow> string" where
  "enc_str s = concat (map (\<lambda>c. if byte c = 10 then ''!'' else [CHR ''.'', c]) s) @ '';''"

fun dec_str :: "string \<Rightarrow> (string \<times> string) option" where
  "dec_str (c # d # r) =
     (if c = CHR '';'' then Some ([], d # r)
      else if c = CHR ''!'' then map_option (\<lambda>(s, z). (char_of (10 :: nat) # s, z)) (dec_str (d # r))
      else if c = CHR ''.'' then map_option (\<lambda>(s, z). (d # s, z)) (dec_str r) else None)"
| "dec_str [c] = (if c = CHR '';'' then Some ([], []) else None)"
| "dec_str [] = None"

lemma dec_enc_str: "dec_str (enc_str s @ r) = Some (s, r)"
proof (induction s)
  case Nil
  then show ?case by (cases r) (simp_all add: enc_str_def)
next
  case (Cons c s)
  show ?case
  proof (cases "byte c = 10")
    case True
    then have c: "c = char_of (10 :: nat)" by (metis char_of_byte)
    have "enc_str s @ r \<noteq> []" by (simp add: enc_str_def)
    then obtain d z where "enc_str s @ r = d # z" by (cases "enc_str s @ r") blast+
    moreover from this Cons have "dec_str (CHR ''!'' # d # z) = Some (c # s, r)" using c by simp
    moreover have "enc_str (c # s) = CHR ''!'' # enc_str s" using True by (simp add: enc_str_def)
    ultimately show ?thesis by simp
  next
    case False
    then have "enc_str (c # s) = CHR ''.'' # c # enc_str s" by (simp add: enc_str_def)
    then show ?thesis using Cons by simp
  qed
qed

fun enc :: "u64 json \<Rightarrow> string" where
  "enc JNull = ''n''"
| "enc (JBool b) = (if b then ''t'' else ''f'')"
| "enc (JNumber w) = ''i'' @ enc_str (nat_to_string (unat w))"
| "enc (JString s) = ''s'' @ enc_str s"
| "enc (JArray vs) = ''['' @ concat (map enc vs) @ '']''"
| "enc (JObject kvs) = ''{'' @ concat (map (\<lambda>(k, v). enc_str k @ enc v) kvs) @ ''}''"

fun dec :: "nat \<Rightarrow> string \<Rightarrow> (u64 json \<times> string) option"
  and dec_list :: "nat \<Rightarrow> string \<Rightarrow> (u64 json list \<times> string) option"
  and dec_entries :: "nat \<Rightarrow> string \<Rightarrow> ((string \<times> u64 json) list \<times> string) option" where
  "dec (Suc n) (c # r) =
     (if c = CHR ''n'' then Some (JNull, r)
      else if c = CHR ''t'' then Some (JBool True, r)
      else if c = CHR ''f'' then Some (JBool False, r)
      else if c = CHR ''i'' then
        map_option (\<lambda>(s, z). (JNumber (of_nat (digits_value 0 s)), z)) (dec_str r)
      else if c = CHR ''s'' then map_option (\<lambda>(s, z). (JString s, z)) (dec_str r)
      else if c = CHR ''['' then map_option (\<lambda>(vs, z). (JArray vs, z)) (dec_list n r)
      else if c = CHR ''{'' then map_option (\<lambda>(vs, z). (JObject vs, z)) (dec_entries n r)
      else None)"
| "dec _ _ = None"
| "dec_list (Suc n) (c # r) =
     (if c = CHR '']'' then Some ([], r)
      else case dec n (c # r) of None \<Rightarrow> None
        | Some (v, r1) \<Rightarrow> map_option (\<lambda>(vs, z). (v # vs, z)) (dec_list n r1))"
| "dec_list _ _ = None"
| "dec_entries (Suc n) (c # r) =
     (if c = CHR ''}'' then Some ([], r)
      else case dec_str (c # r) of None \<Rightarrow> None
        | Some (k, r1) \<Rightarrow>
          (case dec n r1 of None \<Rightarrow> None
           | Some (v, r2) \<Rightarrow> map_option (\<lambda>(vs, z). ((k, v) # vs, z)) (dec_entries n r2)))"
| "dec_entries _ _ = None"

lemma enc_hd: "\<exists>c z. enc v = c # z \<and> c \<noteq> CHR '']''"
  by (cases v) auto

lemma enc_str_hd: "\<exists>c z. enc_str k = c # z \<and> c \<noteq> CHR ''}''"
  by (cases k) (auto simp: enc_str_def)

lemma dec_list_enc:
  assumes "\<And>v n r. v \<in> set vs \<Longrightarrow> length (enc v) \<le> n \<Longrightarrow> dec n (enc v @ r) = Some (v, r)"
    and "length (concat (map enc vs)) < n"
  shows "dec_list n (concat (map enc vs) @ CHR '']'' # r) = Some (vs, r)"
  using assms
proof (induction vs arbitrary: n)
  case Nil
  then show ?case by (cases n) auto
next
  case (Cons v vs)
  then obtain m where n: "n = Suc m" by (cases n) auto
  obtain c z where c: "enc v = c # z" "c \<noteq> CHR '']''" using enc_hd by blast
  have "dec m (enc v @ concat (map enc vs) @ CHR '']'' # r)
      = Some (v, concat (map enc vs) @ CHR '']'' # r)"
    using Cons.prems n by simp
  moreover have "dec_list m (concat (map enc vs) @ CHR '']'' # r) = Some (vs, r)"
    using Cons.IH [of m] Cons.prems n c by simp
  ultimately show ?case using n c by simp
qed

lemma dec_entries_enc:
  assumes "\<And>k v n r. (k, v) \<in> set kvs \<Longrightarrow> length (enc v) \<le> n \<Longrightarrow> dec n (enc v @ r) = Some (v, r)"
    and "length (concat (map (\<lambda>(k, v). enc_str k @ enc v) kvs)) < n"
  shows "dec_entries n (concat (map (\<lambda>(k, v). enc_str k @ enc v) kvs) @ CHR ''}'' # r) = Some (kvs, r)"
  using assms
proof (induction kvs arbitrary: n)
  case Nil
  then show ?case by (cases n) auto
next
  case (Cons kv kvs)
  obtain k v where kv: "kv = (k, v)" by fastforce
  obtain m where n: "n = Suc m" using Cons.prems(2) by (cases n) auto
  obtain c z where c: "enc_str k = c # z" "c \<noteq> CHR ''}''" using enc_str_hd by blast
  let ?rest = "concat (map (\<lambda>(k, v). enc_str k @ enc v) kvs) @ CHR ''}'' # r"
  have "dec m (enc v @ ?rest) = Some (v, ?rest)"
    by (rule Cons.prems(1) [of k]) (use Cons.prems(2) n kv in simp_all)
  moreover have "dec_entries m ?rest = Some (kvs, r)"
  proof (rule Cons.IH)
    show "dec i (enc y @ z) = Some (y, z)" if "(x, y) \<in> set kvs" and "length (enc y) \<le> i" for x y i z
      by (rule Cons.prems(1) [of x]) (use that in simp_all)
    show "length (concat (map (\<lambda>(k, v). enc_str k @ enc v) kvs)) < m"
      using Cons.prems(2) n c kv by simp
  qed
  moreover have "dec_str (c # z @ enc v @ ?rest) = Some (k, enc v @ ?rest)"
    using dec_enc_str [of k "enc v @ ?rest"] c by simp
  ultimately show ?case using n c kv by simp
qed

lemma dec_enc: "length (enc v) \<le> n \<Longrightarrow> dec n (enc v @ r) = Some (v, r)"
proof (induction v arbitrary: n r)
  case JNull
  then show ?case by (cases n) simp_all
next
  case (JBool b)
  then show ?case by (cases n; cases b) simp_all
next
  case (JNumber w)
  then obtain m where "n = Suc m" by (cases n) auto
  then show ?case by (simp add: dec_enc_str digits_value_nat_to_string)
next
  case (JString s)
  then obtain m where "n = Suc m" by (cases n) auto
  then show ?case by (simp add: dec_enc_str)
next
  case (JArray vs)
  then obtain m where n: "n = Suc m" by (cases n) auto
  have "dec_list m (concat (map enc vs) @ CHR '']'' # r) = Some (vs, r)"
    by (rule dec_list_enc) (use JArray n in auto)
  with n show ?case by simp
next
  case (JObject kvs)
  then obtain m where n: "n = Suc m" by (cases n) auto
  have "dec_entries m (concat (map (\<lambda>(k, v). enc_str k @ enc v) kvs) @ CHR ''}'' # r) = Some (kvs, r)"
    by (rule dec_entries_enc) (use JObject n in \<open>auto simp: snds.simps\<close>)
  with n show ?case by simp
qed

definition ref_serde :: "u64 serde" where
  "ref_serde =
     \<lparr>as_i64 = Some, as_u64 = Some, as_f64 = (\<lambda>_. None), num_to_string = (\<lambda>n. nat_to_string (unat n)),
      num_of_i64 = id, num_of_u64 = id, num_of_f64 = Some,
      to_text = (\<lambda>v. Inr (enc v)),
      from_text = (\<lambda>t. case dec (length t) t of Some (v, []) \<Rightarrow> Inr (sort_keys v) | _ \<Rightarrow> Inl ''invalid JSON''),
      value_error = (\<lambda>_ _. ''invalid type'')\<rparr>"

lemma ref_serde_sel [simp]:
  "as_i64 ref_serde = Some" "num_of_i64 ref_serde = id" "to_text ref_serde v = Inr (enc v)"
  "as_u64 ref_serde = Some" "num_of_u64 ref_serde = id"
  by (simp_all add: ref_serde_def)

lemma ref_from_to_text: "from_text ref_serde (enc v) = Inr (sort_keys v)"
  using dec_enc [of v "length (enc v)" "[]"] by (simp add: ref_serde_def)

lemma enc_inject: "enc v = enc v' \<longleftrightarrow> v = v'"
proof
  assume "enc v = enc v'"
  then show "v = v'"
    using dec_enc [of v "length (enc v)" "[]"] dec_enc [of v' "length (enc v)" "[]"] by simp
qed simp

lemma enc_str_one_line: "c \<in> set (enc_str s) \<Longrightarrow> byte c \<noteq> 10"
  by (auto simp: enc_str_def byte_def split: if_splits)

lemma enc_one_line: "c \<in> set (enc v) \<Longrightarrow> byte c \<noteq> 10"
proof (induction v)
  case JNull
  then show ?case by (auto simp: byte_def)
next
  case (JBool b)
  then show ?case by (cases b) (auto simp: byte_def)
next
  case (JNumber w)
  then show ?case using enc_str_one_line by (auto simp: byte_def)
next
  case (JString s)
  then show ?case using enc_str_one_line by (auto simp: byte_def)
next
  case (JArray vs)
  then show ?case by (auto simp: byte_def)
next
  case (JObject kvs)
  then show ?case using enc_str_one_line by (fastforce simp: byte_def snds.simps)
qed

interpretation ref_text: json_text ref_serde
  by unfold_locales (auto simp: ref_from_to_text enc_inject dest: enc_one_line)

text \<open>Base64 with the standard alphabet and padding.\<close>

definition b64_digit :: "char \<Rightarrow> nat option" where
  "b64_digit c = (let n = byte c in
     if 65 \<le> n \<and> n \<le> 90 then Some (n - 65)
     else if 97 \<le> n \<and> n \<le> 122 then Some (n - 71)
     else if 48 \<le> n \<and> n \<le> 57 then Some (n + 4)
     else if n = 43 then Some 62 else if n = 47 then Some 63 else None)"

definition b64_bytes :: "nat \<Rightarrow> nat \<Rightarrow> nat \<Rightarrow> nat \<Rightarrow> u8 list" where
  "b64_bytes a b c d =
     [of_nat (4 * a + b div 16), of_nat (16 * (b mod 16) + c div 4), of_nat (64 * (c mod 4) + d)]"

fun ref_b64 :: b64_decoder where
  "ref_b64 [] = Inr []"
| "ref_b64 [a, b, c, CHR ''=''] =
     (case (b64_digit a, b64_digit b, if c = CHR ''='' then Some 64 else b64_digit c) of
        (Some x, Some y, Some z) \<Rightarrow>
          if z = 64 then (if y mod 16 = 0 then Inr (take 1 (b64_bytes x y 0 0)) else Inl ''Invalid last symbol'')
          else if z mod 4 = 0 then Inr (take 2 (b64_bytes x y z 0)) else Inl ''Invalid last symbol''
      | _ \<Rightarrow> Inl ''Invalid symbol'')"
| "ref_b64 (a # b # c # d # s) =
     (case (b64_digit a, b64_digit b, b64_digit c, b64_digit d) of
        (Some x, Some y, Some z, Some u) \<Rightarrow> map_sum id ((@) (b64_bytes x y z u)) (ref_b64 s)
      | _ \<Rightarrow> Inl ''Invalid symbol'')"
| "ref_b64 s = Inl ''Invalid padding''"

definition ref_env :: "(u64, ref_conn, ref_error) env" where
  "ref_env = \<lparr>serde = ref_serde, b64 = ref_b64, drv = ref_driver\<rparr>"

lemma ref_env_sel [simp]:
  "serde ref_env = ref_serde" "b64 ref_env = ref_b64" "drv ref_env = ref_driver"
  by (simp_all add: ref_env_def)

section \<open>The instances\<close>

lemma ref_reading_effect_view:
  assumes "in_tx ref_reading c"
  obtains v where "tx_view c = Some v" and "\<not> by_savepoint c" and "cur_view c = v"
  using assms by (auto simp: ref_reading_sel cur_view_def)

lemma ref_execute_ok:
  assumes "in_tx ref_reading c" and "plain ref_reading s \<or> internal_sql s"
    and "ref_execute s ps c = (Inr n, c')"
  shows "tx_step ref_reading c c' \<and> ref_effect s ps (cur_view c) = Some (cur_view c')"
    and "s = commit_insert_sql \<Longrightarrow> sint (last_rowid c') = seq_mark (cur_view c')"
proof -
  obtain v where v: "tx_view c = Some v" "\<not> by_savepoint c" "cur_view c = v"
    using ref_reading_effect_view [OF assms(1)] by blast
  have "\<not> ends_tx s" using assms(2) internal_not_ends_tx by (auto simp: ref_reading_sel)
  note ex = ref_execute_in_tx [OF v(1) this, of ps, unfolded assms(3)]
  then obtain v' where v': "ref_effect s ps v = Some v'"
    and c': "c' = c\<lparr>tx_view := Some v', last_rowid :=
          if s = commit_insert_sql then word_of_int (seq_mark v') else last_rowid c\<rparr>"
    by (cases "ref_effect s ps v") auto
  then show "tx_step ref_reading c c' \<and> ref_effect s ps (cur_view c) = Some (cur_view c')"
    using v by (simp add: tx_step_def ref_reading_sel cur_view_def)
  show "sint (last_rowid c') = seq_mark (cur_view c')" if "s = commit_insert_sql"
  proof -
    have "seq_mark v' = seq_mark v + 1 \<and> 0 \<le> seq_mark v \<and> seq_mark v < 2 ^ 63 - 1"
      using ref_effect_seq v' that by blast
    then have "sint (word_of_int (seq_mark v') :: i64) = seq_mark v'"
      unfolding sint_sbintrunc' by (intro signed_take_bit_int_eq_self) simp_all
    then show ?thesis using c' that by (simp add: cur_view_def)
  qed
qed

lemma ref_execute_err:
  assumes "in_tx ref_reading c" and "plain ref_reading s \<or> internal_sql s"
    and "ref_execute s ps c = (Inl e, c')"
  shows "same_reading ref_reading c c'"
proof -
  obtain v where v: "tx_view c = Some v" "cur_view c = v"
    using ref_reading_effect_view [OF assms(1)] by blast
  have s: "\<not> ends_tx s" "\<not> or_rollback s"
    using assms(2) internal_not_ends_tx by (auto simp: ref_reading_sel)
  from ref_execute_in_tx [OF v(1) s(1), of ps, unfolded assms(3)] s(2) have "c' = c"
    by (cases "ref_effect s ps v") auto
  then show ?thesis by simp
qed

lemmas ref_law_simps =
  ref_driver_sel ref_reading_sel same_reading_def cur_view_def tick_def end_tx_def
  ref_begin_def ref_commit_def ref_drop_def ref_prepare_def ref_query_def
  ref_get_string_def ref_get_opt_string_def ref_savepoint_def ref_release_def
  release_to_def set_view_def ref_batch_savepoint ref_batch_release ref_batch_rollback
  ref_batch_checkpoint

lemma ref_query_found:
  assumes "ref_query s [Text k] c = (Inr row, c')" and "ref_get_string row 0 = Inr h"
    and "ref_get_opt_string row 1 = Inr js"
  shows "map_of (request_rows (cur_view c)) k = Some (h, js)"
proof -
  obtain h' j' where f: "map_of (request_rows (cur_view c)) k = Some (h', j')"
    using assms(1) by (auto simp: ref_query_def split: option.splits)
  with assms show ?thesis
    by (cases j') (auto simp: ref_query_def ref_get_string_def ref_get_opt_string_def nth_opt_def
        split: option.splits)
qed

interpretation ref_db: gateway_db ref_env ref_reading
proof (unfold_locales, goal_cases)
  case (9 k c row c' h js)
  then show ?case using ref_query_found [of idem_select_sql k c row c' h js]
    by (simp add: ref_driver_sel ref_reading_sel)
next
  case (13 c s ps n c')
  then show ?case using ref_execute_ok(1) [of c s ps n c']
    by (simp add: ref_driver_sel) (simp add: ref_reading_sel)
next
  case (14 c s ps e c')
  then show ?case using ref_execute_err [of c s ps e c'] by (simp add: ref_driver_sel)
next
  case (21 s ps d d')
  then show ?case using ref_effect_other(1) [of s ps d d'] commit_idem_sql_neq
    by (auto simp: ref_reading_sel internal_sql_def)
next
  case (22 s ps d d')
  then show ?case using ref_effect_other(2) [of s ps d d'] commit_idem_sql_neq
    by (auto simp: ref_reading_sel internal_sql_def)
next
  case (23 k h j v d d')
  then show ?case using ref_effect_idem [of k h j v d d'] by (simp add: ref_reading_sel)
next
  case (24 ps d d')
  then show ?case using ref_effect_seq [of ps d d'] by (simp add: ref_reading_sel)
next
  case (25 c ps n c')
  then show ?case using ref_execute_ok(2) [of c commit_insert_sql ps n c']
    by (simp add: ref_driver_sel internal_sql_def) (simp add: ref_reading_sel)
next
qed (auto simp: ref_law_simps split: if_splits option.splits list.splits sql_value.splits prod.splits)

text \<open>A store without scripted faults is healthy.\<close>

definition ref_healthy :: "ref_conn \<Rightarrow> bool" where
  "ref_healthy c \<longleftrightarrow> list_all Not (faults c)"

lemma ref_healthy_simps [simp]:
  "ref_healthy (tick c) \<longleftrightarrow> list_all Not (drop 1 (faults c))"
  "ref_healthy (end_tx c v) = ref_healthy c"
  "ref_healthy (set_view c v) = ref_healthy c"
  "ref_healthy (c\<lparr>tx_view := t\<rparr>) = ref_healthy c"
  "ref_healthy (c\<lparr>by_savepoint := b\<rparr>) = ref_healthy c"
  "ref_healthy (c\<lparr>save_stack := st\<rparr>) = ref_healthy c"
  "ref_healthy (c\<lparr>last_rowid := i\<rparr>) = ref_healthy c"
  by (auto simp: ref_healthy_def tick_def end_tx_def set_view_def split: option.splits)

lemma ref_healthy_no_fault: "ref_healthy c \<Longrightarrow> \<not> fault_now c \<and> list_all Not (drop 1 (faults c))"
  by (cases "faults c") (simp_all add: ref_healthy_def fault_now_def)

lemma ref_execute_healthy: "ref_execute s ps c = (q, c') \<Longrightarrow> ref_healthy c \<Longrightarrow> ref_healthy c'"
  by (auto simp: ref_execute_def split: if_splits option.splits)

lemma ref_effect_nonempty: "ref_effect s ps d = Some d' \<Longrightarrow> s \<noteq> []"
  by (auto simp: ref_effect_def commit_insert_sql_def idem_insert_sql_def split: if_splits)

interpretation ref_live: live_db ref_env ref_reading ref_healthy
proof (unfold_locales, goal_cases)
  case (5 c s r c' ps d)
  then show ?case using ref_effect_nonempty
    by (auto simp: ref_driver_sel ref_reading_sel ref_prepare_def idem_select_sql_def)
next
  case (6 c s ps q c')
  then show ?case using ref_execute_healthy by (simp add: ref_driver_sel)
next
  case (7 c s ps q c' d)
  then show ?case
    by (auto simp: ref_driver_sel ref_reading_sel ref_execute_def split: if_splits)
next
  case (11 c k q c')
  then show ?case
    by (auto simp: ref_driver_sel ref_query_def ref_get_string_def ref_get_opt_string_def nth_opt_def
        split: option.splits; case_tac b; simp)
qed (auto simp: ref_driver_sel ref_reading_sel ref_begin_def ref_commit_def ref_drop_def
    ref_prepare_def ref_batch_savepoint ref_batch_release ref_batch_rollback ref_savepoint_def
    ref_release_def release_to_def
    dest!: ref_healthy_no_fault split: if_splits option.splits)

section \<open>The queue\<close>

text \<open>
  Commands arrive in bursts: a non-blocking receive sees the rest of the current burst, a
  blocking one waits for the next.
\<close>

fun burst_recv :: "'n command list list \<Rightarrow> 'n command option \<times> 'n command list list" where
  "burst_recv [] = (None, [])"
| "burst_recv ([] # bs) = burst_recv bs"
| "burst_recv ((c # cs) # bs) = (Some c, cs # bs)"

fun burst_try :: "'n command list list \<Rightarrow> 'n command option \<times> 'n command list list" where
  "burst_try [] = (None, [])"
| "burst_try ([] # bs) = (None, [] # bs)"
| "burst_try ((c # cs) # bs) = (Some c, cs # bs)"

definition burst_rx :: "('n, 'n command list list) receiver" where
  "burst_rx = \<lparr>blocking_recv = burst_recv, try_recv = burst_try\<rparr>"

lemma burst_recv_pending:
  "burst_recv q = (r, q') \<Longrightarrow>
     (case r of None \<Rightarrow> concat q = [] \<and> concat q' = [] | Some c \<Rightarrow> concat q = c # concat q')"
  by (induction q rule: burst_recv.induct) (auto split: option.splits)

lemma burst_try_pending:
  "burst_try q = (r, q') \<Longrightarrow>
     (case r of None \<Rightarrow> concat q' = concat q | Some c \<Rightarrow> concat q = c # concat q')"
  by (cases q rule: burst_try.cases) auto

interpretation ref_loop: gateway_loop ref_env ref_reading burst_rx concat
proof (unfold_locales, goal_cases)
  case (1 q cmd q')
  then show ?case using burst_recv_pending [of q "Some cmd" q'] by (simp add: burst_rx_def)
next
  case (2 q q')
  then show ?case using burst_recv_pending [of q None q'] by (simp add: burst_rx_def)
next
  case (3 q cmd q')
  then show ?case using burst_try_pending [of q "Some cmd" q'] by (simp add: burst_rx_def)
next
  case (4 q q')
  then show ?case using burst_try_pending [of q None q'] by (simp add: burst_rx_def)
qed

section \<open>The runtime\<close>

text \<open>
  One caller and one writer thread: the thread works off the queue when the caller waits.
\<close>

record ref_net =
  net_writer :: "ref_conn writer"
  net_queue :: "u64 command list"
  net_sent :: "u64 command list"
  net_replies :: "ref_error reply list"
  net_closed :: bool
  net_cap :: nat

fun pump :: "ref_conn writer \<Rightarrow> u64 command list \<Rightarrow> bool \<times> ref_error reply list \<times> ref_conn writer" where
  "pump w [] = (False, [], w)"
| "pump w (c # cs) =
     (case handle_alone ref_env w c of
        (True, rs, w1) \<Rightarrow> (True, rs, w1)
      | (False, rs, w1) \<Rightarrow> (case pump w1 cs of (stop, rs', w2) \<Rightarrow> (stop, rs @ rs', w2)))"

definition net_run :: "ref_net \<Rightarrow> ref_net" where
  "net_run s =
     (case pump (net_writer s) (net_queue s) of
        (stop, rs, w) \<Rightarrow> s\<lparr>net_writer := w, net_queue := [], net_replies := net_replies s @ rs,
          net_closed := net_closed s \<or> stop\<rparr>)"

definition net_push :: "u64 command \<Rightarrow> ref_net \<Rightarrow> ref_net" where
  "net_push cmd s = s\<lparr>net_queue := net_queue s @ [cmd], net_sent := net_sent s @ [cmd]\<rparr>"

definition net_send :: "u64 command \<Rightarrow> ref_net \<Rightarrow> bool \<times> ref_net" where
  "net_send cmd s =
     (let s1 = (if length (net_queue s) < net_cap s then s else net_run s) in
      if net_closed s1 then (False, s1) else (True, net_push cmd s1))"

definition net_try_send :: "u64 command \<Rightarrow> ref_net \<Rightarrow> try_send_result \<times> ref_net" where
  "net_try_send cmd s =
     (if net_closed s then (Queue_Closed, s)
      else if length (net_queue s) < net_cap s then (Sent, net_push cmd s)
      else (Queue_Full, s))"

definition net_send_timeout :: "u64 \<Rightarrow> u64 command \<Rightarrow> ref_net \<Rightarrow> bool option \<times> ref_net" where
  "net_send_timeout ms cmd s =
     (if ms = 0 \<and> \<not> length (net_queue s) < net_cap s then (None, s)
      else map_prod Some id (net_send cmd s))"

definition net_oneshot :: "ref_net \<Rightarrow> slot \<times> ref_net" where
  "net_oneshot s = (Suc (sum_list (List.map_filter command_slot (net_sent s))), s)"

fun find_write :: "slot \<Rightarrow> 'e reply list \<Rightarrow> write_response option" where
  "find_write t [] = None"
| "find_write t (WriteReply u x # rs) = (if u = t then Some x else find_write t rs)"
| "find_write t (CheckpointReply u x # rs) = find_write t rs"

fun find_checkpoint :: "slot \<Rightarrow> 'e reply list \<Rightarrow> ('e error + unit) option" where
  "find_checkpoint t [] = None"
| "find_checkpoint t (WriteReply u x # rs) = find_checkpoint t rs"
| "find_checkpoint t (CheckpointReply u x # rs) = (if u = t then Some x else find_checkpoint t rs)"

definition ref_runtime :: "(u64, ref_conn, ref_error, ref_net) runtime" where
  "ref_runtime =
     \<lparr>channel_ok = (\<lambda>n. 0 < n),
      spawn_writer = (\<lambda>n w. \<lparr>net_writer = w, net_queue = [], net_sent = [], net_replies = [],
        net_closed = False, net_cap = n\<rparr>),
      oneshot = net_oneshot, send = net_send, try_send = net_try_send,
      send_timeout = net_send_timeout,
      recv_write = (\<lambda>t s. let s1 = net_run s in (find_write t (net_replies s1), s1)),
      recv_checkpoint = (\<lambda>t s. let s1 = net_run s in (find_checkpoint t (net_replies s1), s1)),
      chan_max_capacity = net_cap,
      chan_capacity = (\<lambda>s. net_cap s - length (net_queue s)),
      shared_latency = (\<lambda>s. w_latency_buf (net_writer s)),
      join_writer = (\<lambda>s. (True, net_run s)),
      uuid_now_v7 = (\<lambda>s. (''0190c0de-0000-7000-8000-000000000000'', s)),
      file_len = (\<lambda>p s. None)\<rparr>"

lemma net_run_sent [simp]: "net_sent (net_run s) = net_sent s"
  by (simp add: net_run_def split: prod.splits)

lemma on_slot_push:
  "command_slot cmd = Some t \<Longrightarrow> on_slot t (net_sent (net_push cmd s)) = on_slot t (net_sent s) @ [cmd]"
  by (simp add: on_slot_def net_push_def)

lemma net_send_queue:
  assumes "command_slot cmd = Some t" and "net_send cmd s = (ok, s')"
  shows "on_slot t (net_sent s') = on_slot t (net_sent s) @ (if ok then [cmd] else [])"
  using assms by (auto simp: net_send_def Let_def on_slot_push split: if_splits)

lemma find_write_in: "find_write t rs = Some x \<Longrightarrow> WriteReply t x \<in> set rs"
  by (induction t rs rule: find_write.induct) (auto split: if_splits)

lemma find_checkpoint_in: "find_checkpoint t rs = Some x \<Longrightarrow> CheckpointReply t x \<in> set rs"
  by (induction t rs rule: find_checkpoint.induct) (auto split: if_splits)

lemma slot_le_sum: "c \<in> set cmds \<Longrightarrow> command_slot c = Some t \<Longrightarrow>
    t \<le> sum_list (List.map_filter command_slot cmds)"
  by (induction cmds) (auto simp: List.map_filter_simps split: option.splits)

lemma net_oneshot_fresh: "net_oneshot s = (t, s') \<Longrightarrow> on_slot t (net_sent s') = []"
  using slot_le_sum by (fastforce simp: net_oneshot_def on_slot_def filter_empty_conv)

interpretation ref_queue: command_queue ref_runtime net_sent net_replies
proof (unfold_locales, goal_cases)
  case (1 s t s')
  then show ?case by (simp add: ref_runtime_def net_oneshot_fresh)
next
  case (2 cmd t s ok s')
  then show ?case using net_send_queue [of cmd t s ok s'] by (simp add: ref_runtime_def)
next
  case (3 cmd t s x s')
  then show ?case by (auto simp: ref_runtime_def net_try_send_def on_slot_push split: if_splits)
next
  case (4 cmd t ms s y s')
  then show ?case using net_send_queue [of cmd t s _ s']
    by (cases "net_send cmd s") (auto simp: ref_runtime_def net_send_timeout_def split: if_splits)
next
  case (5 t s resp s')
  then show ?case by (auto simp: ref_runtime_def Let_def find_write_in)
next
  case (6 t s res s')
  then show ?case by (auto simp: ref_runtime_def Let_def find_checkpoint_in)
qed

section \<open>Sample data\<close>

definition sample_request :: "string \<Rightarrow> string option \<Rightarrow> string list \<Rightarrow> u64 write_request" where
  "sample_request i key statements =
     \<lparr>rq_request_id = i, rq_actor_id = ''agent'', rq_run_id = None, rq_idempotency_key = key,
      rq_operations = map (\<lambda>s. \<lparr>sql = s, params = []\<rparr>) statements\<rparr>"

definition sample_writer :: "bool \<Rightarrow> bool \<Rightarrow> bool list \<Rightarrow> ref_conn writer" where
  "sample_writer track_commits idempotency fs =
     new_writer (ref_open fs) track_commits idempotency (gateway_config_new ''app.db'') new_latency_buffer"

lemma ref_durable: "durable ref_reading = disk"
  by (simp add: ref_reading_def)

lemma sample_writer_sel:
  "w_config (sample_writer t i fs) = gateway_config_new ''app.db''" "w_track_commits (sample_writer t i fs) = t"
  "w_idempotency (sample_writer t i fs) = i" "w_conn (sample_writer t i fs) = ref_open fs"
  "disk (ref_open fs) = empty_db"
  by (simp_all add: sample_writer_def new_writer_def ref_open_def)

interpretation ref_texts: text_db ref_env ref_reading
  by (rule text_db.intro) (simp_all add: ref_db.gateway_db_axioms ref_text.json_text_axioms)

end
