(* ===== verification/Value_Theorems.thy ===== *)
theory Value_Theorems
  imports Reference
begin

text \<open>
  The properties of the writer's parts that need no database: the statement guard, the
  parameter conversion, the latency buffer and the JSON form of a response.
\<close>

section \<open>The statement guard\<close>

text \<open>Every configuration refuses a statement whose first word is a transaction keyword or
  \<open>PRAGMA\<close>, in any letter case, after any ASCII white space, alone or before white space.\<close>

lemma guard_rejects_transaction_control:
  assumes "\<forall>c \<in> set ws. is_ascii_ws c" and "to_ascii_uppercase t \<in> set tx_keywords"
    and "rest = [] \<or> is_ascii_ws (hd rest)"
  shows "\<exists>m. (validate_sql (ws @ t @ rest) config :: 'e error + unit) = Inl (SqlRejected m)"
proof -
  have "to_ascii_uppercase t \<in> set guarded_keywords" using assms(2) by (simp add: guarded_keywords_def)
  then have "keyword (ws @ t @ rest) \<in> set tx_keywords"
    using keyword_recognised [OF assms(1) refl _ assms(3)] assms(2) by simp
  then have "isl (validate_sql (ws @ t @ rest) config :: 'e error + unit)"
    by (simp add: validate_sql_isl_iff guard_accepts_def)
  then show ?thesis using validate_sql_Inl_SqlRejected by (metis sum.collapse(1))
qed

lemma guard_rejects_transaction_control_witness:
  "\<exists>m. (validate_sql ('' '' @ ''cOmMiT'' @ '' '') (gateway_config_new ''app.db'') :: ref_error error + unit)
     = Inl (SqlRejected m)"
  by (rule guard_rejects_transaction_control) code_simp+

text \<open>C34. \<open>DROP\<close>, \<open>DELETE\<close> and the schema keywords pass exactly when the flags that govern them
  are set: \<open>DROP\<close> needs both \<open>allow_drop\<close> and \<open>allow_schema_write\<close>.\<close>

lemma guard_flags_exact:
  assumes "\<forall>c \<in> set ws. is_ascii_ws c" and "rest = [] \<or> is_ascii_ws (hd rest)"
    and "to_ascii_uppercase t \<in> set (''DELETE'' # schema_keywords)"
  shows "(validate_sql (ws @ t @ rest) config :: 'e error + unit) = Inr () \<longleftrightarrow>
    cfg_allow_raw_sql config
    \<and> (if to_ascii_uppercase t = ''DELETE'' then cfg_allow_delete config
       else cfg_allow_schema_write config
         \<and> (to_ascii_uppercase t = ''DROP'' \<longrightarrow> cfg_allow_drop config))"
proof -
  have "to_ascii_uppercase t \<in> set guarded_keywords" using assms(3) by (auto simp: guarded_keywords_def)
  then have "keyword (ws @ t @ rest) = to_ascii_uppercase t"
    using keyword_recognised [OF assms(1) refl _ assms(2)] by simp
  then show ?thesis using assms(3)
    by (auto simp: guard_simps guard_accepts_def schema_keywords_def tx_keywords_def)
qed

lemma guard_flags_exact_witness:
  "(validate_sql ([] @ ''drop'' @ '' TABLE t'')
      ((gateway_config_new ''app.db'')\<lparr>cfg_allow_drop := True\<rparr>) :: ref_error error + unit) \<noteq> Inr ()"
proof -
  have "\<not> (cfg_allow_raw_sql ((gateway_config_new ''app.db'')\<lparr>cfg_allow_drop := True\<rparr>)
    \<and> (if to_ascii_uppercase ''drop'' = ''DELETE''
       then cfg_allow_delete ((gateway_config_new ''app.db'')\<lparr>cfg_allow_drop := True\<rparr>)
       else cfg_allow_schema_write ((gateway_config_new ''app.db'')\<lparr>cfg_allow_drop := True\<rparr>)
         \<and> (to_ascii_uppercase ''drop'' = ''DROP'' \<longrightarrow>
            cfg_allow_drop ((gateway_config_new ''app.db'')\<lparr>cfg_allow_drop := True\<rparr>))))"
    by code_simp
  moreover have "\<forall>c \<in> set []. is_ascii_ws c" by simp
  moreover have "'' TABLE t'' = [] \<or> is_ascii_ws (hd '' TABLE t'')" by code_simp
  moreover have "to_ascii_uppercase ''drop'' \<in> set (''DELETE'' # schema_keywords)" by code_simp
  ultimately show ?thesis by (simp only: guard_flags_exact not_False_eq_True)
qed

text \<open>Granting permissions never makes the guard refuse a statement it accepted before.\<close>

lemma guard_monotone:
  assumes "permits_le config config'"
    and "(validate_sql s config :: 'e error + unit) = Inr ()"
  shows "(validate_sql s config' :: 'e error + unit) = Inr ()"
  using assms guard_accepts_mono by (simp add: guard_simps)

lemma guard_monotone_witness:
  "(validate_sql ''DELETE FROM t'' ((gateway_config_new ''app.db'')\<lparr>cfg_allow_drop := True\<rparr>)
     :: ref_error error + unit) = Inr ()"
  by (rule guard_monotone [of "gateway_config_new ''app.db''"]) code_simp+

text \<open>A transaction keyword written together with its semicolon is not recognised: with raw
  SQL allowed, \<open>COMMIT;\<close>, \<open>ROLLBACK;\<close>, \<open>BEGIN;\<close> and the others pass the guard.\<close>

lemma guard_misses_glued_semicolon:
  assumes "k \<in> set tx_keywords" and "cfg_allow_raw_sql config"
  shows "(validate_sql (k @ '';'') config :: 'e error + unit) = Inr ()"
proof -
  have "list_all (\<lambda>k. keyword (k @ '';'') = k @ '';'') tx_keywords" by code_simp
  then have "keyword (k @ '';'') = k @ '';''" using assms(1) by (simp only: list_all_iff)
  moreover have "list_all (\<lambda>k. k @ '';'' \<notin> set (''DELETE'' # tx_keywords @ schema_keywords)) tx_keywords"
    by code_simp
  then have "k @ '';'' \<notin> set (''DELETE'' # tx_keywords @ schema_keywords)"
    using assms(1) unfolding list_all_iff by blast
  ultimately show ?thesis using assms(2)
    by (auto simp: guard_simps guard_accepts_def schema_keywords_def)
qed

lemma guard_misses_glued_semicolon_witness:
  "(validate_sql (''COMMIT'' @ '';'') (gateway_config_new ''app.db'') :: ref_error error + unit) = Inr ()"
  by (rule guard_misses_glued_semicolon) code_simp+

section \<open>Parameters\<close>

text \<open>Parameters are converted position by position: the result has the same length and its
  \<open>i\<close>-th value is the conversion of the \<open>i\<close>-th parameter; one refused value refuses all.\<close>

lemma params_positional:
  "(params_from S decode vs :: 'e error + sql_value list) = Inr ps \<longleftrightarrow>
     length ps = length vs
     \<and> (\<forall>i < length vs. (json_to_sqlite S decode (vs ! i) :: 'e error + sql_value) = Inr (ps ! i))"
  by (auto simp: params_from_Inr_iff list_all2_conv_all_nth)

lemma params_positional_witness:
  "(params_from ref_serde ref_b64 [JBool True, JString ''x''] :: ref_error error + sql_value list)
     = Inr [Integer 1, Text ''x'']"
  unfolding params_positional by (simp add: less_Suc_eq)

text \<open>C35. A blob is bound exactly for an object whose only key is \<open>$blob\<close> with a string value
  that decodes, and it holds the decoded bytes; every other object and array becomes text.\<close>

lemma blob_exactly_from_sentinel:
  "(json_to_sqlite S decode v :: 'e error + sql_value) = Inr (Blob bytes) \<longleftrightarrow>
     (\<exists>s. v = JObject [(''$blob'', JString s)] \<and> decode s = Inr bytes)"
proof
  assume *: "(json_to_sqlite S decode v :: 'e error + sql_value) = Inr (Blob bytes)"
  then obtain m where m: "v = JObject m"
    by (cases v) (auto simp: text_of_json_def split: option.splits sum.splits)
  with * obtain s where s: "blob_sentinel m = Some s"
    by (cases "blob_sentinel m") (auto simp: text_of_json_def split: sum.splits)
  with * m have "decode s = Inr bytes" by (auto split: sum.splits)
  with m s show "\<exists>s. v = JObject [(''$blob'', JString s)] \<and> decode s = Inr bytes"
    by (auto simp: blob_sentinel_iff)
next
  assume "\<exists>s. v = JObject [(''$blob'', JString s)] \<and> decode s = Inr bytes"
  then obtain s where v: "v = JObject [(''$blob'', JString s)]" "decode s = Inr bytes" by blast
  then show "(json_to_sqlite S decode v :: 'e error + sql_value) = Inr (Blob bytes)"
    by (simp add: blob_sentinel_def)
qed

section \<open>The latency buffer\<close>

text \<open>C36. After any number of pushes the buffer holds exactly the last \<open>LATENCY_BUF_CAP\<close>
  latencies in order, and the snapshot never panics.\<close>

lemma latency_window:
  "entries (foldl push_latency new_latency_buffer xs) = last_n LATENCY_BUF_CAP xs
   \<and> latency_snapshot (foldl push_latency new_latency_buffer xs) \<noteq> None"
proof -
  let ?b = "foldl push_latency new_latency_buffer xs"
  have "length (entries ?b) \<le> LATENCY_BUF_CAP" by (rule lat.pushes_bounded)
  then have "entries ?b \<noteq> [] \<Longrightarrow> p95_index (length (entries ?b)) < length (entries ?b)"
    by (intro p95_index_in_range)
  then have "latency_snapshot ?b \<noteq> None"
    by (auto simp: latency_snapshot_def Let_def nth_opt_def)
  then show ?thesis using lat.pushes [of xs] by simp
qed

text \<open>C37. The reported 95th percentile is a recorded latency of the window with at least 95 percent
  of the window at or below it and less than 95 percent strictly below it, in spite of the
  floating-point index.\<close>

lemma latency_percentile:
  assumes "xs \<noteq> []"
    and "latency_snapshot (foldl push_latency new_latency_buffer xs) = Some (avg, p)"
  shows "p \<in> set (last_n LATENCY_BUF_CAP xs)
    \<and> 95 * length (last_n LATENCY_BUF_CAP xs)
      \<le> 100 * length (filter (\<lambda>x. x \<le> p) (last_n LATENCY_BUF_CAP xs))
    \<and> 100 * length (filter (\<lambda>x. x < p) (last_n LATENCY_BUF_CAP xs))
      < 95 * length (last_n LATENCY_BUF_CAP xs)"
proof -
  let ?b = "foldl push_latency new_latency_buffer xs"
  have b: "entries ?b = last_n LATENCY_BUF_CAP xs" "\<not> poisoned ?b"
    using lat.pushes [of xs] by simp_all
  have "length (last_n LATENCY_BUF_CAP xs) \<noteq> 0" using assms(1) by (simp add: LATENCY_BUF_CAP_def)
  then have "entries ?b \<noteq> []" unfolding b(1) by (metis list.size(3))
  from latency_snapshot_percentile_aux [OF this b(2) lat.pushes_bounded assms(2)]
  show ?thesis by (simp only: b(1))
qed

lemma latency_percentile_witness:
  "\<exists>avg. latency_snapshot (foldl push_latency new_latency_buffer [30, 10, 20]) = Some (avg, 30)
     \<and> 95 * length (last_n LATENCY_BUF_CAP [30, 10, 20 :: u64])
      \<le> 100 * length (filter (\<lambda>x. x \<le> 30) (last_n LATENCY_BUF_CAP [30, 10, 20 :: u64]))"
proof -
  let ?s = "latency_snapshot (foldl push_latency new_latency_buffer [30, 10, 20])"
  have e: "entries (foldl push_latency new_latency_buffer [30, 10, 20]) = [30, 10, 20]"
      "\<not> poisoned (foldl push_latency new_latency_buffer [30, 10, 20])"
    by (simp_all add: push_latency_def new_latency_buffer_def LATENCY_BUF_CAP_def)
  have "p95_index (Suc (Suc (Suc 0))) = 2" by (simp add: p95_index_eq LATENCY_BUF_CAP_def p95_rank_def)
  then have "map_option snd ?s = Some 30"
    by (simp add: latency_snapshot_def e Let_def nth_opt_def del: foldl_Cons)
  then obtain avg where s: "?s = Some (avg, 30)" by fastforce
  with latency_percentile [OF _ s] show ?thesis by blast
qed

section \<open>The response on the wire\<close>

text \<open>C38. A response written to the idempotency table or to a client reads back unchanged from
  its JSON text.\<close>

lemma response_roundtrip:
  assumes "json_text S" and "to_text S (response_to_value S r) = Inr t"
  shows "\<exists>v. from_text S t = Inr v \<and> response_of_value S v = Some r"
  using assms by (rule json_text.response_text_roundtrip)

lemma response_roundtrip_witness:
  "\<exists>v. from_text ref_serde (enc (response_to_value ref_serde (committed ''r'' (Some 3)))) = Inr v
     \<and> response_of_value ref_serde v = Some (committed ''r'' (Some 3))"
  by (rule response_roundtrip [OF ref_text.json_text_axioms]) simp

end
