(* ===== verification/Writer_Theorems.thy ===== *)
theory Writer_Theorems
  imports Reference
begin

text \<open>
  The properties of the writer: single requests, batches and the actor loop, with their
  witnesses on the reference store.
\<close>

text \<open>C1. One call of \<open>Writer::apply\<close> on a database that keeps the SQLite laws ends outside any
  transaction and is one of: a failure without effect, the whole request executed with
  its commit row and idempotency row, or a replay without effect.\<close>

lemma apply_all_or_nothing:
  assumes "gateway_db E A" and "idle A (w_conn w)" and "plain_request A request"
    and "writer_apply E w request = (resp, w')"
  shows "idle A (w_conn w') \<and> serves E A (w_config w) (w_track_commits w) (w_idempotency w)
    (durable A (w_conn w)) request resp (durable A (w_conn w'))"
  using assms by (rule gateway_db.writer_apply_serves)

lemma apply_all_or_nothing_witness:
  "\<exists>resp w'. writer_apply ref_env (sample_writer True True [])
      (sample_request ''r1'' (Some ''k'') [''INSERT a'', ''INSERT b'']) = (resp, w')
    \<and> resp = committed ''r1'' (Some 1)
    \<and> serves ref_env ref_reading (gateway_config_new ''app.db'') True True empty_db
        (sample_request ''r1'' (Some ''k'') [''INSERT a'', ''INSERT b'']) resp (disk (w_conn w'))"
proof -
  let ?w = "sample_writer True True []"
  let ?r = "sample_request ''r1'' (Some ''k'') [''INSERT a'', ''INSERT b'']"
  obtain resp w' where run: "writer_apply ref_env ?w ?r = (resp, w')" by fastforce
  have "fst (writer_apply ref_env ?w ?r) = committed ''r1'' (Some 1)" by code_simp
  moreover have "idle ref_reading (w_conn ?w)" by code_simp
  moreover have "plain_request ref_reading ?r" by code_simp
  ultimately show ?thesis
    using apply_all_or_nothing [OF ref_db.gateway_db_axioms _ _ run] run
    by (simp add: sample_writer_def new_writer_def ref_open_def ref_reading_def)
qed

text \<open>C9. When the connection is healthy, \<open>Writer::apply\<close> computes exactly the reference
  semantics: it answers \<open>committed\<close> if and only if every statement passes the guard, the
  idempotency key is fresh and every statement, the commit row and the idempotency row can
  be executed, and then the durable database is the result of all of them.\<close>

lemma apply_complete:
  assumes "live_db E A healthy" and "idle A (w_conn w)" and "healthy (w_conn w)"
    and "plain_request A request" and "writer_apply E w request = (resp, w')"
  shows "(outcome resp, durable A (w_conn w')) = spec_serve E A (w_config w) (w_track_commits w)
    (w_idempotency w) request (durable A (w_conn w))"
  using live_db.writer_apply_live [OF assms] by simp

lemma apply_complete_witness:
  "\<exists>resp w'. writer_apply ref_env (sample_writer True False [])
      (sample_request ''r1'' None [''INSERT a'', ''INSERT a'']) = (resp, w')
    \<and> (outcome resp, disk (w_conn w')) = (None, empty_db)"
proof -
  let ?w = "sample_writer True False []"
  let ?r = "sample_request ''r1'' None [''INSERT a'', ''INSERT a'']"
  obtain resp w' where run: "writer_apply ref_env ?w ?r = (resp, w')" by fastforce
  have "idle ref_reading (w_conn ?w)" by code_simp
  moreover have "ref_healthy (w_conn ?w)" by code_simp
  moreover have "plain_request ref_reading ?r" by code_simp
  ultimately have "(outcome resp, durable ref_reading (w_conn w')) =
      spec_serve ref_env ref_reading (w_config ?w) (w_track_commits ?w) (w_idempotency ?w) ?r
        (durable ref_reading (w_conn ?w))"
    using run by (rule apply_complete [OF ref_live.live_db_axioms])
  moreover have "spec_serve ref_env ref_reading (w_config ?w) (w_track_commits ?w) (w_idempotency ?w) ?r
      (durable ref_reading (w_conn ?w)) = (None, empty_db)" by code_simp
  ultimately show ?thesis using run by (simp add: ref_reading_def)
qed




definition sample_batch :: "(u64 write_request \<times> slot) list" where
  "sample_batch =
     [(sample_request ''r1'' None [''INSERT a''], 7),
      (sample_request ''r2'' None [''INSERT b'', ''INSERT a''], 8),
      (sample_request ''r3'' None [''INSERT b''], 9)]"


text \<open>C7. On a healthy connection, \<open>apply_batch\<close> gives every request the same answer (up to
  the text of a failure) and leaves the same durable database as calling \<open>apply\<close> on each
  request in turn: batching is only an optimisation.\<close>

lemma batch_equals_singles:
  assumes "live_db E A healthy" and "idle A (w_conn w)" and "healthy (w_conn w)"
    and "\<forall>(request, rt) \<in> set batch. plain_request A request"
    and "apply_batch E w batch = (rs, w1)" and "apply_each E w (map fst batch) = (resps, w2)"
  shows "map (outcome \<circ> snd) rs = map outcome resps \<and> durable A (w_conn w1) = durable A (w_conn w2)"
  using assms by (rule live_db.apply_batch_each)

lemma batch_equals_singles_witness:
  "map (outcome \<circ> snd) (fst (apply_batch ref_env (sample_writer True False []) sample_batch)) =
     map outcome (fst (apply_each ref_env (sample_writer True False []) (map fst sample_batch)))
   \<and> map outcome (fst (apply_each ref_env (sample_writer True False []) (map fst sample_batch))) =
     [Some (committed ''r1'' (Some 1)), None, Some (committed ''r3'' (Some 2))]"
proof -
  let ?w = "sample_writer True False []"
  obtain rs w1 where run1: "apply_batch ref_env ?w sample_batch = (rs, w1)" by fastforce
  obtain resps w2 where run2: "apply_each ref_env ?w (map fst sample_batch) = (resps, w2)" by fastforce
  have "idle ref_reading (w_conn ?w)" by code_simp
  moreover have "ref_healthy (w_conn ?w)" by code_simp
  moreover have "\<forall>(request, rt) \<in> set sample_batch. plain_request ref_reading request" by code_simp
  ultimately have "map (outcome \<circ> snd) rs = map outcome resps"
    using batch_equals_singles [OF ref_live.live_db_axioms _ _ _ run1 run2] by blast
  moreover have "map outcome (fst (apply_each ref_env ?w (map fst sample_batch))) =
      [Some (committed ''r1'' (Some 1)), None, Some (committed ''r3'' (Some 2))]" by code_simp
  ultimately show ?thesis using run1 run2 by simp
qed

text \<open>C3. The actor loop ends, answers every command queued before the first \<open>Shutdown\<close>
  exactly once, in order, on its own reply slot, and the answers with the durable result
  are those of serving the write requests one after the other in queue order.\<close>

lemma run_serializable:
  assumes "gateway_loop E A rx pending" and "idle A (w_conn w)"
    and "\<forall>request t. Write request t \<in> set (pending q) \<longrightarrow> plain_request A request"
  shows "\<exists>rs w' q' l. run E rx w out q = Some (out @ rs, w', q')
    \<and> answers (takeWhile (\<lambda>c. c \<noteq> Shutdown) (pending q)) rs l \<and> idle A (w_conn w')
    \<and> serves_all E A (w_config w) (w_track_commits w) (w_idempotency w)
        (durable A (w_conn w)) l (durable A (w_conn w'))"
  using assms by (rule gateway_loop.run_serves)

definition sample_loop_writer :: "bool \<Rightarrow> ref_conn writer" where
  "sample_loop_writer idempotency =
     (sample_writer True idempotency [])\<lparr>w_config :=
        (gateway_config_new ''app.db'')\<lparr>cfg_batch := Some \<lparr>max_size = 2, max_delay_micros = 0\<rparr>\<rparr>\<rparr>"

lemma sample_loop_writer_sel:
  "w_track_commits (sample_loop_writer b) = True" "w_idempotency (sample_loop_writer b) = b"
  "disk (w_conn (sample_loop_writer b)) = empty_db"
  by (simp_all add: sample_loop_writer_def sample_writer_def new_writer_def ref_open_def)

definition sample_queue :: "u64 command list list" where
  "sample_queue =
     [[Write (sample_request ''r1'' None [''INSERT a'']) 7,
       Write (sample_request ''r2'' None [''INSERT a'']) 8,
       Write (sample_request ''r3'' None [''INSERT b'', ''INSERT c'']) 9,
       Checkpoint 10],
      [Write (sample_request ''r4'' None [''INSERT d'']) 11, Shutdown,
       Write (sample_request ''r5'' None [''INSERT e'']) 12]]"

lemma sample_queue_plain:
  "\<forall>request t. Write request t \<in> set (concat sample_queue) \<longrightarrow> plain_request ref_reading request"
proof -
  have "list_all (\<lambda>c. case c of Write r t \<Rightarrow> plain_request ref_reading r | _ \<Rightarrow> True) (concat sample_queue)"
    by code_simp
  then show ?thesis by (force simp only: list_all_iff split: command.splits)
qed

lemma run_serializable_witness:
  "\<exists>rs w' q' l. run ref_env burst_rx (sample_loop_writer False) [] sample_queue = Some (rs, w', q')
    \<and> answers (takeWhile (\<lambda>c. c \<noteq> Shutdown) (concat sample_queue)) rs l
    \<and> serves_all ref_env ref_reading (w_config (sample_loop_writer False)) True False empty_db l
        (disk (w_conn w'))"
proof -
  let ?w = "sample_loop_writer False"
  have "idle ref_reading (w_conn ?w)" by code_simp
  from run_serializable [OF ref_loop.gateway_loop_axioms this sample_queue_plain, of "[]"]
  show ?thesis by (simp only: append_Nil sample_loop_writer_sel ref_durable) blast
qed

text \<open>C15. Whatever SQLite does, the actor loop ends, answers every command queued before the
  first \<open>Shutdown\<close> exactly once, in order and on its own slot, never changes its settings,
  and never lets the latency buffer grow past \<open>LATENCY_BUF_CAP\<close> entries.\<close>

lemma run_always_ends:
  fixes E :: "('n, 'c, 'e) env" and rx :: "('n, 'q) receiver"
  assumes "command_channel rx pending" and "length (entries (w_latency_buf w)) \<le> LATENCY_BUF_CAP"
  shows "\<exists>rs w' q' l. run E rx w out q = Some (out @ rs, w', q')
    \<and> answers (takeWhile (\<lambda>c. c \<noteq> Shutdown) (pending q)) rs l \<and> same_settings w w'
    \<and> length (entries (w_latency_buf w')) \<le> LATENCY_BUF_CAP"
proof -
  have "length (entries b') \<le> LATENCY_BUF_CAP"
    if "buffer_grows b n b'" and "length (entries b) \<le> LATENCY_BUF_CAP" for b n b'
  proof -
    have "length (entries (foldl push_latency b xs)) \<le> LATENCY_BUF_CAP" for xs
      using that(2) by (induction xs arbitrary: b) (simp_all add: push_latency_bounded)
    with that(1) show ?thesis by (auto simp: buffer_grows_def)
  qed
  with upkeep_loop.run_total [OF upkeep_loop.intro [OF assms(1)], of E w out q] assms(2)
  show ?thesis by meson
qed

lemma run_always_ends_witness:
  "map_option fst (run ref_env burst_rx (sample_loop_writer False) [] sample_queue) =
     Some [WriteReply 7 (committed ''r1'' (Some 1)),
           WriteReply 8 (failed ''r2'' ''UNIQUE constraint failed''),
           WriteReply 9 (committed ''r3'' (Some 2)), CheckpointReply 10 (Inr ()),
           WriteReply 11 (committed ''r4'' (Some 3))]
   \<and> (\<exists>rs w' q'. run ref_env burst_rx (sample_loop_writer False) [] sample_queue = Some (rs, w', q')
        \<and> length (entries (w_latency_buf w')) \<le> 1024)"
proof -
  have "length (entries (w_latency_buf (sample_loop_writer False))) \<le> LATENCY_BUF_CAP" by code_simp
  from run_always_ends [OF ref_loop.command_channel_axioms this, of ref_env "[]" sample_queue]
  have "\<exists>rs w' q'. run ref_env burst_rx (sample_loop_writer False) [] sample_queue = Some (rs, w', q')
        \<and> length (entries (w_latency_buf w')) \<le> 1024"
    by (auto simp: LATENCY_BUF_CAP_def)
  moreover have "map_option fst (run ref_env burst_rx (sample_loop_writer False) [] sample_queue) =
     Some [WriteReply 7 (committed ''r1'' (Some 1)),
           WriteReply 8 (failed ''r2'' ''UNIQUE constraint failed''),
           WriteReply 9 (committed ''r3'' (Some 2)), CheckpointReply 10 (Inr ()),
           WriteReply 11 (committed ''r4'' (Some 3))]"
    by code_simp
  ultimately show ?thesis by blast
qed

text \<open>C4. Exactly once: after the first \<open>committed\<close> answer for a fresh idempotency key, and
  whatever requests the writer serves in between, a request with the same key has no effect;
  it is answered with the very response of the first one if its operations are the same,
  and fails otherwise.\<close>

lemma retry_exactly_once:
  assumes "text_db E A" and "idle A (w_conn w)" and "w_idempotency w"
    and "plain_request A r1" and "rq_idempotency_key r1 = Some k"
    and "stored A (durable A (w_conn w)) k = None"
    and "writer_apply E w r1 = (resp1, w1)" and "rs_status resp1 = Committed"
    and "serviced E A w1 l w2" and "\<forall>(r, resp) \<in> set l. plain_request A r"
    and "plain_request A r2" and "rq_idempotency_key r2 = Some k"
    and "writer_apply E w2 r2 = (resp2, w3)"
  shows "durable A (w_conn w3) = durable A (w_conn w2)
    \<and> (rs_status resp2 = Failed \<or> rq_operations r2 = rq_operations r1 \<and> resp2 = resp1)"
proof -
  note db = text_db.axioms(1) [OF assms(1)]
  note s1 = gateway_db.writer_apply_serves [OF db assms(2,4,7)]
  have set1: "w_idempotency w1" using writer_apply_frame(3) [of E w r1] assms(3,7) by simp
  have s2: "idle A (w_conn w2)" "w_idempotency w2" "serves_all E A (w_config w1) (w_track_commits w1)
      True (durable A (w_conn w1)) l (durable A (w_conn w2))"
    using assms(9) s1 set1 by (simp_all add: serviced_def same_settings_def)
  have "w_config w1 = w_config w" "w_track_commits w1 = w_track_commits w"
    using writer_apply_frame [of E w r1] assms(7) by simp_all
  then show ?thesis
    using text_db.serves_retry [OF assms(1) _ assms(4,5,6,8) _ assms(10) _ assms(12)]
      s1 s2 assms(3) gateway_db.writer_apply_serves [OF db s2(1) assms(11,13)]
    by simp blast
qed

lemma retry_exactly_once_witness:
  "\<exists>resp1 w1 resp2 w3.
     writer_apply ref_env (sample_writer True True []) (sample_request ''r1'' (Some ''k'') [''INSERT a'']) = (resp1, w1)
     \<and> writer_apply ref_env w1 (sample_request ''r2'' (Some ''k'') [''INSERT a'']) = (resp2, w3)
     \<and> resp2 = resp1 \<and> disk (w_conn w3) = disk (w_conn w1)"
proof -
  let ?w = "sample_writer True True []"
  let ?r1 = "sample_request ''r1'' (Some ''k'') [''INSERT a'']"
  let ?r2 = "sample_request ''r2'' (Some ''k'') [''INSERT a'']"
  obtain resp1 w1 where run1: "writer_apply ref_env ?w ?r1 = (resp1, w1)" by fastforce
  obtain resp2 w3 where run2: "writer_apply ref_env w1 ?r2 = (resp2, w3)" by fastforce
  have "idle ref_reading (w_conn ?w)" and "w_idempotency ?w" by code_simp+
  moreover have "plain_request ref_reading ?r1" and "plain_request ref_reading ?r2" by code_simp+
  moreover have "stored ref_reading (durable ref_reading (w_conn ?w)) ''k'' = None" by code_simp
  moreover have "fst (writer_apply ref_env ?w ?r1) = committed ''r1'' (Some 1)" by code_simp
  moreover have "rs_status (fst (writer_apply ref_env (snd (writer_apply ref_env ?w ?r1)) ?r2)) = Committed"
    by code_simp
  moreover have "serviced ref_env ref_reading w1 [] w1" by (rule ref_db.service.R_nil)
  moreover have "rq_idempotency_key ?r1 = Some ''k''" and "rq_idempotency_key ?r2 = Some ''k''"
    by (simp_all add: sample_request_def)
  ultimately have "durable ref_reading (w_conn w3) = durable ref_reading (w_conn w1)
      \<and> (rs_status resp2 = Failed \<or> rq_operations ?r2 = rq_operations ?r1 \<and> resp2 = resp1)"
    using retry_exactly_once [OF ref_texts.text_db_axioms, of ?w ?r1 "''k''" resp1 w1 "[]" w1 ?r2 resp2 w3]
      run1 run2 by simp
  moreover have "rs_status resp2 = Committed"
    using run1 run2 \<open>rs_status (fst (writer_apply ref_env (snd (writer_apply ref_env ?w ?r1)) ?r2)) = Committed\<close>
    by simp
  ultimately show ?thesis using run1 run2 by (simp add: ref_durable)
qed






end
