(* ===== verification/Counters.thy ===== *)
theory Counters
  imports Request
begin

text \<open>
  \<open>src/stats.rs\<close>: the four atomic counters, the snapshot with its JSON form, and the WAL
  size. The counters are \<open>u64\<close>: \<open>fetch_add\<close> wraps. The counting steps are those of
  \<open>dispatch_execute\<close> in \<open>src/jsonrpc.rs\<close>; the last section lets many tasks interleave them.
\<close>

record stats =
  st_accepted :: u64
  st_committed :: u64
  st_failed :: u64
  st_rejected :: u64

definition stats_new :: stats where
  "stats_new = \<lparr>st_accepted = 0, st_committed = 0, st_failed = 0, st_rejected = 0\<rparr>"

record stats_snapshot =
  sn_accepted :: u64
  sn_committed :: u64
  sn_failed :: u64
  sn_rejected :: u64
  sn_queue_depth :: u64
  sn_queue_capacity :: u64
  sn_current_wal_size_bytes :: "u64 option"
  sn_avg_commit_latency_micros :: f64
  sn_p95_commit_latency_micros :: u64

definition stats_snapshot_of ::
  "stats \<Rightarrow> nat \<Rightarrow> nat \<Rightarrow> u64 option \<Rightarrow> f64 \<Rightarrow> u64 \<Rightarrow> stats_snapshot" where
  "stats_snapshot_of st queue_depth queue_capacity wal avg p95 =
     \<lparr>sn_accepted = st_accepted st, sn_committed = st_committed st, sn_failed = st_failed st,
      sn_rejected = st_rejected st, sn_queue_depth = of_nat queue_depth,
      sn_queue_capacity = of_nat queue_capacity, sn_current_wal_size_bytes = wal,
      sn_avg_commit_latency_micros = avg, sn_p95_commit_latency_micros = p95\<rparr>"

text \<open>The file system is the argument \<open>len\<close>: \<open>fs::metadata(path).ok().map(|m| m.len())\<close>.\<close>

definition wal_size_bytes :: "(string \<Rightarrow> u64 option) \<Rightarrow> string \<Rightarrow> u64 option" where
  "wal_size_bytes len db_path =
     (if db_path = [] \<or> db_path = '':memory:'' then None else len (db_path @ ''-wal''))"

section \<open>The JSON form of a snapshot\<close>

text \<open>\<open>to_value\<close> turns an \<open>f64\<close> that is not finite into \<open>null\<close>.\<close>

definition snapshot_to_value :: "'n serde \<Rightarrow> stats_snapshot \<Rightarrow> 'n json" where
  "snapshot_to_value S sn =
     (let num = (\<lambda>u. JNumber (num_of_u64 S u)) in
      json_obj
       [(''accepted'', num (sn_accepted sn)),
        (''committed'', num (sn_committed sn)),
        (''failed'', num (sn_failed sn)),
        (''rejected'', num (sn_rejected sn)),
        (''queue_depth'', num (sn_queue_depth sn)),
        (''queue_capacity'', num (sn_queue_capacity sn)),
        (''current_wal_size_bytes'', option_to_value num (sn_current_wal_size_bytes sn)),
        (''avg_commit_latency_micros'',
           (case num_of_f64 S (sn_avg_commit_latency_micros sn) of None \<Rightarrow> JNull | Some n \<Rightarrow> JNumber n)),
        (''p95_commit_latency_micros'', num (sn_p95_commit_latency_micros sn))])"

fun json_as_u64 :: "'n serde \<Rightarrow> 'n json \<Rightarrow> u64 option" where
  "json_as_u64 S (JNumber n) = as_u64 S n"
| "json_as_u64 S _ = None"

fun json_as_f64 :: "'n serde \<Rightarrow> 'n json \<Rightarrow> f64 option" where
  "json_as_f64 S (JNumber n) = as_f64 S n"
| "json_as_f64 S _ = None"

text \<open>
  The derived \<open>Deserialize\<close>, from an object by name or from an array by position; \<open>None\<close> is
  its error. Only the \<open>Option\<close> field may be absent.
\<close>

definition snapshot_of_fields ::
  "'n serde \<Rightarrow> (string \<Rightarrow> 'n json option) \<Rightarrow> stats_snapshot option" where
  "snapshot_of_fields S get =
     (let u = (\<lambda>k. Option.bind (get k) (json_as_u64 S)) in
      case (u ''accepted'', u ''committed'', u ''failed'', u ''rejected'', u ''queue_depth'',
            u ''queue_capacity'', option_of_value (json_as_u64 S) (get ''current_wal_size_bytes''),
            Option.bind (get ''avg_commit_latency_micros'') (json_as_f64 S),
            u ''p95_commit_latency_micros'') of
        (Some a, Some c, Some f, Some r, Some d, Some q, Some w, Some avg, Some p) \<Rightarrow>
          Some \<lparr>sn_accepted = a, sn_committed = c, sn_failed = f, sn_rejected = r,
            sn_queue_depth = d, sn_queue_capacity = q, sn_current_wal_size_bytes = w,
            sn_avg_commit_latency_micros = avg, sn_p95_commit_latency_micros = p\<rparr>
      | _ \<Rightarrow> None)"

definition snapshot_keys :: "string list" where
  "snapshot_keys =
     [''accepted'', ''committed'', ''failed'', ''rejected'', ''queue_depth'', ''queue_capacity'',
      ''current_wal_size_bytes'', ''avg_commit_latency_micros'', ''p95_commit_latency_micros'']"

fun snapshot_of_value :: "'n serde \<Rightarrow> 'n json \<Rightarrow> stats_snapshot option" where
  "snapshot_of_value S (JObject m) = snapshot_of_fields S (map_of m)"
| "snapshot_of_value S (JArray vs) =
     (if length vs = length snapshot_keys
      then snapshot_of_fields S (map_of (zip snapshot_keys vs)) else None)"
| "snapshot_of_value S _ = None"

lemma snapshot_of_to_value:
  assumes "\<And>u. as_u64 S (num_of_u64 S u) = Some u"
    and "num_of_f64 S (sn_avg_commit_latency_micros sn) = Some n"
    and "as_f64 S n = Some (sn_avg_commit_latency_micros sn)"
  shows "snapshot_of_value S (snapshot_to_value S sn) = Some sn"
  using assms
  by (cases sn)
    (simp add: snapshot_to_value_def json_obj_def snapshot_of_fields_def Let_def map_of_sort_key
      option_of_to_value del: sort_key_simps)

section \<open>Counting\<close>

definition count_accepted :: "stats \<Rightarrow> stats" where
  "count_accepted st = st\<lparr>st_accepted := st_accepted st + 1\<rparr>"

fun count_result :: "'e error + write_response \<Rightarrow> stats \<Rightarrow> stats" where
  "count_result (Inr resp) st =
     (if rs_status resp = Committed then st\<lparr>st_committed := st_committed st + 1\<rparr>
      else st\<lparr>st_failed := st_failed st + 1\<rparr>)"
| "count_result (Inl GatewayOverloaded) st = st\<lparr>st_rejected := st_rejected st + 1\<rparr>"
| "count_result (Inl GatewayClosed) st = st\<lparr>st_rejected := st_rejected st + 1\<rparr>"
| "count_result (Inl e) st = st\<lparr>st_failed := st_failed st + 1\<rparr>"

text \<open>
  Many tasks share the counters. A configuration holds the counters, the number of tasks
  between their \<open>accepted\<close> and their outcome, and the number of tasks dropped there (a
  cancelled future, as when an HTTP client disconnects).
\<close>

record counting =
  shared :: stats
  in_flight :: nat
  dropped :: nat

inductive count_step :: "counting \<Rightarrow> counting \<Rightarrow> bool" where
  accept: "count_step (c :: counting) (c\<lparr>shared := count_accepted (shared c), in_flight := Suc (in_flight c)\<rparr>)"
| finish: "in_flight c = Suc n \<Longrightarrow>
    count_step (c :: counting) (c\<lparr>shared := count_result (res :: unit error + write_response) (shared c), in_flight := n\<rparr>)"
| cancel: "in_flight c = Suc n \<Longrightarrow>
    count_step (c :: counting) (c\<lparr>in_flight := n, dropped := Suc (dropped c)\<rparr>)"

inductive count_reachable :: "counting \<Rightarrow> bool" where
  start: "count_reachable \<lparr>shared = stats_new, in_flight = 0, dropped = 0\<rparr>"
| step: "count_reachable c \<Longrightarrow> count_step c c' \<Longrightarrow> count_reachable c'"

inductive_cases count_stepE: "count_step c c'"

lemma count_result_total:
  "st_committed (count_result r st) + st_failed (count_result r st) + st_rejected (count_result r st)
     = st_committed st + st_failed st + st_rejected st + 1"
  "st_accepted (count_result r st) = st_accepted st"
  by (induction r st rule: count_result.induct) simp_all

lemma reachable_counts:
  "count_reachable c \<Longrightarrow>
     st_accepted (shared c) = st_committed (shared c) + st_failed (shared c) + st_rejected (shared c)
       + of_nat (in_flight c) + of_nat (dropped c)"
proof (induction rule: count_reachable.induct)
  case start
  then show ?case by (simp add: stats_new_def)
next
  case (step c c')
  from step.hyps(2) show ?case
    by (elim count_stepE)
      (simp_all add: step.IH count_accepted_def count_result_total)
qed

end
