(* ===== verification/Jsonrpc.thy ===== *)
theory Jsonrpc
  imports Gateway Counters
begin

text \<open>
  \<open>src/jsonrpc.rs\<close>: the JSON-RPC 2.0 envelope and \<open>dispatch\<close> with its four methods. A
  dispatch takes the state of the runtime and the shared counters and returns them with
  the reply; \<open>None\<close> stands for a panic of the task (an index out of range in
  \<open>latency_snapshot\<close>, which the lemmas exclude).
\<close>

section \<open>Constants and wire types\<close>

definition ERR_PARSE_ERROR :: i64 where "ERR_PARSE_ERROR = -32700"
definition ERR_INVALID_REQUEST :: i64 where "ERR_INVALID_REQUEST = -32600"
definition ERR_METHOD_NOT_FOUND :: i64 where "ERR_METHOD_NOT_FOUND = -32601"
definition ERR_INVALID_PARAMS :: i64 where "ERR_INVALID_PARAMS = -32602"
definition ERR_WRITE_FAILED :: i64 where "ERR_WRITE_FAILED = -32000"
definition ERR_GATEWAY_OVERLOADED :: i64 where "ERR_GATEWAY_OVERLOADED = -32001"
definition ERR_GATEWAY_CLOSED :: i64 where "ERR_GATEWAY_CLOSED = -32002"
definition ERR_INTERNAL :: i64 where "ERR_INTERNAL = -32603"

definition MAX_LINE_BYTES :: nat where
  "MAX_LINE_BYTES = 1024 * 1024"

record 'n raw_request =
  rr_jsonrpc :: "string option"
  rr_id :: "'n json"
  rr_method :: "string option"
  rr_params :: "'n json"

text \<open>\<open>#[serde(default)]\<close> on a \<open>Value\<close>: absent is \<open>null\<close>.\<close>

definition value_or_null :: "'n json option \<Rightarrow> 'n json" where
  "value_or_null v = (case v of None \<Rightarrow> JNull | Some x \<Rightarrow> x)"

text \<open>\<open>from_value::<RawRequest>\<close> on a value that is not an array; \<open>None\<close> is its error.\<close>

definition raw_request_of_value :: "'n json \<Rightarrow> 'n raw_request option" where
  "raw_request_of_value v =
     (case v of
        JObject m \<Rightarrow>
          (case (option_of_value json_as_str (map_of m ''jsonrpc''),
                 option_of_value json_as_str (map_of m ''method'')) of
             (Some j, Some meth) \<Rightarrow>
               Some \<lparr>rr_jsonrpc = j, rr_id = value_or_null (map_of m ''id''), rr_method = meth,
                 rr_params = value_or_null (map_of m ''params'')\<rparr>
           | _ \<Rightarrow> None)
      | _ \<Rightarrow> None)"

definition success_to_value :: "'n json \<Rightarrow> 'n json \<Rightarrow> 'n json" where
  "success_to_value i res =
     JObject [(''jsonrpc'', JString ''2.0''), (''id'', i), (''result'', res)]"

text \<open>\<open>data\<close> is skipped when it is \<open>None\<close>.\<close>

definition rpc_error_object :: "'n serde \<Rightarrow> i64 \<Rightarrow> string \<Rightarrow> 'n json option \<Rightarrow> 'n json" where
  "rpc_error_object S code message data =
     JObject ([(''code'', JNumber (num_of_i64 S code)), (''message'', JString message)]
       @ (case data of None \<Rightarrow> [] | Some d \<Rightarrow> [(''data'', d)]))"

definition error_to_value :: "'n serde \<Rightarrow> 'n json \<Rightarrow> i64 \<Rightarrow> string \<Rightarrow> 'n json option \<Rightarrow> 'n json" where
  "error_to_value S i code message data =
     JObject [(''jsonrpc'', JString ''2.0''), (''id'', i),
       (''error'', rpc_error_object S code message data)]"

text \<open>The reply of last resort, when \<open>to_string\<close> fails with the text \<open>e\<close>.\<close>

definition serialize_fallback :: "string \<Rightarrow> string" where
  "serialize_fallback e =
     ''{'' @ dquote ''jsonrpc'' @ '':'' @ dquote ''2.0'' @ '','' @ dquote ''id'' @ '':null,''
     @ dquote ''error'' @ '':{'' @ dquote ''code'' @ '':-32603,'' @ dquote ''message'' @ '':''
     @ dquote (''internal serialize error: '' @ e) @ ''}}''"

definition ok_json :: "'n serde \<Rightarrow> 'n json \<Rightarrow> 'n json \<Rightarrow> string" where
  "ok_json S i res =
     (case to_text S (success_to_value i res) of Inl e \<Rightarrow> serialize_fallback e | Inr t \<Rightarrow> t)"

definition err_json :: "'n serde \<Rightarrow> 'n json \<Rightarrow> i64 \<Rightarrow> string \<Rightarrow> string" where
  "err_json S i code message =
     (case to_text S (error_to_value S i code message None) of
        Inl e \<Rightarrow> serialize_fallback e | Inr t \<Rightarrow> t)"

definition err_json_data :: "'n serde \<Rightarrow> 'n json \<Rightarrow> i64 \<Rightarrow> string \<Rightarrow> 'n json \<Rightarrow> string" where
  "err_json_data S i code message data =
     (case to_text S (error_to_value S i code message (Some data)) of
        Inl e \<Rightarrow> serialize_fallback e | Inr t \<Rightarrow> t)"

section \<open>\<open>execute\<close>\<close>

definition indexed :: "nat \<Rightarrow> string" where
  "indexed i = ''operations['' @ nat_to_string i @ '']''"

definition parse_operation :: "nat \<Rightarrow> 'n json \<Rightarrow> string + 'n sql_operation" where
  "parse_operation i op_val =
     (case json_as_object op_val of
        None \<Rightarrow> Inl (indexed i @ '' must be an object'')
      | Some op_obj \<Rightarrow>
        (case Option.bind (map_of op_obj ''sql'') json_as_str of
           None \<Rightarrow> Inl (indexed i @ ''.sql must be a string'')
         | Some s \<Rightarrow>
           (case map_of op_obj ''params'' of
              Some (JArray a) \<Rightarrow> Inr \<lparr>sql = s, params = a\<rparr>
            | Some JNull \<Rightarrow> Inr \<lparr>sql = s, params = []\<rparr>
            | None \<Rightarrow> Inr \<lparr>sql = s, params = []\<rparr>
            | Some _ \<Rightarrow> Inl (indexed i @ ''.params must be an array or absent''))))"

fun parse_operations :: "nat \<Rightarrow> 'n json list \<Rightarrow> string + 'n sql_operation list" where
  "parse_operations i [] = Inr []"
| "parse_operations i (v # vs) =
     (case parse_operation i v of
        Inl m \<Rightarrow> Inl m
      | Inr op \<Rightarrow>
        (case parse_operations (Suc i) vs of
           Inl m \<Rightarrow> Inl m
         | Inr ops \<Rightarrow> Inr (op # ops)))"

text \<open>
  The checks before the request is built. The result is the message of the
  \<open>Invalid params\<close> reply, or actor, run, key and operations.
\<close>

definition parse_execute ::
  "'n json \<Rightarrow> string + (string \<times> string option \<times> string option \<times> 'n sql_operation list)" where
  "parse_execute ps =
     (case json_as_object ps of
        None \<Rightarrow> Inl ''params must be an object with actor_id and operations''
      | Some params_obj \<Rightarrow>
        (case Option.bind (map_of params_obj ''actor_id'') json_as_str of
           None \<Rightarrow> Inl ''missing or non-string actor_id in params''
         | Some actor_id \<Rightarrow>
           (case map_of params_obj ''operations'' of
              None \<Rightarrow> Inl ''missing operations in params''
            | Some operations_value \<Rightarrow>
              (case json_as_array operations_value of
                 None \<Rightarrow> Inl ''operations must be an array''
               | Some [] \<Rightarrow> Inl ''operations must be a non-empty array''
               | Some operations_arr \<Rightarrow>
                 (case parse_operations 0 operations_arr of
                    Inl m \<Rightarrow> Inl m
                  | Inr ops \<Rightarrow>
                      Inr (actor_id,
                           Option.bind (map_of params_obj ''run_id'') json_as_str,
                           Option.bind (map_of params_obj ''idempotency_key'') json_as_str,
                           ops))))))"

definition request_id_of ::
  "('n, 'c, 'e) env \<Rightarrow> ('n, 'c, 'e, 's) runtime \<Rightarrow> 'n json \<Rightarrow> 's \<Rightarrow> string \<times> 's" where
  "request_id_of E rt i s =
     (case i of
        JString t \<Rightarrow> (t, s)
      | JNumber n \<Rightarrow> (num_to_string (serde E) n, s)
      | _ \<Rightarrow> uuid_now_v7 rt s)"

definition execute_reply ::
  "('n, 'c, 'e) env \<Rightarrow> 'n json \<Rightarrow> 'e error + write_response \<Rightarrow> string" where
  "execute_reply E i result =
     (let S = serde E in
      case result of
        Inr resp \<Rightarrow>
          if rs_status resp = Committed then
            ok_json S i (json_obj
              [(''status'', JString ''committed''),
               (''commit_seq'', option_to_value (\<lambda>q. JNumber (num_of_i64 S q)) (rs_commit_seq resp))])
          else
            err_json_data S i ERR_WRITE_FAILED
              (case rs_error resp of None \<Rightarrow> ''write failed'' | Some m \<Rightarrow> m)
              (case rs_error resp of None \<Rightarrow> JNull | Some m \<Rightarrow> JString m)
      | Inl GatewayOverloaded \<Rightarrow> err_json S i ERR_GATEWAY_OVERLOADED ''gateway overloaded''
      | Inl GatewayClosed \<Rightarrow> err_json S i ERR_GATEWAY_CLOSED ''gateway closed''
      | Inl e \<Rightarrow> err_json S i ERR_WRITE_FAILED (error_to_string (err_to_string (drv E)) e))"

definition dispatch_execute ::
  "('n, 'c, 'e) env \<Rightarrow> ('n, 'c, 'e, 's) runtime \<Rightarrow> gateway_handle \<Rightarrow> 'n json \<Rightarrow> 'n json \<Rightarrow>
   's \<times> stats \<Rightarrow> string \<times> 's \<times> stats" where
  "dispatch_execute E rt h i ps = (\<lambda>(s, st).
     case parse_execute ps of
       Inl m \<Rightarrow> (err_json (serde E) i ERR_INVALID_PARAMS m, s, st)
     | Inr (actor_id, run_id, idempotency_key, ops) \<Rightarrow>
       (case request_id_of E rt i s of
          (request_id, s1) \<Rightarrow>
            (case handle_execute rt h
                    \<lparr>rq_request_id = request_id, rq_actor_id = actor_id, rq_run_id = run_id,
                     rq_idempotency_key = idempotency_key, rq_operations = ops\<rparr> s1 of
               (result, s2) \<Rightarrow>
                 (execute_reply E i result, s2, count_result result (count_accepted st)))))"

section \<open>The admin methods\<close>

definition dispatch_stats ::
  "('n, 'c, 'e) env \<Rightarrow> ('n, 'c, 'e, 's) runtime \<Rightarrow> string \<Rightarrow> 'n json \<Rightarrow> 's \<times> stats \<Rightarrow> string option" where
  "dispatch_stats E rt db_path i = (\<lambda>(s, st).
     case handle_latency_snapshot rt s of
       None \<Rightarrow> None
     | Some (avg, p95) \<Rightarrow>
         Some (ok_json (serde E) i (snapshot_to_value (serde E)
           (stats_snapshot_of st (queue_depth rt s) (queue_capacity rt s)
             (wal_size_bytes (\<lambda>p. file_len rt p s) db_path) avg p95))))"

definition status_ok :: "'n json" where
  "status_ok = json_obj [(''status'', JString ''ok'')]"

definition dispatch_health :: "('n, 'c, 'e) env \<Rightarrow> 'n json \<Rightarrow> string" where
  "dispatch_health E i = ok_json (serde E) i status_ok"

definition dispatch_checkpoint ::
  "('n, 'c, 'e) env \<Rightarrow> ('n, 'c, 'e, 's) runtime \<Rightarrow> 'n json \<Rightarrow> 's \<Rightarrow> string \<times> 's" where
  "dispatch_checkpoint E rt i s =
     (case handle_checkpoint rt s of
        (Inr _, s1) \<Rightarrow> (ok_json (serde E) i status_ok, s1)
      | (Inl e, s1) \<Rightarrow>
          (err_json (serde E) i ERR_WRITE_FAILED (error_to_string (err_to_string (drv E)) e), s1))"

section \<open>\<open>dispatch\<close>\<close>

fun is_array :: "'n json \<Rightarrow> bool" where
  "is_array (JArray a) = True"
| "is_array _ = False"

definition dispatch_method ::
  "('n, 'c, 'e) env \<Rightarrow> ('n, 'c, 'e, 's) runtime \<Rightarrow> gateway_handle \<Rightarrow> string \<Rightarrow> 'n json \<Rightarrow>
   string \<Rightarrow> 'n json \<Rightarrow> 's \<times> stats \<Rightarrow> string option \<times> 's \<times> stats" where
  "dispatch_method E rt h db_path i meth ps = (\<lambda>(s, st).
     if meth = ''execute'' then
       (case dispatch_execute E rt h i ps (s, st) of (reply, s1, st1) \<Rightarrow> (Some reply, s1, st1))
     else if meth = ''stats'' then (dispatch_stats E rt db_path i (s, st), s, st)
     else if meth = ''health'' then (Some (dispatch_health E i), s, st)
     else if meth = ''checkpoint'' then
       (case dispatch_checkpoint E rt i s of (reply, s1) \<Rightarrow> (Some reply, s1, st))
     else (Some (err_json (serde E) i ERR_METHOD_NOT_FOUND (''method not found: '' @ meth)), s, st))"

definition dispatch ::
  "('n, 'c, 'e) env \<Rightarrow> ('n, 'c, 'e, 's) runtime \<Rightarrow> gateway_handle \<Rightarrow> string \<Rightarrow> string \<Rightarrow>
   's \<times> stats \<Rightarrow> string option \<times> 's \<times> stats" where
  "dispatch E rt h db_path line ctx =
     (let S = serde E in
      case from_text S line of
        Inl e \<Rightarrow> (Some (err_json S JNull ERR_PARSE_ERROR (''parse error: '' @ e)), ctx)
      | Inr raw_value \<Rightarrow>
        if is_array raw_value then
          (Some (err_json S JNull ERR_INVALID_REQUEST
             ''JSON-RPC batch arrays are not supported; send one request per line''), ctx)
        else
          (case raw_request_of_value raw_value of
             None \<Rightarrow> (Some (err_json S JNull ERR_INVALID_REQUEST
                       (''invalid request structure: '' @ value_error S ''RawRequest'' raw_value)), ctx)
           | Some req \<Rightarrow>
             if rr_jsonrpc req \<noteq> Some ''2.0'' then
               (Some (err_json S (rr_id req) ERR_INVALID_REQUEST
                  (''missing or invalid '' @ dquote ''jsonrpc'' @ '' field; must be '' @ dquote ''2.0'')), ctx)
             else
               (case rr_method req of
                  None \<Rightarrow> (Some (err_json S (rr_id req) ERR_INVALID_REQUEST
                            (''missing '' @ dquote ''method'' @ '' field'')), ctx)
                | Some meth \<Rightarrow> dispatch_method E rt h db_path (rr_id req) meth (rr_params req) ctx)))"

section \<open>Lemmas\<close>

lemma latency_snapshot_total:
  "length (entries b) \<le> LATENCY_BUF_CAP \<Longrightarrow> latency_snapshot b \<noteq> None"
  using p95_index_in_range [of "entries b"] by (auto simp: latency_snapshot_def Let_def nth_opt_def)

lemma dispatch_method_total:
  assumes "length (entries (shared_latency rt s)) \<le> LATENCY_BUF_CAP"
  shows "fst (dispatch_method E rt h db_path i meth ps (s, st)) \<noteq> None"
  using latency_snapshot_total [OF assms]
  by (auto simp: dispatch_method_def dispatch_stats_def handle_latency_snapshot_def split: prod.splits)

text \<open>What a request line denotes: the \<open>id\<close> to echo, and the call to make.\<close>

definition line_request :: "'n serde \<Rightarrow> string \<Rightarrow> 'n raw_request option" where
  "line_request S line =
     (case from_text S line of
        Inl _ \<Rightarrow> None
      | Inr v \<Rightarrow> if is_array v then None else raw_request_of_value v)"

definition line_id :: "'n serde \<Rightarrow> string \<Rightarrow> 'n json" where
  "line_id S line = (case line_request S line of None \<Rightarrow> JNull | Some req \<Rightarrow> rr_id req)"

lemma dispatch_cases:
  obtains (refused) code m where "code \<in> {ERR_PARSE_ERROR, ERR_INVALID_REQUEST}"
      "dispatch E rt h db_path line ctx = (Some (err_json (serde E) (line_id (serde E) line) code m), ctx)"
  | (called) req meth where "line_request (serde E) line = Some req" "rr_jsonrpc req = Some ''2.0''"
      "rr_method req = Some meth"
      "dispatch E rt h db_path line ctx
        = dispatch_method E rt h db_path (rr_id req) meth (rr_params req) ctx"
proof (cases "from_text (serde E) line")
  case (Inl e)
  then show ?thesis using refused [of ERR_PARSE_ERROR]
    by (simp add: dispatch_def line_id_def line_request_def Let_def)
next
  case v: (Inr v)
  show ?thesis
  proof (cases "is_array v")
    case True
    with v show ?thesis using refused [of ERR_INVALID_REQUEST]
      by (simp add: dispatch_def line_id_def line_request_def Let_def)
  next
    case False
    show ?thesis
    proof (cases "raw_request_of_value v")
      case None
      with v False show ?thesis using refused [of ERR_INVALID_REQUEST]
        by (simp add: dispatch_def line_id_def line_request_def Let_def)
    next
      case (Some req)
      with v False have lr: "line_request (serde E) line = Some req" by (simp add: line_request_def)
      show ?thesis
      proof (cases "rr_jsonrpc req = Some ''2.0'' \<and> rr_method req \<noteq> None")
        case True
        then show ?thesis using called [OF lr] v False Some by (auto simp: dispatch_def Let_def)
      next
        case bad: False
        then show ?thesis using refused [of ERR_INVALID_REQUEST] v False Some lr
          by (cases "rr_jsonrpc req = Some ''2.0''") (auto simp: dispatch_def line_id_def Let_def)
      qed
    qed
  qed
qed

text \<open>The two shapes of a reply.\<close>

definition rpc_codes :: "i64 set" where
  "rpc_codes = {ERR_PARSE_ERROR, ERR_INVALID_REQUEST, ERR_METHOD_NOT_FOUND, ERR_INVALID_PARAMS,
     ERR_WRITE_FAILED, ERR_GATEWAY_OVERLOADED, ERR_GATEWAY_CLOSED}"

definition rpc_reply :: "'n serde \<Rightarrow> 'n json \<Rightarrow> 'n json \<Rightarrow> bool" where
  "rpc_reply S i v \<longleftrightarrow> (\<exists>res. v = success_to_value i res)
     \<or> (\<exists>code m data. code \<in> rpc_codes \<and> v = error_to_value S i code m data)"

definition reply_text :: "'n serde \<Rightarrow> 'n json \<Rightarrow> string \<Rightarrow> bool" where
  "reply_text S i t \<longleftrightarrow> (\<exists>v. to_text S v = Inr t \<and> rpc_reply S i v)"

context json_text
begin

lemma ok_json_text: "to_text S (success_to_value i res) = Inr (ok_json S i res)"
  using to_text_total [of "success_to_value i res"] by (auto simp: ok_json_def)

lemma err_json_text: "to_text S (error_to_value S i code m None) = Inr (err_json S i code m)"
  using to_text_total [of "error_to_value S i code m None"] by (auto simp: err_json_def)

lemma err_json_data_text: "to_text S (error_to_value S i code m (Some d)) = Inr (err_json_data S i code m d)"
  using to_text_total [of "error_to_value S i code m (Some d)"] by (auto simp: err_json_data_def)

lemma reply_ok [rpc_simps]: "reply_text S i (ok_json S i res)"
  unfolding reply_text_def rpc_reply_def using ok_json_text by blast

lemma reply_err [rpc_simps]: "code \<in> rpc_codes \<Longrightarrow> reply_text S i (err_json S i code m)"
  unfolding reply_text_def rpc_reply_def using err_json_text by blast

lemma reply_err_data [rpc_simps]: "code \<in> rpc_codes \<Longrightarrow> reply_text S i (err_json_data S i code m d)"
  unfolding reply_text_def rpc_reply_def using err_json_data_text by blast

end

lemmas rpc_codes_in = rpc_codes_def insert_iff simp_thms

lemma execute_reply_text:
  assumes "json_text (serde E)"
  shows "reply_text (serde E) i (execute_reply E i result)"
proof -
  note shapes = json_text.reply_ok [OF assms] json_text.reply_err [OF assms]
    json_text.reply_err_data [OF assms]
  show ?thesis
    by (cases result; (cases "projl result")?)
      (auto simp: execute_reply_def Let_def rpc_codes_def intro!: shapes)
qed

lemma dispatch_method_text:
  assumes "json_text (serde E)" and "fst (dispatch_method E rt h db_path i meth ps ctx) = Some t"
  shows "reply_text (serde E) i t"
proof -
  note shapes = json_text.reply_ok [OF assms(1)] json_text.reply_err [OF assms(1)]
    execute_reply_text [OF assms(1)]
  show ?thesis
    using assms(2)
    by (cases ctx)
      (auto simp: dispatch_method_def dispatch_execute_def dispatch_stats_def dispatch_health_def
        dispatch_checkpoint_def rpc_codes_def intro!: shapes
        split: if_splits prod.splits sum.splits option.splits)
qed

end
