(* ===== verification/Sidecar.thy ===== *)
theory Sidecar
  imports Jsonrpc
begin

text \<open>
  \<open>src/sidecar.rs\<close>: the Unix-socket transport. A connection is a \<open>stream\<close>: the results its
  reads and writes will have are data, and any finite behaviour of a peer and of the
  operating system can be written that way. Reading past the script is end of file, and
  writing past it succeeds.
\<close>

section \<open>Byte streams with lines\<close>

record stream =
  incoming :: "(string + string) list"
  write_results :: "(string + unit) list"
  outgoing :: "string list"

text \<open>\<open>read_line\<close> into an empty buffer: the text with its newline, empty at end of file.\<close>

definition read_line :: "stream \<Rightarrow> (string + string) \<times> stream" where
  "read_line k =
     (case incoming k of
        [] \<Rightarrow> (Inr [], k)
      | r # rs \<Rightarrow> (r, k\<lparr>incoming := rs\<rparr>))"

definition write_all :: "string \<Rightarrow> stream \<Rightarrow> (string + unit) \<times> stream" where
  "write_all t k =
     (case write_results k of
        [] \<Rightarrow> (Inr (), k\<lparr>outgoing := outgoing k @ [t]\<rparr>)
      | Inr u # rs \<Rightarrow> (Inr (), k\<lparr>write_results := rs, outgoing := outgoing k @ [t]\<rparr>)
      | Inl e # rs \<Rightarrow> (Inl e, k\<lparr>write_results := rs\<rparr>))"

lemma read_line_incoming:
  "(Inr l, k') = read_line k \<Longrightarrow> l \<noteq> [] \<Longrightarrow> length (incoming k') < length (incoming k)"
  by (auto simp: read_line_def split: list.splits)

lemma write_all_incoming: "(r, k') = write_all t k \<Longrightarrow> incoming k' = incoming k"
  by (auto simp: write_all_def split: list.splits sum.splits)

section \<open>One connection\<close>

definition line_too_long :: "'n serde \<Rightarrow> nat \<Rightarrow> string" where
  "line_too_long S len = err_json S JNull ERR_INVALID_REQUEST
     (''line too long: '' @ nat_to_string len @ '' bytes exceeds limit (''
      @ nat_to_string MAX_LINE_BYTES @ '' bytes)'')"

text \<open>A panic of \<open>dispatch\<close> ends the task.\<close>

function handle_connection ::
  "('n, 'c, 'e) env \<Rightarrow> ('n, 'c, 'e, 's) runtime \<Rightarrow> gateway_handle \<Rightarrow> string \<Rightarrow> stream \<Rightarrow> 's \<times> stats \<Rightarrow>
   stream \<times> 's \<times> stats" where
  "handle_connection E rt h db_path k ctx =
     (case read_line k of
        (Inl _, k1) \<Rightarrow> (k1, ctx)
      | (Inr buf, k1) \<Rightarrow>
        if buf = [] then (k1, ctx)
        else if MAX_LINE_BYTES < length buf then
          (snd (write_all (line_too_long (serde E) (length buf) @ nl) k1), ctx)
        else
          (case dispatch E rt h db_path (trim_end_newlines buf) ctx of
             (None, ctx1) \<Rightarrow> (k1, ctx1)
           | (Some reply, ctx1) \<Rightarrow>
             (case write_all (reply @ nl) k1 of
                (Inl _, k2) \<Rightarrow> (k2, ctx1)
              | (Inr _, k2) \<Rightarrow> handle_connection E rt h db_path k2 ctx1)))"
  by pat_completeness auto
termination
  by (relation "measure (\<lambda>(E, rt, h, p, k, ctx). length (incoming k))")
    (auto dest!: write_all_incoming read_line_incoming)

declare handle_connection.simps [simp del]

section \<open>Configuration, accept loop and \<open>run\<close>\<close>

record sidecar_config =
  scfg_gateway :: gateway_config
  scfg_socket_path :: string
  scfg_socket_mode :: u32

definition sidecar_config_new :: "string \<Rightarrow> string \<Rightarrow> sidecar_config" where
  "sidecar_config_new db_path socket_path =
     \<lparr>scfg_gateway = gateway_config_new db_path, scfg_socket_path = socket_path,
      scfg_socket_mode = 6 * 8 ^ 2\<rparr>"

record sidecar_gateway =
  sg_inner :: gateway
  sg_socket_path :: string
  sg_socket_mode :: u32
  sg_stats :: stats

definition sidecar_open ::
  "('n, 'c, 'e) env \<Rightarrow> ('n, 'c, 'e, 's) runtime \<Rightarrow> sidecar_config \<Rightarrow>
   ('e error + sidecar_gateway \<times> 's) option" where
  "sidecar_open E rt config =
     map_option (map_sum id (\<lambda>(inner, s).
         (\<lparr>sg_inner = inner, sg_socket_path = scfg_socket_path config,
           sg_socket_mode = scfg_socket_mode config, sg_stats = stats_new\<rparr>, s)))
       (open_with_config E rt (scfg_gateway config))"

text \<open>
  \<open>accept_loop\<close>: every accepted stream becomes a task of its own; the first accept error
  ends the loop. The result lists the tasks, each to be run by \<open>handle_connection\<close>.
\<close>

fun accept_loop :: "(string + stream) list \<Rightarrow> stream list" where
  "accept_loop [] = []"
| "accept_loop (Inl e # rest) = []"
| "accept_loop (Inr k # rest) = k # accept_loop rest"

text \<open>
  The system calls of \<open>run\<close>; \<open>serve_until\<close> is the \<open>select!\<close> of the accept loop and the
  shutdown future, \<open>warn_permissions\<close> the \<open>eprintln!\<close> of a failed \<open>chmod\<close>.
\<close>

record 's os =
  remove_file :: "string \<Rightarrow> 's \<Rightarrow> 's"
  bind_socket :: "string \<Rightarrow> 's \<Rightarrow> (string + unit) \<times> 's"
  set_permissions :: "string \<Rightarrow> u32 \<Rightarrow> 's \<Rightarrow> (string + unit) \<times> 's"
  warn_permissions :: "u32 \<Rightarrow> string \<Rightarrow> string \<Rightarrow> 's \<Rightarrow> 's"
  serve_until :: "gateway_handle \<Rightarrow> stats \<Rightarrow> string \<Rightarrow> 's \<Rightarrow> 's"

text \<open>The socket part, which the binary repeats for a shared gateway (\<open>run_uds_inline\<close>).\<close>

definition serve_socket ::
  "'s os \<Rightarrow> string \<Rightarrow> u32 \<Rightarrow> gateway_handle \<Rightarrow> stats \<Rightarrow> string \<Rightarrow> 's \<Rightarrow> ('e error + unit) \<times> 's" where
  "serve_socket os socket_path socket_mode h st db_path s =
     (case bind_socket os socket_path (remove_file os socket_path s) of
        (Inl e, s1) \<Rightarrow> (Inl (Io e), s1)
      | (Inr _, s1) \<Rightarrow>
          let s2 = (case set_permissions os socket_path socket_mode s1 of
                      (Inl e, s') \<Rightarrow> warn_permissions os socket_mode socket_path e s'
                    | (Inr _, s') \<Rightarrow> s')
          in (Inr (), remove_file os socket_path (serve_until os h st db_path s2)))"

definition sidecar_run ::
  "('n, 'c, 'e, 's) runtime \<Rightarrow> 's os \<Rightarrow> sidecar_gateway \<Rightarrow> 's \<Rightarrow> ('e error + unit) \<times> 's" where
  "sidecar_run rt os sg s =
     (case serve_socket os (sg_socket_path sg) (sg_socket_mode sg) (handle (sg_inner sg))
             (sg_stats sg) (gateway_db_path (sg_inner sg)) s of
        (Inl e, s1) \<Rightarrow> (Inl e, s1)
      | (Inr _, s1) \<Rightarrow> shutdown rt (sg_inner sg) s1)"

section \<open>A connection answers its lines in order\<close>

text \<open>The replies to a list of lines, up to a panic.\<close>

fun answer_lines ::
  "('n, 'c, 'e) env \<Rightarrow> ('n, 'c, 'e, 's) runtime \<Rightarrow> gateway_handle \<Rightarrow> string \<Rightarrow> string list \<Rightarrow>
   's \<times> stats \<Rightarrow> string list \<times> 's \<times> stats" where
  "answer_lines E rt h p [] ctx = ([], ctx)"
| "answer_lines E rt h p (l # ls) ctx =
     (case dispatch E rt h p (trim_end_newlines l) ctx of
        (None, ctx1) \<Rightarrow> ([], ctx1)
      | (Some r, ctx1) \<Rightarrow> (case answer_lines E rt h p ls ctx1 of (rs, ctx2) \<Rightarrow> (r # rs, ctx2)))"

definition acceptable_line :: "string \<Rightarrow> bool" where
  "acceptable_line l \<longleftrightarrow> l \<noteq> [] \<and> length l \<le> MAX_LINE_BYTES"

lemma handle_connection_all:
  assumes "incoming k = map Inr ls" and "write_results k = []" and "list_all acceptable_line ls"
    and "answer_lines E rt h p ls ctx = (rs, ctx')" and "length rs = length ls"
  shows "handle_connection E rt h p k ctx =
    (k\<lparr>incoming := [], outgoing := outgoing k @ map (\<lambda>r. r @ nl) rs\<rparr>, ctx')"
  using assms
proof (induction ls arbitrary: k ctx rs)
  case Nil
  then show ?case by (subst handle_connection.simps) (simp add: read_line_def)
next
  case (Cons l ls)
  obtain x ctx1 where d: "dispatch E rt h p (trim_end_newlines l) ctx = (x, ctx1)" by (metis surj_pair)
  with Cons.prems(4,5) obtain r where x: "x = Some r" by (cases x) auto
  obtain rs1 where rs: "answer_lines E rt h p ls ctx1 = (rs1, ctx')" "rs = r # rs1"
    using Cons.prems(4) d x by (auto split: prod.splits)
  let ?k1 = "k\<lparr>incoming := map Inr ls\<rparr>" and ?k2 = "k\<lparr>incoming := map Inr ls, outgoing := outgoing k @ [r @ nl]\<rparr>"
  have "read_line k = (Inr l, ?k1)" using Cons.prems(1) by (simp add: read_line_def)
  moreover have "write_all (r @ nl) ?k1 = (Inr (), ?k2)" using Cons.prems(2) by (simp add: write_all_def)
  moreover have "acceptable_line l" using Cons.prems(3) by simp
  ultimately have "handle_connection E rt h p k ctx = handle_connection E rt h p ?k2 ctx1"
    using d x by (subst handle_connection.simps) (auto simp: acceptable_line_def)
  also have "\<dots> = (?k2\<lparr>incoming := [], outgoing := outgoing ?k2 @ map (\<lambda>r. r @ nl) rs1\<rparr>, ctx')"
    by (rule Cons.IH) (use Cons.prems rs in simp_all)
  finally show ?case by (simp add: rs(2))
qed

text \<open>
  For any peer: what was dispatched is a prefix of the acceptable lines, in order; what was
  written is a prefix of its replies, and after it at most one notice of a line too long.
\<close>

lemma handle_connection_safe:
  assumes "handle_connection E rt h p k ctx = (k', ctx')"
  shows "\<exists>ls rs more m. (\<exists>rest. incoming k = map Inr ls @ rest) \<and> list_all acceptable_line ls
    \<and> answer_lines E rt h p ls ctx = (rs, ctx')
    \<and> outgoing k' = outgoing k @ map (\<lambda>r. r @ nl) (take m rs) @ more
    \<and> (more = [] \<or> (\<exists>n > MAX_LINE_BYTES. more = [line_too_long (serde E) n @ nl]))"
  using assms
proof (induction E rt h p k ctx rule: handle_connection.induct)
  case (1 E rt h p k ctx)
  note unf = "1.prems" [unfolded handle_connection.simps [of E rt h p k ctx]]
  obtain x k1 where x: "read_line k = (x, k1)" by fastforce
  have k1: "outgoing k1 = outgoing k" using x by (auto simp: read_line_def split: list.splits)
  have inc: "incoming k = Inr l # incoming k1" if "x = Inr l" "l \<noteq> []" for l
    using x that by (auto simp: read_line_def split: list.splits)
  show ?case
  proof (cases x)
    case (Inl e)
    then have "k' = k1" "ctx' = ctx"
      using unf x by (auto split: if_splits)
    then show ?thesis using k1 by (intro exI [of _ "[]"]) auto
  next
    case (Inr buf)
    consider (eof) "buf = []" | (long) "MAX_LINE_BYTES < length buf" | (line) "acceptable_line buf"
      unfolding acceptable_line_def by linarith
    then show ?thesis
    proof cases
      case eof
      then have "k' = k1" "ctx' = ctx"
        using unf x Inr by (auto split: if_splits)
      then show ?thesis using k1 by (intro exI [of _ "[]"]) auto
    next
      case long
      let ?t = "line_too_long (serde E) (length buf) @ nl"
      have "k' = snd (write_all ?t k1)" "ctx' = ctx"
        using unf x Inr long by (auto split: if_splits)
      then have "outgoing k' = outgoing k \<or> outgoing k' = outgoing k @ [?t]"
        using k1 by (auto simp: write_all_def split: list.splits sum.splits)
      then have "\<exists>more. outgoing k' = outgoing k @ more
          \<and> (more = [] \<or> (\<exists>n > MAX_LINE_BYTES. more = [line_too_long (serde E) n @ nl]))"
      proof
        assume "outgoing k' = outgoing k"
        then show ?thesis by (intro exI [of _ "[]"]) simp
      next
        assume "outgoing k' = outgoing k @ [?t]"
        with long show ?thesis by (intro exI [of _ "[?t]"]) auto
      qed
      then obtain more where "outgoing k' = outgoing k @ more"
          "more = [] \<or> (\<exists>n > MAX_LINE_BYTES. more = [line_too_long (serde E) n @ nl])" by blast
      with \<open>ctx' = ctx\<close> show ?thesis
        by - (rule exI [of _ "[]"], rule exI [of _ "[]"], rule exI [of _ more], simp)
    next
      case line
      then have b: "buf \<noteq> []" "\<not> MAX_LINE_BYTES < length buf" by (auto simp: acceptable_line_def)
      obtain d ctx1 where d: "dispatch E rt h p (trim_end_newlines buf) ctx = (d, ctx1)" by (metis surj_pair)
      show ?thesis
      proof (cases d)
        case None
        then have "k' = k1" "ctx' = ctx1"
          using unf x Inr b d by (auto split: if_splits)
        then show ?thesis using k1 d None line inc [OF Inr b(1)]
          by - (rule exI [of _ "[buf]"], rule exI [of _ "[]"], rule exI [of _ "[]"], auto)
      next
        case (Some r)
        obtain w k2 where w: "write_all (r @ nl) k1 = (w, k2)" by fastforce
        show ?thesis
        proof (cases w)
          case (Inl e)
          then have "k' = k2" "ctx' = ctx1"
            using unf x Inr b d Some w by (auto split: if_splits)
          moreover have "outgoing k2 = outgoing k"
            using w Inl k1 by (auto simp: write_all_def split: list.splits sum.splits)
          ultimately show ?thesis using d Some line inc [OF Inr b(1)]
            by - (rule exI [of _ "[buf]"], rule exI [of _ "[r]"], rule exI [of _ "[]"],
              rule exI [of _ 0], auto)
        next
          case w_ok: (Inr u)
          have rec: "handle_connection E rt h p k2 ctx1 = (k', ctx')"
            using unf x Inr b d Some w w_ok by (auto split: if_splits)
          obtain ls rs more m rest where ih: "incoming k2 = map Inr ls @ rest"
              "list_all acceptable_line ls" "answer_lines E rt h p ls ctx1 = (rs, ctx')"
              "outgoing k' = outgoing k2 @ map (\<lambda>r. r @ nl) (take m rs) @ more"
              "more = [] \<or> (\<exists>n > MAX_LINE_BYTES. more = [line_too_long (serde E) n @ nl])"
            using "1.IH" [OF x [symmetric] Inr b d [symmetric] Some w [symmetric] w_ok rec] by blast
          have "outgoing k2 = outgoing k @ [r @ nl]" "incoming k2 = incoming k1"
            using w w_ok k1 by (auto simp: write_all_def split: list.splits sum.splits)
          then have "\<exists>rest. incoming k1 = map Inr ls @ rest" using ih(1) by metis
          then show ?thesis using ih(2-) \<open>outgoing k2 = outgoing k @ [r @ nl]\<close> d Some line inc [OF Inr b(1)]
            by - (rule exI [of _ "buf # ls"], rule exI [of _ "r # rs"], rule exI [of _ more],
              rule exI [of _ "Suc m"], auto)
        qed
      qed
    qed
  qed
qed

end
