(* ===== verification/Client.thy ===== *)
theory Client
  imports Sidecar
begin

text \<open>
  \<open>src/client.rs\<close>: the JSON-RPC client on a Unix socket. A client holds its end of the
  connection as a \<open>stream\<close>; the UUID that a call draws from \<open>Uuid::now_v7\<close> is an argument.
  The last section follows one request through client, connection and gateway.
\<close>

section \<open>The client\<close>

record client =
  cl_actor_id :: string
  cl_stream :: stream

text \<open>\<open>connect_to path\<close> is \<open>UnixStream::connect\<close>.\<close>

definition client_connect ::
  "(string \<Rightarrow> string + stream) \<Rightarrow> string \<Rightarrow> string \<Rightarrow> 'e error + client" where
  "client_connect connect_to actor_id socket_path =
     (case connect_to socket_path of
        Inl e \<Rightarrow> Inl (Io e)
      | Inr k \<Rightarrow> Inr \<lparr>cl_actor_id = actor_id, cl_stream = k\<rparr>)"

definition send_line :: "client \<Rightarrow> string \<Rightarrow> ('e error + string) \<times> client" where
  "send_line c line =
     (case write_all (line @ nl) (cl_stream c) of
        (Inl e, k1) \<Rightarrow> (Inl (Io e), c\<lparr>cl_stream := k1\<rparr>)
      | (Inr _, k1) \<Rightarrow>
        (case read_line k1 of
           (Inl e, k2) \<Rightarrow> (Inl (Io e), c\<lparr>cl_stream := k2\<rparr>)
         | (Inr reply, k2) \<Rightarrow>
             (if reply = [] then Inl GatewayClosed else Inr (trim_end_newlines reply),
              c\<lparr>cl_stream := k2\<rparr>)))"

text \<open>Serialise, send, and parse the reply; common to all calls.\<close>

definition call_value ::
  "'n serde \<Rightarrow> client \<Rightarrow> 'n json \<Rightarrow> ('e error + string \<times> 'n json) \<times> client" where
  "call_value S c req =
     (case to_text S req of
        Inl m \<Rightarrow> (Inl (Json m), c)
      | Inr line \<Rightarrow>
        (case send_line c line of
           (Inl e, c1) \<Rightarrow> (Inl e, c1)
         | (Inr reply, c1) \<Rightarrow>
             (case from_text S reply of
                Inl m \<Rightarrow> (Inl (Json m), c1)
              | Inr v \<Rightarrow> (Inr (reply, v), c1))))"

section \<open>\<open>execute\<close> and \<open>transaction\<close>\<close>

definition client_operation :: "'n sql_operation \<Rightarrow> 'n json" where
  "client_operation op = json_obj [(''sql'', JString (sql op)), (''params'', JArray (params op))]"

definition execute_params :: "'n write_request \<Rightarrow> 'n json" where
  "execute_params req =
     json_obj
       [(''actor_id'', JString (rq_actor_id req)),
        (''run_id'', option_to_value JString (rq_run_id req)),
        (''idempotency_key'', option_to_value JString (rq_idempotency_key req)),
        (''operations'', JArray (map client_operation (rq_operations req)))]"

definition execute_call :: "'n write_request \<Rightarrow> 'n json" where
  "execute_call req =
     json_obj
       [(''jsonrpc'', JString ''2.0''), (''id'', JString (rq_request_id req)),
        (''method'', JString ''execute''), (''params'', execute_params req)]"

definition execute_response ::
  "'n serde \<Rightarrow> string \<Rightarrow> string \<Rightarrow> 'n json \<Rightarrow> 'e error + write_response" where
  "execute_response S request_id response_line v =
     (case json_get ''result'' v of
        Some result \<Rightarrow>
          (let status_str = (case Option.bind (json_get ''status'' result) json_as_str of
                               None \<Rightarrow> ''failed'' | Some t \<Rightarrow> t) in
           Inr \<lparr>rs_request_id = request_id,
                rs_status = (if status_str = ''committed'' then Committed else Failed),
                rs_commit_seq = Option.bind (json_get ''commit_seq'' result) (json_as_i64 S),
                rs_error = None\<rparr>)
      | None \<Rightarrow>
        (case json_get ''error'' v of
           Some err \<Rightarrow>
             Inr \<lparr>rs_request_id = request_id, rs_status = Failed, rs_commit_seq = None,
                  rs_error =
                    (case Option.bind (json_get ''message'' err) json_as_str of
                       Some m \<Rightarrow> Some m
                     | None \<Rightarrow> Option.bind (json_get ''data'' err) json_as_str)\<rparr>
         | None \<Rightarrow> Inl (Protocol (''unexpected JSON-RPC response: '' @ response_line))))"

definition send_request ::
  "'n serde \<Rightarrow> client \<Rightarrow> 'n write_request \<Rightarrow> ('e error + write_response) \<times> client" where
  "send_request S c req =
     (case call_value S c (execute_call req) of
        (Inl e, c1) \<Rightarrow> (Inl e, c1)
      | (Inr (response_line, v), c1) \<Rightarrow>
          (execute_response S (rq_request_id req) response_line v, c1))"

definition client_request :: "client \<Rightarrow> string \<Rightarrow> 'n sql_operation list \<Rightarrow> 'n write_request" where
  "client_request c uuid ops =
     \<lparr>rq_request_id = uuid, rq_actor_id = cl_actor_id c, rq_run_id = None,
      rq_idempotency_key = None, rq_operations = ops\<rparr>"

definition client_transaction ::
  "'n serde \<Rightarrow> string \<Rightarrow> client \<Rightarrow> 'n sql_operation list \<Rightarrow> ('e error + write_response) \<times> client" where
  "client_transaction S uuid c ops = send_request S c (client_request c uuid ops)"

definition client_execute ::
  "'n serde \<Rightarrow> string \<Rightarrow> client \<Rightarrow> 'n sql_operation \<Rightarrow> ('e error + write_response) \<times> client" where
  "client_execute S uuid c op = client_transaction S uuid c [op]"

section \<open>The admin calls\<close>

definition admin_call :: "string \<Rightarrow> string \<Rightarrow> 'n json" where
  "admin_call uuid meth =
     json_obj [(''jsonrpc'', JString ''2.0''), (''id'', JString uuid), (''method'', JString meth)]"

text \<open>\<open>Value::to_string\<close> (\<open>Display\<close>), which has no error value.\<close>

definition display_value :: "'n serde \<Rightarrow> 'n json \<Rightarrow> string" where
  "display_value S v = (case to_text S v of Inl m \<Rightarrow> m | Inr t \<Rightarrow> t)"

definition client_stats ::
  "'n serde \<Rightarrow> string \<Rightarrow> client \<Rightarrow> ('e error + stats_snapshot) \<times> client" where
  "client_stats S uuid c =
     (case call_value S c (admin_call uuid ''stats'') of
        (Inl e, c1) \<Rightarrow> (Inl e, c1)
      | (Inr (reply, v), c1) \<Rightarrow>
          ((case json_get ''result'' v of
              Some result \<Rightarrow>
                (case snapshot_of_value S result of
                   None \<Rightarrow> Inl (Json (value_error S ''StatsSnapshot'' result))
                 | Some sn \<Rightarrow> Inr sn)
            | None \<Rightarrow>
              (case json_get ''error'' v of
                 Some err \<Rightarrow> Inl (Protocol (display_value S err))
               | None \<Rightarrow> Inl (Protocol (''unexpected stats response: '' @ reply)))), c1))"

text \<open>The shared ending of \<open>health\<close> and \<open>checkpoint\<close>.\<close>

definition accept_unless_error :: "'n serde \<Rightarrow> 'n json \<Rightarrow> 'e error + unit" where
  "accept_unless_error S v =
     (if json_get ''result'' v \<noteq> None then Inr ()
      else
        (case json_get ''error'' v of
           Some err \<Rightarrow> Inl (Protocol (display_value S err))
         | None \<Rightarrow> Inr ()))"

definition client_health :: "'n serde \<Rightarrow> string \<Rightarrow> client \<Rightarrow> ('e error + unit) \<times> client" where
  "client_health S uuid c =
     (case call_value S c (admin_call uuid ''health'') of
        (Inl e, c1) \<Rightarrow> (Inl e, c1)
      | (Inr (_, v), c1) \<Rightarrow> (accept_unless_error S v, c1))"

definition client_checkpoint :: "'n serde \<Rightarrow> string \<Rightarrow> client \<Rightarrow> ('e error + unit) \<times> client" where
  "client_checkpoint S uuid c =
     (case call_value S c (admin_call uuid ''checkpoint'') of
        (Inl e, c1) \<Rightarrow> (Inl e, c1)
      | (Inr (_, v), c1) \<Rightarrow> (accept_unless_error S v, c1))"

section \<open>What the gateway makes of a client's line\<close>

text \<open>
  Parameters that survive the wire: integers, and objects with their keys in order (as
  \<open>serde_json\<close> keeps them).
\<close>

definition wire_param :: "'n serde \<Rightarrow> 'n json \<Rightarrow> bool" where
  "wire_param S v \<longleftrightarrow> portable S v \<and> sort_keys v = v"

definition wire_request :: "'n serde \<Rightarrow> 'n write_request \<Rightarrow> bool" where
  "wire_request S req \<longleftrightarrow> rq_operations req \<noteq> []
     \<and> list_all (\<lambda>op. list_all (wire_param S) (params op)) (rq_operations req)"

lemma sort_obj_shape:
  assumes "distinct (map fst m)"
  obtains m' where "sort_keys (json_obj m) = JObject m'"
    "\<And>k. map_of m' k = map_option sort_keys (map_of m k)"
proof -
  obtain m' where m': "sort_keys (json_obj m) = JObject m'" by (simp add: json_obj_def)
  have "map_of m' k = map_option sort_keys (map_of m k)" for k
    using json_get_sort_obj [OF assms, of k] m' by simp
  with m' show ?thesis by (rule that)
qed

lemma sort_keys_opt_string: "sort_keys (option_to_value JString x) = option_to_value JString x"
  by (cases x) simp_all

lemma json_as_str_opt: "json_as_str (option_to_value JString x) = x"
  by (cases x) simp_all

lemma parse_client_operation:
  assumes "list_all (wire_param S) (params op)"
  shows "parse_operation i (sort_keys (client_operation op)) = Inr op"
proof -
  have "map sort_keys (params op) = params op"
    using assms by (auto simp: list_all_iff wire_param_def intro: map_idI)
  moreover have "distinct (map fst [(''sql'', JString (sql op)), (''params'', JArray (params op))])" by simp
  then obtain m where "sort_keys (client_operation op) = JObject m"
      "\<And>k. map_of m k = map_option sort_keys
        (map_of [(''sql'', JString (sql op)), (''params'', JArray (params op))] k)"
    unfolding client_operation_def by (rule sort_obj_shape) blast
  ultimately show ?thesis by (simp add: parse_operation_def)
qed

lemma parse_client_operations:
  assumes "list_all (\<lambda>op. list_all (wire_param S) (params op)) ops"
  shows "parse_operations i (map (\<lambda>op. sort_keys (client_operation op)) ops) = Inr ops"
  using assms by (induction ops arbitrary: i) (simp_all add: parse_client_operation [of S])

lemma parse_execute_params:
  assumes "wire_request S req"
  shows "parse_execute (sort_keys (execute_params req)) =
    Inr (rq_actor_id req, rq_run_id req, rq_idempotency_key req, rq_operations req)"
proof -
  let ?m = "[(''actor_id'', JString (rq_actor_id req)),
        (''run_id'', option_to_value JString (rq_run_id req)),
        (''idempotency_key'', option_to_value JString (rq_idempotency_key req)),
        (''operations'', JArray (map client_operation (rq_operations req)))]"
  have "distinct (map fst ?m)" by simp
  then obtain m where m: "sort_keys (execute_params req) = JObject m"
      "\<And>k. map_of m k = map_option sort_keys (map_of ?m k)"
    unfolding execute_params_def by (rule sort_obj_shape) blast
  have "parse_operations 0 (map (\<lambda>op. sort_keys (client_operation op)) (rq_operations req)) = Inr (rq_operations req)"
    using parse_client_operations [of S "rq_operations req" 0] assms by (simp add: wire_request_def)
  moreover have "rq_operations req \<noteq> []" using assms by (simp add: wire_request_def)
  ultimately show ?thesis
    by (cases "rq_operations req")
      (simp_all add: parse_execute_def m sort_keys_opt_string json_as_str_opt comp_def)
qed

lemma execute_call_request:
  "raw_request_of_value (sort_keys (execute_call req)) =
    Some \<lparr>rr_jsonrpc = Some ''2.0'', rr_id = JString (rq_request_id req), rr_method = Some ''execute'',
      rr_params = sort_keys (execute_params req)\<rparr>"
  "\<not> is_array (sort_keys (execute_call req))"
proof -
  let ?m = "[(''jsonrpc'', JString ''2.0''), (''id'', JString (rq_request_id req)),
        (''method'', JString ''execute''), (''params'', execute_params req)]"
  have "distinct (map fst ?m)" by simp
  then obtain m where m: "sort_keys (execute_call req) = JObject m"
      "\<And>k. map_of m k = map_option sort_keys (map_of ?m k)"
    unfolding execute_call_def by (rule sort_obj_shape) blast
  show "\<not> is_array (sort_keys (execute_call req))" by (simp add: m)
  show "raw_request_of_value (sort_keys (execute_call req)) =
    Some \<lparr>rr_jsonrpc = Some ''2.0'', rr_id = JString (rq_request_id req), rr_method = Some ''execute'',
      rr_params = sort_keys (execute_params req)\<rparr>"
    by (simp add: raw_request_of_value_def m value_or_null_def)
qed

lemma portable_operation:
  "list_all (wire_param S) (params op) \<Longrightarrow> portable S (client_operation op)"
  by (auto simp: client_operation_def json_obj_def list_all_iff wire_param_def)

lemma portable_opt_string: "portable S (option_to_value JString x)"
  by (cases x) simp_all

lemma execute_call_portable:
  assumes "wire_request S req"
  shows "portable S (execute_call req)"
proof -
  have "list_all (portable S) (map client_operation (rq_operations req))"
    using assms by (auto simp: wire_request_def list_all_iff intro!: portable_operation)
  then have "portable S (execute_params req)"
    by (simp add: execute_params_def json_obj_def portable_opt_string del: sort_key_simps)
      (simp add: portable_opt_string)
  then show ?thesis
    by (simp add: execute_call_def json_obj_def)
qed

text \<open>The answer a client reports for each outcome of the gateway's \<open>execute\<close>.\<close>

fun client_view :: "('e \<Rightarrow> string) \<Rightarrow> string \<Rightarrow> 'e error + write_response \<Rightarrow> write_response" where
  "client_view d i (Inr resp) =
     (if rs_status resp = Committed then committed i (rs_commit_seq resp)
      else failed i (case rs_error resp of None \<Rightarrow> ''write failed'' | Some m \<Rightarrow> m))"
| "client_view d i (Inl GatewayOverloaded) = failed i ''gateway overloaded''"
| "client_view d i (Inl GatewayClosed) = failed i ''gateway closed''"
| "client_view d i (Inl e) = failed i (error_to_string d e)"

context json_text
begin

lemma ok_json_read:
  assumes "portable S i" and "portable S res"
  obtains v where "from_text S (ok_json S i res) = Inr v" "json_get ''result'' v = Some (sort_keys res)"
proof -
  have "portable S (success_to_value i res)" using assms by (simp add: success_to_value_def)
  from from_to_text [OF this ok_json_text]
  have "from_text S (ok_json S i res) = Inr (sort_keys (success_to_value i res))" .
  moreover have "json_get ''result'' (sort_keys (success_to_value i res)) = Some (sort_keys res)"
    unfolding success_to_value_def by (subst json_get_sort_keys) simp_all
  ultimately show ?thesis by (rule that)
qed

lemma error_read:
  assumes "portable S i" and "case data of None \<Rightarrow> True | Some d \<Rightarrow> portable S d"
    and "to_text S (error_to_value S i code m data) = Inr t"
  obtains v err where "from_text S t = Inr v" "json_get ''result'' v = None"
    "json_get ''error'' v = Some err" "json_get ''message'' err = Some (JString m)"
proof -
  let ?v = "error_to_value S i code m data"
  have code: "portable S (JNumber (num_of_i64 S code))" by (auto simp: exact_number_def)
  have "portable S ?v" using assms(1,2) code
    by (cases data) (simp_all add: error_to_value_def rpc_error_object_def)
  from from_to_text [OF this assms(3)] have "from_text S t = Inr (sort_keys ?v)" .
  moreover have "json_get ''result'' (sort_keys ?v) = None"
    "json_get ''error'' (sort_keys ?v) = Some (sort_keys (rpc_error_object S code m data))"
    unfolding error_to_value_def by (subst json_get_sort_keys; simp)+
  moreover have "json_get ''message'' (sort_keys (rpc_error_object S code m data)) = Some (JString m)"
    unfolding rpc_error_object_def by (subst json_get_sort_keys) (auto split: option.splits)
  ultimately show ?thesis by (rule that)
qed

lemma execute_reply_read:
  assumes "serde E = S"
  obtains v where "from_text S (execute_reply E (JString i) result) = Inr v"
    "execute_response S i t v = Inr (client_view (err_to_string (drv E)) i result)"
proof -
  let ?t = "execute_reply E (JString i) result"
  let ?view = "client_view (err_to_string (drv E)) i result"
  note result = that
  have failing: thesis if err: "to_text S (error_to_value S (JString i) code m data) = Inr ?t"
    and d: "case data of None \<Rightarrow> True | Some d \<Rightarrow> portable S d" and view: "?view = failed i m" for code m data
  proof -
    obtain v e where "from_text S ?t = Inr v" "json_get ''result'' v = None"
      "json_get ''error'' v = Some e" "json_get ''message'' e = Some (JString m)"
      by (rule error_read [OF _ d err]) simp
    then show ?thesis using view
      by (intro result [of v]) (simp_all add: execute_response_def failed_def)
  qed
  show ?thesis
  proof (cases result)
    case (Inl e)
    show ?thesis
      by (cases e)
        (rule failing [of _ _ None]; simp add: Inl execute_reply_def Let_def assms err_json_text)+
  next
    case (Inr resp)
    show ?thesis
    proof (cases "rs_status resp")
      case Failed
      show ?thesis
        by (rule failing [of ERR_WRITE_FAILED "case rs_error resp of None \<Rightarrow> ''write failed'' | Some m \<Rightarrow> m"
              "Some (case rs_error resp of None \<Rightarrow> JNull | Some m \<Rightarrow> JString m)"])
          (auto simp: Inr Failed execute_reply_def Let_def assms err_json_data_text split: option.splits)
    next
      case Committed
      let ?q = "option_to_value (\<lambda>q. JNumber (num_of_i64 S q)) (rs_commit_seq resp)"
      let ?m = "[(''status'', JString ''committed''), (''commit_seq'', ?q)]"
      have reply: "?t = ok_json S (JString i) (json_obj ?m)"
        by (simp add: Inr Committed execute_reply_def Let_def assms)
      have q: "portable S ?q" "sort_keys ?q = ?q"
          "json_as_i64 S ?q = rs_commit_seq resp"
        by (cases "rs_commit_seq resp"; auto simp: exact_number_def i64_num)+
      have d: "distinct (map fst ?m)" by simp
      have p: "portable S (json_obj ?m)" using q(1) by (simp add: json_obj_def)
      have "portable S (JString i)" by simp
      then obtain v where v: "from_text S ?t = Inr v" "json_get ''result'' v = Some (sort_keys (json_obj ?m))"
        unfolding reply by (rule ok_json_read [OF _ p])
      have "execute_response S i t v = Inr ?view"
        by (simp add: execute_response_def v(2) json_get_sort_obj [OF d] Let_def q Inr Committed committed_def)
      with v(1) show ?thesis by (rule that)
    qed
  qed
qed

end

section \<open>One request through client, connection and gateway\<close>

lemma trim_end_newlines_line:
  assumes "\<forall>c \<in> set t. byte c \<noteq> 10"
  shows "trim_end_newlines (t @ nl) = t" and "trim_end_newlines t = t"
proof -
  have "dropWhile (\<lambda>c. byte c = 10) (rev t) = rev t"
    using assms by (cases t rule: rev_cases) simp_all
  then show "trim_end_newlines (t @ nl) = t" and "trim_end_newlines t = t"
    by (simp_all add: trim_end_newlines_def nl_def byte_def)
qed

text \<open>The gateway executes exactly the request whose line the client wrote.\<close>

lemma dispatch_client_line:
  assumes "json_text (serde E)" and "wire_request (serde E) req"
    and "to_text (serde E) (execute_call req) = Inr line"
    and "handle_execute rt h req s = (result, s')"
  shows "dispatch E rt h p line (s, st) =
    (Some (execute_reply E (JString (rq_request_id req)) result), s', count_result result (count_accepted st))"
proof -
  have "from_text (serde E) line = Inr (sort_keys (execute_call req))"
    using json_text.from_to_text [OF assms(1) execute_call_portable [OF assms(2)] assms(3)] .
  moreover have "dispatch_execute E rt h (JString (rq_request_id req)) (sort_keys (execute_params req)) (s, st) =
      (execute_reply E (JString (rq_request_id req)) result, s', count_result result (count_accepted st))"
  proof -
    have "\<lparr>rq_request_id = rq_request_id req, rq_actor_id = rq_actor_id req, rq_run_id = rq_run_id req,
        rq_idempotency_key = rq_idempotency_key req, rq_operations = rq_operations req\<rparr> = req" by simp
    then show ?thesis
      by (simp only: dispatch_execute_def parse_execute_params [OF assms(2)] request_id_of_def
          json.case prod.case sum.case assms(4))
  qed
  ultimately show ?thesis
    by (simp add: dispatch_def execute_call_request dispatch_method_def Let_def)
qed

text \<open>
  The client's call against a connection that serves it: the connection reads the client's
  line, and the client reads what the connection wrote.
\<close>

lemma client_exchange:
  fixes E :: "('n, 'c, 'e) env"
  assumes "json_text (serde E)" and "wire_request (serde E) req"
    and "to_text (serde E) (execute_call req) = Inr line" and "length line < MAX_LINE_BYTES"
    and "handle_execute rt h req s = (result, s')"
    and "write_results (cl_stream c) = []" and "write_results k = []" and "outgoing k = []"
    and "handle_connection E rt h p (k\<lparr>incoming := [Inr (line @ nl)]\<rparr>) (s, st) = (k', s1, st1)"
    and "incoming (cl_stream c) = map Inr (outgoing k')"
    and "send_request (serde E) c req = (answer, c')"
  shows "s1 = s' \<and> st1 = count_result result (count_accepted st)
    \<and> answer = (Inr (client_view (err_to_string (drv E)) (rq_request_id req) result) :: 'e error + write_response)"
proof -
  let ?i = "rq_request_id req" and ?reply = "execute_reply E (JString (rq_request_id req)) result"
  have one_line: "trim_end_newlines (line @ nl) = line"
    using trim_end_newlines_line(1) [OF json_text.to_text_one_line [OF assms(1,3)]] .
  note d = dispatch_client_line [OF assms(1-3,5), of p st]
  have served: "handle_connection E rt h p (k\<lparr>incoming := map Inr [line @ nl]\<rparr>) (s, st) =
      ((k\<lparr>incoming := map Inr [line @ nl]\<rparr>)\<lparr>incoming := [], outgoing := outgoing k @ map (\<lambda>r. r @ nl) [?reply]\<rparr>,
       s', count_result result (count_accepted st))"
  proof -
    have "list_all acceptable_line [line @ nl]"
      using assms(4) by (simp add: acceptable_line_def nl_def)
    moreover have "answer_lines E rt h p [line @ nl] (s, st) = ([?reply], s', count_result result (count_accepted st))"
      using d one_line by simp
    ultimately show ?thesis
      using handle_connection_all [of "k\<lparr>incoming := map Inr [line @ nl]\<rparr>" "[line @ nl]" E rt h p "(s, st)"
          "[?reply]" "(s', count_result result (count_accepted st))"] assms(7) by simp
  qed
  with assms(8,9) have k': "outgoing k' = [?reply @ nl]" "s1 = s'" "st1 = count_result result (count_accepted st)"
    by auto
  obtain v where v: "from_text (serde E) ?reply = Inr v"
      "execute_response (serde E) ?i ?reply v
        = (Inr (client_view (err_to_string (drv E)) ?i result) :: 'e error + write_response)"
    by (rule json_text.execute_reply_read [OF assms(1) refl, where t = ?reply and i = ?i and result = result])
  obtain w where "to_text (serde E) w = Inr ?reply"
    using execute_reply_text [OF assms(1)] unfolding reply_text_def by blast
  then have "trim_end_newlines (?reply @ nl) = ?reply"
    using trim_end_newlines_line(1) [OF json_text.to_text_one_line [OF assms(1)]] by blast
  then have "fst (send_request (serde E) c req)
      = (Inr (client_view (err_to_string (drv E)) ?i result) :: 'e error + write_response)"
    using assms(3,6,10) k'(1) v
    by (simp add: send_request_def call_value_def send_line_def write_all_def read_line_def nl_def)
  with assms(11) k' show ?thesis by simp
qed

end
