(* ===== verification/Squeue.thy ===== *)
theory Squeue
  imports Client Params
begin

text \<open>
  \<open>clients/rust/squeue.rs\<close>: the standalone client. It numbers its calls with an \<open>AtomicU64\<close>,
  may set the idempotency key and the run, and returns the parsed reply as it is.
\<close>

datatype io_error =
    Os string
  | InvalidData string
  | UnexpectedEof string

record squeue =
  sq_actor_id :: string
  sq_stream :: stream
  sq_counter :: u64

text \<open>The base64 encoder is a crate outside the repository, hence an argument.\<close>

definition blob :: "(u8 list \<Rightarrow> string) \<Rightarrow> u8 list \<Rightarrow> 'n json" where
  "blob encode data = json_obj [(''$blob'', JString (encode data))]"

definition squeue_connect ::
  "(string \<Rightarrow> string + stream) \<Rightarrow> string \<Rightarrow> string \<Rightarrow> io_error + squeue" where
  "squeue_connect connect_to socket_path actor_id =
     (case connect_to socket_path of
        Inl e \<Rightarrow> Inl (Os e)
      | Inr k \<Rightarrow> Inr \<lparr>sq_actor_id = actor_id, sq_stream = k, sq_counter = 0\<rparr>)"

text \<open>\<open>fetch_add\<close> wraps.\<close>

definition next_id :: "squeue \<Rightarrow> u64 \<times> squeue" where
  "next_id c = (sq_counter c + 1, c\<lparr>sq_counter := sq_counter c + 1\<rparr>)"

definition roundtrip :: "'n serde \<Rightarrow> squeue \<Rightarrow> 'n json \<Rightarrow> (io_error + 'n json) \<times> squeue" where
  "roundtrip S c req =
     (case to_text S req of
        Inl m \<Rightarrow> (Inl (InvalidData m), c)
      | Inr line \<Rightarrow>
        (case write_all (line @ nl) (sq_stream c) of
           (Inl e, k1) \<Rightarrow> (Inl (Os e), c\<lparr>sq_stream := k1\<rparr>)
         | (Inr _, k1) \<Rightarrow>
           (case read_line k1 of
              (Inl e, k2) \<Rightarrow> (Inl (Os e), c\<lparr>sq_stream := k2\<rparr>)
            | (Inr reply, k2) \<Rightarrow>
                (if reply = [] then Inl (UnexpectedEof ''gateway closed the connection'')
                 else case from_text S reply of Inl m \<Rightarrow> Inl (InvalidData m) | Inr v \<Rightarrow> Inr v,
                 c\<lparr>sq_stream := k2\<rparr>))))"

text \<open>\<open>value[key] = v\<close> on an object, which keeps its keys in order.\<close>

fun json_set :: "string \<Rightarrow> 'n json \<Rightarrow> 'n json \<Rightarrow> 'n json" where
  "json_set k v (JObject m) = json_obj ((k, v) # filter (\<lambda>(k', _). k' \<noteq> k) m)"
| "json_set k v j = j"

definition squeue_params ::
  "string \<Rightarrow> (string \<times> 'n json) list \<Rightarrow> string option \<Rightarrow> string option \<Rightarrow> 'n json" where
  "squeue_params actor_id ops idempotency_key run_id =
     (let operations = map (\<lambda>(s, ps). json_obj [(''sql'', JString s), (''params'', ps)]) ops;
          p0 = json_obj [(''actor_id'', JString actor_id), (''operations'', JArray operations)];
          p1 = (case idempotency_key of None \<Rightarrow> p0 | Some k \<Rightarrow> json_set ''idempotency_key'' (JString k) p0)
      in case run_id of None \<Rightarrow> p1 | Some r \<Rightarrow> json_set ''run_id'' (JString r) p1)"

definition squeue_call :: "'n serde \<Rightarrow> u64 \<Rightarrow> 'n json \<Rightarrow> 'n json" where
  "squeue_call S n rpc_params =
     json_obj
       [(''jsonrpc'', JString ''2.0''), (''id'', JNumber (num_of_u64 S n)),
        (''method'', JString ''execute''), (''params'', rpc_params)]"

definition squeue_transaction ::
  "'n serde \<Rightarrow> squeue \<Rightarrow> (string \<times> 'n json) list \<Rightarrow> string option \<Rightarrow> string option \<Rightarrow>
   (io_error + 'n json) \<times> squeue" where
  "squeue_transaction S c ops idempotency_key run_id =
     (case next_id c of
        (n, c1) \<Rightarrow>
          roundtrip S c1 (squeue_call S n (squeue_params (sq_actor_id c) ops idempotency_key run_id)))"

definition squeue_execute ::
  "'n serde \<Rightarrow> squeue \<Rightarrow> string \<Rightarrow> 'n json \<Rightarrow> string option \<Rightarrow> string option \<Rightarrow>
   (io_error + 'n json) \<times> squeue" where
  "squeue_execute S c s ps idempotency_key run_id =
     squeue_transaction S c [(s, ps)] idempotency_key run_id"

definition squeue_admin :: "'n serde \<Rightarrow> string \<Rightarrow> squeue \<Rightarrow> (io_error + 'n json) \<times> squeue" where
  "squeue_admin S meth c =
     (case next_id c of
        (n, c1) \<Rightarrow>
          roundtrip S c1 (json_obj
            [(''jsonrpc'', JString ''2.0''), (''id'', JNumber (num_of_u64 S n)), (''method'', JString meth)]))"

definition squeue_stats :: "'n serde \<Rightarrow> squeue \<Rightarrow> (io_error + 'n json) \<times> squeue" where
  "squeue_stats S c = squeue_admin S ''stats'' c"

definition squeue_health :: "'n serde \<Rightarrow> squeue \<Rightarrow> (io_error + 'n json) \<times> squeue" where
  "squeue_health S c = squeue_admin S ''health'' c"

definition squeue_checkpoint :: "'n serde \<Rightarrow> squeue \<Rightarrow> (io_error + 'n json) \<times> squeue" where
  "squeue_checkpoint S c = squeue_admin S ''checkpoint'' c"

section \<open>Lemmas\<close>

text \<open>A blob parameter arrives as the bytes it was made from.\<close>

lemma blob_to_sqlite:
  assumes "decode (encode data) = Inr data"
  shows "json_to_sqlite S decode (blob encode data) = (Inr (Blob data) :: 'e error + sql_value)"
    and "wire_param S (blob encode data)"
  using assms by (simp_all add: blob_def json_obj_def blob_sentinel_def wire_param_def)

text \<open>The parameters of a call as an object with the given entries, in any order.\<close>

lemma json_set_obj:
  assumes "distinct (map fst m)" and "k \<notin> fst ` set m"
  obtains m' where "json_set k v (json_obj m) = json_obj m'" "distinct (map fst m')"
    "set m' = insert (k, v) (set m)"
proof -
  have keep: "filter (\<lambda>(k', _). k' \<noteq> k) (sort_key fst m) = sort_key fst m"
    using assms(2) by (intro filter_True) force
  let ?m' = "(k, v) # sort_key fst m"
  have "json_set k v (json_obj m) = json_obj ?m'" by (simp only: json_obj_def json_set.simps keep)
  moreover have "distinct (map fst ?m')"
    using assms distinct_fst_sort_key [OF assms(1)] by auto
  moreover have "set ?m' = insert (k, v) (set m)" by simp
  ultimately show ?thesis by (rule that)
qed

definition opt_entry :: "string \<Rightarrow> string option \<Rightarrow> (string \<times> 'n json) set" where
  "opt_entry k x = (case x of None \<Rightarrow> {} | Some t \<Rightarrow> {(k, JString t)})"

definition squeue_operation :: "string \<times> 'n json \<Rightarrow> 'n json" where
  "squeue_operation = (\<lambda>(s, ps). json_obj [(''sql'', JString s), (''params'', ps)])"

lemma squeue_params_obj:
  obtains m where "squeue_params actor ops key r_id = json_obj m" "distinct (map fst m)"
    "set m = {(''actor_id'', JString actor), (''operations'', JArray (map squeue_operation ops))}
      \<union> opt_entry ''idempotency_key'' key \<union> opt_entry ''run_id'' r_id"
proof -
  let ?m0 = "[(''actor_id'', JString actor), (''operations'', JArray (map squeue_operation ops))]"
  let ?p1 = "case key of None \<Rightarrow> json_obj ?m0 | Some k \<Rightarrow> json_set ''idempotency_key'' (JString k) (json_obj ?m0)"
  have p: "squeue_params actor ops key r_id =
      (case r_id of None \<Rightarrow> ?p1 | Some r \<Rightarrow> json_set ''run_id'' (JString r) ?p1)"
    by (simp only: squeue_params_def squeue_operation_def Let_def)
  have d0: "distinct (map fst ?m0)" by simp
  obtain m1 where m1: "?p1 = json_obj m1" "distinct (map fst m1)"
      "set m1 = set ?m0 \<union> opt_entry ''idempotency_key'' key"
  proof (cases key)
    case None
    then show ?thesis using that [of ?m0] d0 by (simp add: opt_entry_def)
  next
    case (Some k)
    have n: "''idempotency_key'' \<notin> fst ` set ?m0" by simp
    obtain m' where "json_set ''idempotency_key'' (JString k) (json_obj ?m0) = json_obj m'"
        "distinct (map fst m')" "set m' = insert (''idempotency_key'', JString k) (set ?m0)"
      by (rule json_set_obj [OF d0 n])
    then show ?thesis using that [of m'] Some by (simp add: opt_entry_def)
  qed
  show ?thesis
  proof (cases r_id)
    case None
    then show ?thesis using that [of m1] m1 p by (auto simp: opt_entry_def)
  next
    case (Some r)
    have n: "''run_id'' \<notin> fst ` set m1" using m1(3) by (auto simp: opt_entry_def split: option.splits)
    obtain m' where "json_set ''run_id'' (JString r) (json_obj m1) = json_obj m'"
        "distinct (map fst m')" "set m' = insert (''run_id'', JString r) (set m1)"
      by (rule json_set_obj [OF m1(2) n])
    then show ?thesis using that [of m'] Some m1 p by (auto simp: opt_entry_def)
  qed
qed

text \<open>The operations of a call whose parameters are arrays.\<close>

definition squeue_ops :: "'n sql_operation list \<Rightarrow> (string \<times> 'n json) list" where
  "squeue_ops ops = map (\<lambda>op. (sql op, JArray (params op))) ops"

lemma squeue_operation_ops: "map squeue_operation (squeue_ops ops) = map client_operation ops"
  by (simp add: squeue_operation_def squeue_ops_def client_operation_def)

lemma map_of_opt_entry:
  assumes "distinct (map fst m)" and "set m = A \<union> opt_entry k x \<union> B" and "k \<notin> fst ` A" and "k \<notin> fst ` B"
  shows "map_of m k = map_option JString x"
proof (cases x)
  case None
  then have "k \<notin> fst ` set m" using assms(2-4) by (auto simp: opt_entry_def)
  then have "map_of m k = None" by (simp add: map_of_eq_None_iff)
  with None show ?thesis by simp
next
  case (Some t)
  then have "(k, JString t) \<in> set m" using assms(2) by (simp add: opt_entry_def)
  with assms(1) Some show ?thesis by (simp add: map_of_is_SomeI)
qed

lemma squeue_params_get:
  assumes "squeue_params actor (squeue_ops ops) key r_id = json_obj m" and "distinct (map fst m)"
    and "set m = {(''actor_id'', JString actor), (''operations'', JArray (map client_operation ops))}
      \<union> opt_entry ''idempotency_key'' key \<union> opt_entry ''run_id'' r_id"
  shows "map_of m ''actor_id'' = Some (JString actor)"
    and "map_of m ''operations'' = Some (JArray (map client_operation ops))"
    and "map_of m ''idempotency_key'' = map_option JString key"
    and "map_of m ''run_id'' = map_option JString r_id"
proof -
  let ?A = "{(''actor_id'', JString actor), (''operations'', JArray (map client_operation ops))}"
  have fst_opt: "fst ` opt_entry k x \<subseteq> {k}" for k and x :: "string option"
    by (auto simp: opt_entry_def split: option.splits)
  show "map_of m ''actor_id'' = Some (JString actor)"
    "map_of m ''operations'' = Some (JArray (map client_operation ops))"
    using assms(2,3) by (simp_all add: map_of_is_SomeI)
  show "map_of m ''idempotency_key'' = map_option JString key"
    by (rule map_of_opt_entry [OF assms(2,3)]) (use fst_opt [of "''run_id''" r_id] in auto)
  have "set m = (?A \<union> opt_entry ''idempotency_key'' key) \<union> opt_entry ''run_id'' r_id \<union> {}"
    using assms(3) by simp
  then show "map_of m ''run_id'' = map_option JString r_id"
    by (rule map_of_opt_entry [OF assms(2)]) (use fst_opt [of "''idempotency_key''" key] in auto)
qed

lemma opt_string_sorted:
  "Option.bind (map_option sort_keys (map_option JString x)) json_as_str = x"
  by (cases x) simp_all

text \<open>
  The gateway executes exactly the request the caller described; its id is the number of
  the call in decimal.
\<close>

lemma dispatch_squeue_line:
  assumes "json_text (serde E)"
    and "req = \<lparr>rq_request_id = num_to_string (serde E) (num_of_u64 (serde E) n), rq_actor_id = actor,
      rq_run_id = r_id, rq_idempotency_key = key, rq_operations = ops\<rparr>"
    and "wire_request (serde E) req"
    and "to_text (serde E) (squeue_call (serde E) n (squeue_params actor (squeue_ops ops) key r_id)) = Inr line"
    and "handle_execute rt h req s = (result, s')"
  shows "dispatch E rt h p line (s, st) =
    (Some (execute_reply E (JNumber (num_of_u64 (serde E) n)) result), s', count_result result (count_accepted st))"
proof -
  let ?S = "serde E"
  obtain m where m: "squeue_params actor (squeue_ops ops) key r_id = json_obj m" "distinct (map fst m)"
    "set m = {(''actor_id'', JString actor), (''operations'', JArray (map client_operation ops))}
      \<union> opt_entry ''idempotency_key'' key \<union> opt_entry ''run_id'' r_id"
    using squeue_params_obj [of actor "squeue_ops ops" key r_id] squeue_operation_ops [of ops] by metis
  note get = squeue_params_get [OF m]
  have ops: "ops \<noteq> []" "list_all (\<lambda>op. list_all (wire_param ?S) (params op)) ops"
    using assms(2,3) by (simp_all add: wire_request_def)
  obtain m' where m': "sort_keys (json_obj m) = JObject m'"
      "\<And>k. map_of m' k = map_option sort_keys (map_of m k)"
    by (rule sort_obj_shape [OF m(2)]) blast
  have "parse_operations 0 (map (\<lambda>op. sort_keys (client_operation op)) ops) = Inr ops"
    by (rule parse_client_operations [OF ops(2)])
  then have parse: "parse_execute (sort_keys (json_obj m)) = Inr (actor, r_id, key, ops)"
    using ops(1) by (cases ops) (simp_all add: parse_execute_def m' get comp_def opt_string_sorted)
  let ?c = "[(''jsonrpc'', JString ''2.0''), (''id'', JNumber (num_of_u64 ?S n)),
        (''method'', JString ''execute''), (''params'', json_obj m)]"
  have "distinct (map fst ?c)" by simp
  then obtain c' where c': "sort_keys (json_obj ?c) = JObject c'"
      "\<And>k. map_of c' k = map_option sort_keys (map_of ?c k)"
    by (rule sort_obj_shape) blast
  have "list_all (\<lambda>(k, v). portable ?S v) m"
    using m(3) ops(2) by (auto simp: list_all_iff opt_entry_def intro!: portable_operation split: option.splits)
  then have "portable ?S (json_obj m)"
    using distinct_fst_sort_key [OF m(2)] by (simp add: portable_obj)
  then have "portable ?S (squeue_call ?S n (json_obj m))"
    by (auto simp: squeue_call_def json_obj_def exact_number_def)
  from json_text.from_to_text [OF assms(1) this] assms(4)
  have parsed: "from_text ?S line = Inr (JObject c')" by (simp add: m(1) squeue_call_def c'(1))
  have "raw_request_of_value (JObject c') = Some \<lparr>rr_jsonrpc = Some ''2.0'',
      rr_id = JNumber (num_of_u64 ?S n), rr_method = Some ''execute'', rr_params = sort_keys (json_obj m)\<rparr>"
    by (simp add: raw_request_of_value_def c'(2) value_or_null_def)
  moreover have "dispatch_execute E rt h (JNumber (num_of_u64 ?S n)) (sort_keys (json_obj m)) (s, st) =
      (execute_reply E (JNumber (num_of_u64 ?S n)) result, s', count_result result (count_accepted st))"
    using assms(5) by (simp add: dispatch_execute_def parse request_id_of_def flip: assms(2))
  ultimately show ?thesis
    by (simp add: dispatch_def parsed dispatch_method_def Let_def)
qed

end
