(* ===== verification/Text_Forms.thy ===== *)
theory Text_Forms
  imports Prelude
begin

text \<open>
  The text conversions of the Rust standard library that the transports and the binary
  use: \<open>str::from_utf8\<close> (\<open>valid_utf8\<close>, with its specification as the encoding of a list of
  scalar values), \<open>u32::from_str_radix(_, 8)\<close> with the octal \<open>{:o}\<close> that prints it back, and
  \<open>SocketAddr::from_str\<close>. Each is a parser over the bytes of the text.
\<close>

section \<open>UTF-8\<close>

definition continuation :: "char \<Rightarrow> bool" where
  "continuation b \<longleftrightarrow> 0x80 \<le> byte b \<and> byte b \<le> 0xBF"

text \<open>The well-formed byte sequences of the Unicode standard, by the leading byte.\<close>

fun valid_utf8 :: "string \<Rightarrow> bool" where
  "valid_utf8 [] = True"
| "valid_utf8 (a # s) =
     (if byte a < 0x80 then valid_utf8 s
      else if 0xC2 \<le> byte a \<and> byte a \<le> 0xDF then
        (case s of b # s1 \<Rightarrow> continuation b \<and> valid_utf8 s1 | _ \<Rightarrow> False)
      else if 0xE0 \<le> byte a \<and> byte a \<le> 0xEF then
        (case s of
           b # c # s1 \<Rightarrow> continuation b \<and> continuation c
             \<and> (byte a = 0xE0 \<longrightarrow> 0xA0 \<le> byte b) \<and> (byte a = 0xED \<longrightarrow> byte b \<le> 0x9F) \<and> valid_utf8 s1
         | _ \<Rightarrow> False)
      else if 0xF0 \<le> byte a \<and> byte a \<le> 0xF4 then
        (case s of
           b # c # d # s1 \<Rightarrow> continuation b \<and> continuation c \<and> continuation d
             \<and> (byte a = 0xF0 \<longrightarrow> 0x90 \<le> byte b) \<and> (byte a = 0xF4 \<longrightarrow> byte b \<le> 0x8F) \<and> valid_utf8 s1
         | _ \<Rightarrow> False)
      else False)"

definition scalar_value :: "nat \<Rightarrow> bool" where
  "scalar_value c \<longleftrightarrow> c < 0xD800 \<or> 0xE000 \<le> c \<and> c < 0x110000"

definition utf8_encode :: "nat \<Rightarrow> string" where
  "utf8_encode c =
     (if c < 0x80 then [char_of c]
      else if c < 0x800 then [char_of (0xC0 + c div 64), char_of (0x80 + c mod 64)]
      else if c < 0x10000 then
        [char_of (0xE0 + c div 4096), char_of (0x80 + c div 64 mod 64), char_of (0x80 + c mod 64)]
      else
        [char_of (0xF0 + c div 262144), char_of (0x80 + c div 4096 mod 64),
         char_of (0x80 + c div 64 mod 64), char_of (0x80 + c mod 64)])"

lemma char_of_eqI: "n = byte a \<Longrightarrow> char_of n = a"
  by simp

text \<open>Digits in base 64.\<close>

lemma base64_div: "(n :: nat) div 4096 = n div 64 div 64" "(n :: nat) div 262144 = n div 64 div 64 div 64"
  using div_mult2_eq [of n 64 64] div_mult2_eq [of "n div 64" 64 64] div_mult2_eq [of n 64 4096] by simp_all

lemma base64_join: "(w :: nat) < 64 \<Longrightarrow> (64 * k + w) div 64 = k \<and> (64 * k + w) mod 64 = w"
  by simp

lemma base64_split:
  obtains k w :: nat where "c = 64 * k + w" "w < 64"
  using that [of "c div 64" "c mod 64"] by simp

lemma valid_utf8_encode:
  assumes "scalar_value c"
  shows "valid_utf8 (utf8_encode c @ s) = valid_utf8 s"
proof -
  consider "c < 0x80" | "0x80 \<le> c" "c < 0x800" | "0x800 \<le> c" "c < 0x10000" | "0x10000 \<le> c" "c < 0x110000"
    using assms unfolding scalar_value_def by linarith
  then show ?thesis
  proof cases
    case 1
    then show ?thesis by (simp add: utf8_encode_def byte_char_of)
  next
    case 2
    moreover from 2 have "2 \<le> c div 64" "c div 64 < 32" by linarith+
    moreover have "c mod 64 \<le> 63" using mod_less_divisor [of 64 c] by linarith
    ultimately show ?thesis by (simp add: utf8_encode_def byte_char_of continuation_def)
  next
    case 3
    obtain k w where kw: "c = 64 * k + w" "w < 64" by (rule base64_split)
    obtain u v where uv: "k = 64 * u + v" "v < 64" by (rule base64_split)
    have "u < 16" "u = 0 \<longrightarrow> 0x20 \<le> v" "u = 13 \<longrightarrow> v \<le> 0x1F"
      using 3 kw uv assms unfolding scalar_value_def by auto
    moreover have "c div 4096 = u" "c div 64 mod 64 = v" "c mod 64 = w"
      using kw uv by (simp_all only: base64_div base64_join)
    ultimately show ?thesis using 3 kw(2) uv(2)
      by (simp add: utf8_encode_def byte_char_of continuation_def)
  next
    case 4
    obtain k x where kx: "c = 64 * k + x" "x < 64" by (rule base64_split)
    obtain l w where lw: "k = 64 * l + w" "w < 64" by (rule base64_split)
    obtain u v where uv: "l = 64 * u + v" "v < 64" by (rule base64_split)
    have "u < 5" "u = 0 \<longrightarrow> 0x10 \<le> v" "u = 4 \<longrightarrow> v \<le> 0xF"
      using 4 kx lw uv by auto
    moreover have "c div 262144 = u" "c div 4096 mod 64 = v" "c div 64 mod 64 = w" "c mod 64 = x"
      using kx lw uv by (simp_all only: base64_div base64_join)
    ultimately show ?thesis using 4 kx(2) lw(2) uv(2)
      by (simp add: utf8_encode_def byte_char_of continuation_def)
  qed
qed

text \<open>The scalar value in front of a valid text.\<close>

lemma valid_utf8_head:
  assumes "valid_utf8 t" and "t \<noteq> []"
  obtains c s where "scalar_value c" "t = utf8_encode c @ s" "valid_utf8 s" "length s < length t"
proof -
  obtain a r where t: "t = a # r" using assms(2) by (cases t) auto
  consider (one) "byte a < 0x80" "valid_utf8 r"
    | (two) b s where "0xC2 \<le> byte a" "byte a \<le> 0xDF" "r = b # s" "continuation b" "valid_utf8 s"
    | (three) b c s where "0xE0 \<le> byte a" "byte a \<le> 0xEF" "r = b # c # s" "continuation b"
        "continuation c" "byte a = 0xE0 \<longrightarrow> 0xA0 \<le> byte b" "byte a = 0xED \<longrightarrow> byte b \<le> 0x9F" "valid_utf8 s"
    | (four) b c d s where "0xF0 \<le> byte a" "byte a \<le> 0xF4" "r = b # c # d # s" "continuation b"
        "continuation c" "continuation d" "byte a = 0xF0 \<longrightarrow> 0x90 \<le> byte b"
        "byte a = 0xF4 \<longrightarrow> byte b \<le> 0x8F" "valid_utf8 s"
  proof -
    note valid = assms(1) [unfolded t]
    consider (a) "byte a < 0x80" | (b) "0xC2 \<le> byte a" "byte a \<le> 0xDF"
      | (c) "0xE0 \<le> byte a" "byte a \<le> 0xEF" | (d) "0xF0 \<le> byte a" "byte a \<le> 0xF4"
      | (bad) "0x80 \<le> byte a" "byte a < 0xC2 \<or> 0xF4 < byte a" by linarith
    then show thesis
    proof cases
      case a
      with valid show ?thesis using one by simp
    next
      case b
      with valid show ?thesis using two by (simp split: list.splits)
    next
      case c
      with valid show ?thesis using three by (simp split: list.splits)
    next
      case d
      with valid show ?thesis using four by (simp split: list.splits)
    next
      case bad
      with valid show ?thesis by (simp split: if_splits)
    qed
  qed
  then show ?thesis
  proof cases
    case one
    then show ?thesis using that [of "byte a" r]
      by (simp add: t scalar_value_def utf8_encode_def)
  next
    case two
    define u v where uv: "u = byte a - 0xC0" "v = byte b - 0x80"
    have b: "byte a = 0xC0 + u" "2 \<le> u" "u < 32" "byte b = 0x80 + v" "v < 64"
      using two unfolding uv continuation_def by auto
    let ?n = "64 * u + v"
    have n: "?n div 64 = u" "?n mod 64 = v" using b by simp_all
    have "utf8_encode ?n = [a, b]"
      unfolding utf8_encode_def n using b by (auto simp flip: b(1,4))
    then show ?thesis using that [of ?n s] two b by (simp add: t scalar_value_def)
  next
    case three
    define u v w where uv: "u = byte a - 0xE0" "v = byte b - 0x80" "w = byte c - 0x80"
    have b: "byte a = 0xE0 + u" "u < 16" "byte b = 0x80 + v" "v < 64" "byte c = 0x80 + w" "w < 64"
        "u = 0 \<longrightarrow> 0x20 \<le> v" "u = 13 \<longrightarrow> v < 0x20"
      using three unfolding uv continuation_def by auto
    let ?n = "64 * (64 * u + v) + w"
    have n: "?n div 4096 = u" "?n div 64 mod 64 = v" "?n mod 64 = w"
      using b by (simp_all only: base64_div base64_join)
    have ge: "0x800 \<le> ?n" using b by (cases u) auto
    have "utf8_encode ?n = [a, b, c]"
      unfolding utf8_encode_def n using b ge by (auto simp flip: b(1,3,5))
    moreover have "scalar_value ?n"
    proof -
      consider "u < 13" | "u = 13" | "13 < u" by linarith
      then show ?thesis using b by cases (auto simp: scalar_value_def)
    qed
    ultimately show ?thesis using that [of ?n s] three by (simp add: t)
  next
    case four
    define u v w x where uv: "u = byte a - 0xF0" "v = byte b - 0x80" "w = byte c - 0x80" "x = byte d - 0x80"
    have b: "byte a = 0xF0 + u" "u < 5" "byte b = 0x80 + v" "v < 64" "byte c = 0x80 + w" "w < 64"
        "byte d = 0x80 + x" "x < 64" "u = 0 \<longrightarrow> 0x10 \<le> v" "u = 4 \<longrightarrow> v < 0x10"
      using four unfolding uv continuation_def by auto
    let ?n = "64 * (64 * (64 * u + v) + w) + x"
    have n: "?n div 262144 = u" "?n div 4096 mod 64 = v" "?n div 64 mod 64 = w" "?n mod 64 = x"
      using b by (simp_all only: base64_div base64_join)
    have ge: "0x10000 \<le> ?n" using b by (cases u) auto
    have lt: "?n < 0x110000"
    proof (cases "u = 4")
      case True
      then show ?thesis using b by simp
    next
      case False
      then have "u \<le> 3" using b by simp
      then show ?thesis using b by simp
    qed
    have "utf8_encode ?n = [a, b, c, d]"
      unfolding utf8_encode_def n using b ge by (auto simp flip: b(1,3,5,7))
    then show ?thesis using that [of ?n s] four ge lt by (simp add: t scalar_value_def)
  qed
qed

theorem valid_utf8_iff:
  "valid_utf8 t \<longleftrightarrow> (\<exists>cs. list_all scalar_value cs \<and> t = concat (map utf8_encode cs))"
proof
  show "\<exists>cs. list_all scalar_value cs \<and> t = concat (map utf8_encode cs)" if "valid_utf8 t"
    using that
  proof (induction t rule: length_induct)
    case (1 t)
    show ?case
    proof (cases "t = []")
      case True
      then have "list_all scalar_value [] \<and> t = concat (map utf8_encode [])" by simp
      then show ?thesis by blast
    next
      case False
      with "1.prems" obtain c s where c: "scalar_value c" "t = utf8_encode c @ s" "valid_utf8 s"
        "length s < length t" by (rule valid_utf8_head)
      then obtain cs where "list_all scalar_value cs" "s = concat (map utf8_encode cs)"
        using "1.IH" by blast
      with c have "list_all scalar_value (c # cs) \<and> t = concat (map utf8_encode (c # cs))" by simp
      then show ?thesis by blast
    qed
  qed
next
  assume "\<exists>cs. list_all scalar_value cs \<and> t = concat (map utf8_encode cs)"
  then obtain cs where cs: "list_all scalar_value cs" "t = concat (map utf8_encode cs)" by blast
  from cs(1) have "valid_utf8 (concat (map utf8_encode cs))"
    by (induction cs) (simp_all add: valid_utf8_encode)
  with cs(2) show "valid_utf8 t" by simp
qed

section \<open>Octal numbers\<close>

definition octal_digit :: "char \<Rightarrow> bool" where
  "octal_digit c \<longleftrightarrow> 48 \<le> byte c \<and> byte c \<le> 55"

text \<open>\<open>checked_mul\<close> and \<open>checked_add\<close> digit by digit; \<open>None\<close> is the parse error.\<close>

fun octal_loop :: "nat \<Rightarrow> string \<Rightarrow> nat option" where
  "octal_loop acc [] = Some acc"
| "octal_loop acc (c # cs) =
     (if octal_digit c \<and> 8 * acc + (byte c - 48) < 2 ^ 32
      then octal_loop (8 * acc + (byte c - 48)) cs else None)"

definition from_str_radix_8 :: "string \<Rightarrow> u32 option" where
  "from_str_radix_8 s =
     (let digits = (case s of c # cs \<Rightarrow> if c = CHR ''+'' \<and> cs \<noteq> [] then cs else s | [] \<Rightarrow> [])
      in if digits = [] then None else map_option of_nat (octal_loop 0 digits))"

fun octal_value :: "nat \<Rightarrow> string \<Rightarrow> nat" where
  "octal_value acc [] = acc"
| "octal_value acc (c # cs) = octal_value (8 * acc + (byte c - 48)) cs"

lemma octal_value_ge: "acc \<le> octal_value acc cs"
proof (induction cs arbitrary: acc)
  case Nil
  then show ?case by simp
next
  case (Cons c cs)
  have "acc \<le> 8 * acc + (byte c - 48)" by simp
  also have "\<dots> \<le> octal_value (8 * acc + (byte c - 48)) cs" by (rule Cons.IH)
  finally show ?case by simp
qed

lemma octal_loop_Some:
  "octal_loop acc cs = Some n \<longleftrightarrow>
     (list_all octal_digit cs \<and> n = octal_value acc cs \<and> (cs \<noteq> [] \<longrightarrow> octal_value acc cs < 2 ^ 32))"
proof (induction cs arbitrary: acc)
  case Nil
  then show ?case by auto
next
  case (Cons c cs)
  let ?a = "8 * acc + (byte c - 48)"
  have ge: "?a \<le> octal_value ?a cs" by (rule octal_value_ge)
  show ?case
  proof (cases "octal_digit c \<and> ?a < 2 ^ 32")
    case True
    then show ?thesis using Cons.IH [of ?a] by (cases "cs = []") auto
  next
    case False
    with ge have "\<not> (octal_digit c \<and> octal_value ?a cs < 2 ^ 32)" by linarith
    moreover have "octal_loop acc (c # cs) = None" using False by auto
    ultimately show ?thesis by simp
  qed
qed

lemma from_str_radix_8_Some:
  "from_str_radix_8 s = Some w \<longleftrightarrow>
     (\<exists>ds. ds \<noteq> [] \<and> list_all octal_digit ds \<and> (s = ds \<or> s = CHR ''+'' # ds)
        \<and> octal_value 0 ds < 2 ^ 32 \<and> w = of_nat (octal_value 0 ds))"
proof -
  have plus: "\<not> octal_digit CHR ''+''" by (simp add: octal_digit_def byte_def)
  have digits: "map_option of_nat (octal_loop 0 ds) = Some w \<longleftrightarrow>
      list_all octal_digit ds \<and> octal_value 0 ds < 2 ^ 32 \<and> w = of_nat (octal_value 0 ds)"
    if "ds \<noteq> []" for ds
    using that octal_loop_Some [of 0 ds] by auto
  show ?thesis
  proof (cases "\<exists>cs. s = CHR ''+'' # cs \<and> cs \<noteq> []")
    case True
    then obtain cs where cs: "s = CHR ''+'' # cs" "cs \<noteq> []" by blast
    then have "from_str_radix_8 s = map_option of_nat (octal_loop 0 cs)"
      by (simp add: from_str_radix_8_def)
    then show ?thesis using cs plus digits [OF cs(2)] by auto
  next
    case False
    then have f: "from_str_radix_8 s = (if s = [] then None else map_option of_nat (octal_loop 0 s))"
      by (auto simp: from_str_radix_8_def split: list.splits)
    show ?thesis
    proof (cases "s = []")
      case True
      then show ?thesis using f by simp
    next
      case s: False
      have "(\<exists>ds. ds \<noteq> [] \<and> list_all octal_digit ds \<and> (s = ds \<or> s = CHR ''+'' # ds)
          \<and> octal_value 0 ds < 2 ^ 32 \<and> w = of_nat (octal_value 0 ds)) \<longleftrightarrow>
        list_all octal_digit s \<and> octal_value 0 s < 2 ^ 32 \<and> w = of_nat (octal_value 0 s)"
        using False s by blast
      then show ?thesis using f s digits [OF s] by simp
    qed
  qed
qed

text \<open>\<open>format!("{:o}")\<close>.\<close>

fun to_octal :: "nat \<Rightarrow> string" where
  "to_octal n = (if n < 8 then [digit_char n] else to_octal (n div 8) @ [digit_char (n mod 8)])"

declare to_octal.simps [simp del]

lemma octal_value_append: "octal_value acc (xs @ [c]) = 8 * octal_value acc xs + (byte c - 48)"
  by (induction xs arbitrary: acc) auto

lemma to_octal_digits:
  "to_octal n \<noteq> [] \<and> list_all octal_digit (to_octal n) \<and> octal_value 0 (to_octal n) = n"
proof (induction n rule: to_octal.induct)
  case (1 n)
  then show ?case
    by (cases "n < 8")
      (simp_all add: to_octal.simps [of n] octal_value_append byte_digit_char octal_digit_def
        del: digit_char.simps)
qed

lemma from_str_radix_8_to_octal: "from_str_radix_8 (to_octal (unat w)) = Some w"
proof -
  have "unat w < 2 ^ 32" using unsigned_less [of w] by simp
  then show ?thesis
    using to_octal_digits [of "unat w"]
    by (subst from_str_radix_8_Some) (rule exI [of _ "to_octal (unat w)"], simp)
qed

section \<open>Prefixes\<close>

text \<open>\<open>str::strip_prefix\<close>.\<close>

definition strip_prefix :: "string \<Rightarrow> string \<Rightarrow> string option" where
  "strip_prefix p s = (if take (length p) s = p then Some (drop (length p) s) else None)"

lemma strip_prefix_Some: "strip_prefix p s = Some r \<longleftrightarrow> s = p @ r"
  by (auto simp: strip_prefix_def) (metis append_take_drop_id)

section \<open>Socket addresses\<close>

text \<open>
  \<open>SocketAddr::from_str\<close> for \<open>a.b.c.d:port\<close> and \<open>[v6%scope]:port\<close>. A reader returns the
  value and the rest of the text; a reader that fails consumes nothing.
\<close>

type_synonym u16 = "16 word"

datatype socket_addr =
    V4 "u8 list" u16
  | V6 "u16 list" u32 u16

type_synonym 'a reader = "string \<Rightarrow> ('a \<times> string) option"

definition to_digit :: "nat \<Rightarrow> char \<Rightarrow> nat option" where
  "to_digit radix c =
     (let b = byte c;
          d = (if 48 \<le> b \<and> b \<le> 57 then b - 48
               else if 97 \<le> b \<and> b \<le> 122 then b - 87
               else if 65 \<le> b \<and> b \<le> 90 then b - 55 else radix)
      in if d < radix then Some d else None)"

fun read_digits :: "nat \<Rightarrow> nat option \<Rightarrow> nat \<Rightarrow> nat \<Rightarrow> nat \<Rightarrow> (nat \<times> nat) reader" where
  "read_digits radix max_digits bound acc count [] = Some ((acc, count), [])"
| "read_digits radix max_digits bound acc count (c # cs) =
     (case to_digit radix c of
        None \<Rightarrow> Some ((acc, count), c # cs)
      | Some d \<Rightarrow>
          if bound \<le> acc * radix + d then None
          else if (case max_digits of None \<Rightarrow> False | Some m \<Rightarrow> m < Suc count) then None
          else read_digits radix max_digits bound (acc * radix + d) (Suc count) cs)"

definition read_number :: "nat \<Rightarrow> nat option \<Rightarrow> bool \<Rightarrow> nat \<Rightarrow> nat reader" where
  "read_number radix max_digits allow_zero_prefix bound s =
     (case read_digits radix max_digits bound 0 0 s of
        None \<Rightarrow> None
      | Some ((n, count), s1) \<Rightarrow>
          if count = 0 \<or> \<not> allow_zero_prefix \<and> take 1 s = ''0'' \<and> 1 < count then None
          else Some (n, s1))"

definition read_given_char :: "char \<Rightarrow> unit reader" where
  "read_given_char c s = (case s of [] \<Rightarrow> None | d # s1 \<Rightarrow> if c = d then Some ((), s1) else None)"

definition read_separator :: "char \<Rightarrow> nat \<Rightarrow> 'a reader \<Rightarrow> 'a reader" where
  "read_separator sep index inner s =
     (if 0 < index then Option.bind (read_given_char sep s) (\<lambda>(_, s1). inner s1) else inner s)"

text \<open>The loops run over the list of their indices.\<close>

fun read_octets :: "nat list \<Rightarrow> nat list reader" where
  "read_octets [] s = Some ([], s)"
| "read_octets (i # is) s =
     (case read_separator CHR ''.'' i (read_number 10 None False 256) s of
        None \<Rightarrow> None
      | Some (x, s1) \<Rightarrow>
        (case read_octets is s1 of None \<Rightarrow> None | Some (xs, s2) \<Rightarrow> Some (x # xs, s2)))"

definition read_ipv4_addr :: "nat list reader" where
  "read_ipv4_addr = read_octets [0, 1, 2, 3]"

text \<open>The groups read, whether they end with an embedded IPv4 address, and the rest.\<close>

fun read_groups :: "nat list \<Rightarrow> string \<Rightarrow> nat list \<times> bool \<times> string" where
  "read_groups [] s = ([], False, s)"
| "read_groups (i # is) s =
     (case (if is \<noteq> [] then read_separator CHR '':'' i read_ipv4_addr s else None) of
        Some (v4, s1) \<Rightarrow>
          ([256 * v4 ! 0 + v4 ! 1, 256 * v4 ! 2 + v4 ! 3], True, s1)
      | None \<Rightarrow>
        (case read_separator CHR '':'' i (read_number 16 (Some 4) True 65536) s of
           None \<Rightarrow> ([], False, s)
         | Some (g, s1) \<Rightarrow>
           (case read_groups is s1 of (gs, ipv4, s2) \<Rightarrow> (g # gs, ipv4, s2))))"

definition read_ipv6_addr :: "nat list reader" where
  "read_ipv6_addr s =
     (case read_groups [0, 1, 2, 3, 4, 5, 6, 7] s of
        (head, head_ipv4, s1) \<Rightarrow>
          if length head = 8 then Some (head, s1)
          else if head_ipv4 then None
          else if take 2 s1 \<noteq> ''::'' then None
          else
            (case read_groups (take (7 - length head) [0, 1, 2, 3, 4, 5, 6]) (drop 2 s1) of
               (tail, _, s2) \<Rightarrow> Some (head @ replicate (8 - length head - length tail) 0 @ tail, s2)))"

definition read_port :: "nat reader" where
  "read_port s = Option.bind (read_given_char CHR '':'' s) (\<lambda>(_, s1). read_number 10 None True 65536 s1)"

definition read_scope_id :: "nat reader" where
  "read_scope_id s =
     Option.bind (read_given_char CHR ''%'' s) (\<lambda>(_, s1). read_number 10 None True (2 ^ 32) s1)"

definition read_socket_addr_v4 :: "socket_addr reader" where
  "read_socket_addr_v4 s =
     Option.bind (read_ipv4_addr s) (\<lambda>(ip, s1).
     Option.bind (read_port s1) (\<lambda>(port, s2). Some (V4 (map of_nat ip) (of_nat port), s2)))"

definition read_socket_addr_v6 :: "socket_addr reader" where
  "read_socket_addr_v6 s =
     Option.bind (read_given_char CHR ''['' s) (\<lambda>(_, s1).
     Option.bind (read_ipv6_addr s1) (\<lambda>(ip, s2).
     let (scope_id, s3) = (case read_scope_id s2 of None \<Rightarrow> (0, s2) | Some x \<Rightarrow> x) in
     Option.bind (read_given_char CHR '']'' s3) (\<lambda>(_, s4).
     Option.bind (read_port s4) (\<lambda>(port, s5).
     Some (V6 (map of_nat ip) (of_nat scope_id) (of_nat port), s5)))))"

definition parse_socket_addr :: "string \<Rightarrow> socket_addr option" where
  "parse_socket_addr s =
     (case (case read_socket_addr_v4 s of None \<Rightarrow> read_socket_addr_v6 s | Some x \<Rightarrow> Some x) of
        Some (addr, []) \<Rightarrow> Some addr
      | _ \<Rightarrow> None)"

lemmas socket_addr_defs =
  parse_socket_addr_def read_socket_addr_v4_def read_socket_addr_v6_def read_scope_id_def read_port_def
  read_ipv6_addr_def read_ipv4_addr_def read_separator_def read_given_char_def read_number_def
  to_digit_def byte_def

lemma parse_socket_addr_samples:
  "parse_socket_addr ''127.0.0.1:8080'' = Some (V4 [127, 0, 0, 1] 8080)"
  "parse_socket_addr ''[::1]:80'' = Some (V6 [0, 0, 0, 0, 0, 0, 0, 1] 0 80)"
  "parse_socket_addr ''127.0.0.01:8080'' = None"
  "parse_socket_addr ''localhost:8080'' = None"
proof -
  have "replicate 7 (0 :: nat) = [0, 0, 0, 0, 0, 0, 0]" by code_simp
  then show "parse_socket_addr ''[::1]:80'' = Some (V6 [0, 0, 0, 0, 0, 0, 0, 1] 0 80)"
    by (simp add: socket_addr_defs Let_def)
qed (simp_all add: socket_addr_defs Let_def)

end
