(* ===== verification/Http.thy ===== *)
theory Http
  imports Sidecar Text_Forms
begin

text \<open>
  \<open>src/http.rs\<close>: the HTTP transport. axum and its router are outside the repository: \<open>serve\<close>
  hands them an \<open>app\<close> (routes, body limit, shared state) through the record \<open>http_server\<close>, and
  \<open>rpc_handler\<close> gets the headers and the body that axum extracted. Header names are lower
  case; \<open>to_str\<close> is \<open>HeaderValue::to_str\<close>, \<open>None\<close> when the value is not visible ASCII.
\<close>

section \<open>\<open>HttpConfig\<close>\<close>

record http_config =
  hc_addr :: socket_addr
  hc_auth_token :: "string option"

text \<open>The fields that the \<open>Debug\<close> form prints.\<close>

definition http_config_debug :: "http_config \<Rightarrow> socket_addr \<times> string option" where
  "http_config_debug config =
     (hc_addr config, map_option (\<lambda>_. ''<redacted>'') (hc_auth_token config))"

definition http_config_new :: "socket_addr \<Rightarrow> http_config" where
  "http_config_new addr = \<lparr>hc_addr = addr, hc_auth_token = None\<rparr>"

text \<open>\<open>None\<close> would be the panic of \<open>expect\<close>.\<close>

definition http_config_default :: "http_config option" where
  "http_config_default =
     map_option (\<lambda>a. \<lparr>hc_addr = a, hc_auth_token = None\<rparr>) (parse_socket_addr ''127.0.0.1:8080'')"

section \<open>The handlers\<close>

record app_state =
  as_handle :: gateway_handle
  as_stats :: stats
  as_db_path :: string
  as_auth_token :: "string option"

definition bearer_authorized ::
  "(string \<Rightarrow> string option) \<Rightarrow> (string \<times> string) list \<Rightarrow> string \<Rightarrow> bool" where
  "bearer_authorized to_str headers expected =
     (case Option.bind (Option.bind (map_of headers ''authorization'') to_str)
             (strip_prefix ''Bearer '') of
        None \<Rightarrow> False
      | Some token \<Rightarrow> token = expected)"

definition unauthorized_body :: "'n json" where
  "unauthorized_body = json_obj [(''error'', JString ''unauthorized'')]"

definition rpc_error_body :: "'n serde \<Rightarrow> i64 \<Rightarrow> string \<Rightarrow> 'n json" where
  "rpc_error_body S code message =
     json_obj
       [(''jsonrpc'', JString ''2.0''), (''id'', JNull),
        (''error'', json_obj [(''code'', JNumber (num_of_i64 S code)), (''message'', JString message)])]"

text \<open>The result is the status code with the JSON body; \<open>None\<close> is a panic of the task.\<close>

definition rpc_handler ::
  "('n, 'c, 'e) env \<Rightarrow> ('n, 'c, 'e, 's) runtime \<Rightarrow> (string \<Rightarrow> string option) \<Rightarrow> app_state \<Rightarrow>
   (string \<times> string) list \<Rightarrow> string \<Rightarrow> 's \<times> stats \<Rightarrow> (nat \<times> 'n json) option \<times> 's \<times> stats" where
  "rpc_handler E rt to_str state headers body ctx =
     (if (case as_auth_token state of
            Some expected \<Rightarrow> \<not> bearer_authorized to_str headers expected
          | None \<Rightarrow> False)
      then (Some (401, unauthorized_body), ctx)
      else if \<not> valid_utf8 body then
        (Some (200, rpc_error_body (serde E) (-32700) ''request body is not valid UTF-8''), ctx)
      else
        (case dispatch E rt (as_handle state) (as_db_path state) body ctx of
           (None, ctx1) \<Rightarrow> (None, ctx1)
         | (Some reply, ctx1) \<Rightarrow>
             (Some (200, (case from_text (serde E) reply of
                            Inr v \<Rightarrow> v
                          | Inl _ \<Rightarrow> rpc_error_body (serde E) (-32603) ''internal error'')), ctx1)))"

definition health_handler :: "nat \<times> 'n json" where
  "health_handler = (200, json_obj [(''status'', JString ''ok'')])"

section \<open>\<open>HttpGateway\<close>\<close>

record http_gateway =
  hg_handle :: gateway_handle
  hg_stats :: stats
  hg_db_path :: string

definition http_gateway_new :: "gateway_handle \<Rightarrow> string \<Rightarrow> http_gateway" where
  "http_gateway_new h db_path = \<lparr>hg_handle = h, hg_stats = stats_new, hg_db_path = db_path\<rparr>"

definition with_stats :: "gateway_handle \<Rightarrow> stats \<Rightarrow> string \<Rightarrow> http_gateway" where
  "with_stats h st db_path = \<lparr>hg_handle = h, hg_stats = st, hg_db_path = db_path\<rparr>"

datatype http_method = GET | POST
datatype endpoint = Rpc_Handler | Health_Handler

record app =
  app_routes :: "(string \<times> http_method \<times> endpoint) list"
  app_body_limit :: nat
  app_shared :: app_state

text \<open>
  \<open>serve_app\<close> is \<open>axum::serve(...).with_graceful_shutdown(shutdown)\<close> on the listener that
  \<open>bind_tcp\<close> opened.
\<close>

record 's http_server =
  bind_tcp :: "socket_addr \<Rightarrow> 's \<Rightarrow> (string + unit) \<times> 's"
  serve_app :: "app \<Rightarrow> 's \<Rightarrow> (string + unit) \<times> 's"

definition http_app :: "http_gateway \<Rightarrow> http_config \<Rightarrow> app" where
  "http_app gw config =
     \<lparr>app_routes = [(''/rpc'', POST, Rpc_Handler), (''/health'', GET, Health_Handler)],
      app_body_limit = MAX_LINE_BYTES,
      app_shared = \<lparr>as_handle = hg_handle gw, as_stats = hg_stats gw, as_db_path = hg_db_path gw,
        as_auth_token = hc_auth_token config\<rparr>\<rparr>"

definition serve ::
  "'s http_server \<Rightarrow> http_gateway \<Rightarrow> http_config \<Rightarrow> 's \<Rightarrow> ('e error + unit) \<times> 's" where
  "serve srv gw config s =
     (case bind_tcp srv (hc_addr config) s of
        (Inl e, s1) \<Rightarrow> (Inl (Io e), s1)
      | (Inr _, s1) \<Rightarrow>
        (case serve_app srv (http_app gw config) s1 of
           (Inl e, s2) \<Rightarrow> (Inl (Io e), s2)
         | (Inr _, s2) \<Rightarrow> (Inr (), s2)))"

section \<open>Lemmas\<close>

lemma http_config_default_localhost:
  "http_config_default = Some (http_config_new (V4 [127, 0, 0, 1] 8080))"
  by (simp add: http_config_default_def http_config_new_def parse_socket_addr_samples)

text \<open>Which header lets a request through.\<close>

lemma bearer_authorized_iff:
  "bearer_authorized to_str headers expected \<longleftrightarrow>
     (\<exists>v. map_of headers ''authorization'' = Some v \<and> to_str v = Some (''Bearer '' @ expected))"
proof -
  have opt: "(case x of None \<Rightarrow> False | Some token \<Rightarrow> token = expected) \<longleftrightarrow> x = Some expected" for x
    by (cases x) auto
  show ?thesis
    unfolding bearer_authorized_def opt Option.bind_eq_Some_conv strip_prefix_Some by blast
qed

definition request_allowed :: "(string \<Rightarrow> string option) \<Rightarrow> app_state \<Rightarrow> (string \<times> string) list \<Rightarrow> bool" where
  "request_allowed to_str state headers \<longleftrightarrow>
     (case as_auth_token state of None \<Rightarrow> True
      | Some expected \<Rightarrow> \<exists>v. map_of headers ''authorization'' = Some v \<and> to_str v = Some (''Bearer '' @ expected))"

lemma rpc_handler_cases:
  obtains (denied) "\<not> request_allowed to_str state headers"
      "rpc_handler E rt to_str state headers body ctx = (Some (401, unauthorized_body), ctx)"
  | (garbled) "request_allowed to_str state headers" "\<not> valid_utf8 body"
      "rpc_handler E rt to_str state headers body ctx
        = (Some (200, rpc_error_body (serde E) (-32700) ''request body is not valid UTF-8''), ctx)"
  | (dispatched) "request_allowed to_str state headers" "valid_utf8 body"
      "rpc_handler E rt to_str state headers body ctx =
        (map_option (\<lambda>reply. (200, (case from_text (serde E) reply of Inr v \<Rightarrow> v
            | Inl _ \<Rightarrow> rpc_error_body (serde E) (-32603) ''internal error'')))
          (fst (dispatch E rt (as_handle state) (as_db_path state) body ctx)),
         snd (dispatch E rt (as_handle state) (as_db_path state) body ctx))"
proof -
  have guard: "(case as_auth_token state of Some expected \<Rightarrow> \<not> bearer_authorized to_str headers expected
      | None \<Rightarrow> False) = (\<not> request_allowed to_str state headers)"
    by (simp add: request_allowed_def bearer_authorized_iff split: option.split)
  obtain x ctx1 where d: "dispatch E rt (as_handle state) (as_db_path state) body ctx = (x, ctx1)"
    by (metis surj_pair)
  note run = rpc_handler_def [of E rt to_str state headers body ctx, unfolded guard d]
  consider "\<not> request_allowed to_str state headers"
    | "request_allowed to_str state headers" "\<not> valid_utf8 body"
    | "request_allowed to_str state headers" "valid_utf8 body" by blast
  then show ?thesis
  proof cases
    case 1
    then show ?thesis using denied run by simp
  next
    case 2
    then show ?thesis using garbled run by simp
  next
    case 3
    then show ?thesis using dispatched run d by (cases x) simp_all
  qed
qed

end
