(* ===== verification/Cli.thy ===== *)
theory Cli
  imports Http
begin

text \<open>
  \<open>src/bin/squeuelite-gateway.rs\<close>: argument parsing and the launch of the transports. Of what
  is printed on standard error, the banner is modelled as it is and the notices of the
  argument parser are named instead of spelled out; the rest is left out. The Ctrl-C future belongs to the parameters that serve until shutdown.
\<close>

section \<open>Arguments\<close>

record args =
  ar_db_path :: string
  ar_socket_path :: "string option"
  ar_socket_mode :: "u32 option"
  ar_http_addr :: "string option"
  ar_http_token :: "string option"

text \<open>The local variables of \<open>parse_args\<close>.\<close>

record arg_flags =
  fl_db :: "string option"
  fl_socket :: "string option"
  fl_socket_mode :: "u32 option"
  fl_http_addr :: "string option"
  fl_http_token :: "string option"

definition no_flags :: arg_flags where
  "no_flags = \<lparr>fl_db = None, fl_socket = None, fl_socket_mode = None, fl_http_addr = None,
     fl_http_token = None\<rparr>"

datatype notice =
    Token_Visible
  | Invalid_Mode string
  | Db_Required
  | Transport_Required
  | Usage

text \<open>
  The loop from \<open>i = 1\<close>: \<open>Inl\<close> is \<open>exit(2)\<close> with the notices printed so far. A flag in last
  place has no value and is ignored.
\<close>

fun arg_loop :: "notice list \<Rightarrow> arg_flags \<Rightarrow> string list \<Rightarrow> notice list + arg_flags \<times> notice list" where
  "arg_loop out f [] = Inr (f, out)"
| "arg_loop out f [a] = Inr (f, out)"
| "arg_loop out f (a # v # rest) =
     (if a = ''--db'' then arg_loop out (f\<lparr>fl_db := Some v\<rparr>) rest
      else if a = ''--socket'' then arg_loop out (f\<lparr>fl_socket := Some v\<rparr>) rest
      else if a = ''--socket-mode'' then
        (case from_str_radix_8 v of
           Some mode \<Rightarrow> arg_loop out (f\<lparr>fl_socket_mode := Some mode\<rparr>) rest
         | None \<Rightarrow> Inl (out @ [Invalid_Mode v, Usage]))
      else if a = ''--http'' then arg_loop out (f\<lparr>fl_http_addr := Some v\<rparr>) rest
      else if a = ''--http-token'' then
        arg_loop (out @ [Token_Visible]) (f\<lparr>fl_http_token := Some v\<rparr>) rest
      else arg_loop out f (v # rest))"

text \<open>\<open>env_token\<close> is \<open>std::env::var("SQUEUELITE_HTTP_TOKEN").ok()\<close>.\<close>

definition parse_args :: "string list \<Rightarrow> string option \<Rightarrow> notice list + args \<times> notice list" where
  "parse_args argv env_token =
     (case arg_loop [] no_flags (drop 1 argv) of
        Inl out \<Rightarrow> Inl out
      | Inr (f, out) \<Rightarrow>
        (case fl_db f of
           None \<Rightarrow> Inl (out @ [Db_Required, Usage])
         | Some db_path \<Rightarrow>
             if fl_socket f = None \<and> fl_http_addr f = None
             then Inl (out @ [Transport_Required, Usage])
             else Inr
               (\<lparr>ar_db_path = db_path, ar_socket_path = fl_socket f, ar_socket_mode = fl_socket_mode f,
                 ar_http_addr = fl_http_addr f,
                 ar_http_token =
                   (case env_token of
                      None \<Rightarrow> fl_http_token f
                    | Some t \<Rightarrow> if t = [] then fl_http_token f else Some t)\<rparr>, out)))"

section \<open>Server tasks\<close>

datatype server_task =
    Uds_Task string u32 gateway_handle stats string
  | Http_Task http_gateway http_config

definition run_uds_inline ::
  "'s os \<Rightarrow> string \<Rightarrow> u32 \<Rightarrow> gateway_handle \<Rightarrow> stats \<Rightarrow> string \<Rightarrow> 's \<Rightarrow> ('e error + unit) \<times> 's" where
  "run_uds_inline os socket_path socket_mode h st db_path s =
     (let s0 = remove_file os socket_path s in
      case bind_socket os socket_path s0 of
        (Inl e, s1) \<Rightarrow> (Inl (Io e), s1)
      | (Inr _, s1) \<Rightarrow>
        (case set_permissions os socket_path socket_mode s1 of
           (permitted, s2) \<Rightarrow>
             let s3 = (case permitted of
                         Inl e \<Rightarrow> warn_permissions os socket_mode socket_path e s2
                       | Inr _ \<Rightarrow> s2);
                 s4 = serve_until os h st db_path s3
             in (Inr (), remove_file os socket_path s4)))"

fun task_body :: "'s os \<Rightarrow> 's http_server \<Rightarrow> server_task \<Rightarrow> 's \<Rightarrow> ('e error + unit) \<times> 's" where
  "task_body os srv (Uds_Task path mode h st db_path) s = run_uds_inline os path mode h st db_path s"
| "task_body os srv (Http_Task gw config) s = serve srv gw config s"

text \<open>\<open>tokio::spawn\<close> of a task body, and the awaits of the handles in order.\<close>

record 's executor =
  spawn_task :: "server_task \<Rightarrow> 's \<Rightarrow> 's"
  join_tasks :: "server_task list \<Rightarrow> 's \<Rightarrow> 's"

section \<open>\<open>main\<close>\<close>

text \<open>How the process ends; an early exit has no runtime state yet.\<close>

datatype 's outcome =
    Panicked
  | Exited nat "'s option"
  | Returned 's

definition socket_mode_or_default :: "args \<Rightarrow> u32" where
  "socket_mode_or_default a = (case ar_socket_mode a of None \<Rightarrow> 6 * 8 ^ 2 | Some m \<Rightarrow> m)"

definition sidecar_main ::
  "('n, 'c, 'e) env \<Rightarrow> ('n, 'c, 'e, 's) runtime \<Rightarrow> 's os \<Rightarrow> args \<Rightarrow> string \<Rightarrow> 's outcome" where
  "sidecar_main E rt os a socket_path =
     (case sidecar_open E rt
             \<lparr>scfg_gateway = gateway_config_new (ar_db_path a), scfg_socket_path = socket_path,
              scfg_socket_mode = socket_mode_or_default a\<rparr> of
        None \<Rightarrow> Panicked
      | Some (Inl e) \<Rightarrow> Exited 1 None
      | Some (Inr (sg, s)) \<Rightarrow>
        (case sidecar_run rt os sg s :: ('e error + unit) \<times> 's of
           (Inl e, s1) \<Rightarrow> Exited 1 (Some s1)
         | (Inr _, s1) \<Rightarrow> Returned s1))"

definition uds_tasks :: "args \<Rightarrow> gateway \<Rightarrow> server_task list" where
  "uds_tasks a inner =
     (case ar_socket_path a of
        None \<Rightarrow> []
      | Some p \<Rightarrow> [Uds_Task p (socket_mode_or_default a) (handle inner) stats_new (gateway_db_path inner)])"

definition shared_main ::
  "('n, 'c, 'e) env \<Rightarrow> ('n, 'c, 'e, 's) runtime \<Rightarrow> 's executor \<Rightarrow> args \<Rightarrow> 's outcome" where
  "shared_main E rt ex a =
     (case open_with_config E rt (gateway_config_new (ar_db_path a)) of
        None \<Rightarrow> Panicked
      | Some (Inl e) \<Rightarrow> Exited 1 None
      | Some (Inr (inner, s)) \<Rightarrow>
        (let s1 = fold (spawn_task ex) (uds_tasks a inner) s in
         case ar_http_addr a of
           None \<Rightarrow> Panicked
         | Some http_addr_str \<Rightarrow>
           (case parse_socket_addr http_addr_str of
              None \<Rightarrow> Exited 2 (Some s1)
            | Some addr \<Rightarrow>
                let task = Http_Task (with_stats (handle inner) stats_new (gateway_db_path inner))
                             \<lparr>hc_addr = addr, hc_auth_token = ar_http_token a\<rparr>;
                    s2 = spawn_task ex task s1;
                    s3 = join_tasks ex (uds_tasks a inner @ [task]) s2
                in Returned (snd (shutdown rt inner s3 :: ('e error + unit) \<times> 's)))))"

text \<open>The first line on standard error.\<close>

definition banner :: "args \<Rightarrow> string" where
  "banner a =
     ''[squeuelite-gateway] db='' @ ar_db_path a
     @ (case ar_socket_path a of None \<Rightarrow> [] | Some s \<Rightarrow> '' socket='' @ s)
     @ (case ar_socket_mode a of None \<Rightarrow> [] | Some m \<Rightarrow> '' socket_mode=0o'' @ to_octal (unat m))
     @ (case ar_http_addr a of None \<Rightarrow> [] | Some x \<Rightarrow> '' http='' @ x)
     @ (if ar_http_token a \<noteq> None then '' http_auth=bearer'' else [])"

text \<open>\<open>http_feature\<close>: the binary was built with the feature \<open>http\<close>.\<close>

definition gateway_main ::
  "('n, 'c, 'e) env \<Rightarrow> ('n, 'c, 'e, 's) runtime \<Rightarrow> 's os \<Rightarrow> 's executor \<Rightarrow> bool \<Rightarrow> string list \<Rightarrow>
   string option \<Rightarrow> 's outcome" where
  "gateway_main E rt os ex http_feature argv env_token =
     (case parse_args argv env_token of
        Inl out \<Rightarrow> Exited 2 None
      | Inr (a, out) \<Rightarrow>
        (case (ar_socket_path a, ar_http_addr a) of
           (Some socket_path, None) \<Rightarrow> sidecar_main E rt os a socket_path
         | _ \<Rightarrow> if http_feature then shared_main E rt ex a else Exited 2 None))"

section \<open>Lemmas\<close>

text \<open>The binary repeats the socket part of \<open>SidecarGateway::run\<close>.\<close>

lemma run_uds_inline_serve_socket:
  "run_uds_inline os p m h st db s = serve_socket os p m h st db s"
  by (simp add: run_uds_inline_def serve_socket_def Let_def split: prod.splits sum.splits)

text \<open>Neither the banner nor the \<open>Debug\<close> form of the configuration depends on the token itself.\<close>

lemma token_not_shown:
  "banner (a\<lparr>ar_http_token := Some t\<rparr>) = banner (a\<lparr>ar_http_token := Some t'\<rparr>)"
  "http_config_debug (config\<lparr>hc_auth_token := Some t\<rparr>) = http_config_debug (config\<lparr>hc_auth_token := Some t'\<rparr>)"
  by (simp_all add: banner_def http_config_debug_def)

text \<open>Command lines as lists of options, and how they are written.\<close>

datatype cli_option =
    Db string
  | Socket string
  | Socket_Mode u32
  | Http_Addr string
  | Http_Token string

fun render :: "cli_option \<Rightarrow> string list" where
  "render (Db v) = [''--db'', v]"
| "render (Socket v) = [''--socket'', v]"
| "render (Socket_Mode m) = [''--socket-mode'', to_octal (unat m)]"
| "render (Http_Addr v) = [''--http'', v]"
| "render (Http_Token v) = [''--http-token'', v]"

fun set_option :: "cli_option \<Rightarrow> arg_flags \<Rightarrow> arg_flags" where
  "set_option (Db v) f = f\<lparr>fl_db := Some v\<rparr>"
| "set_option (Socket v) f = f\<lparr>fl_socket := Some v\<rparr>"
| "set_option (Socket_Mode m) f = f\<lparr>fl_socket_mode := Some m\<rparr>"
| "set_option (Http_Addr v) f = f\<lparr>fl_http_addr := Some v\<rparr>"
| "set_option (Http_Token v) f = f\<lparr>fl_http_token := Some v\<rparr>"

fun option_notices :: "cli_option \<Rightarrow> notice list" where
  "option_notices (Http_Token v) = [Token_Visible]"
| "option_notices _ = []"

lemma arg_loop_option:
  "arg_loop out f (render opt @ rest) = arg_loop (out @ option_notices opt) (set_option opt f) rest"
  by (cases opt) (simp_all add: from_str_radix_8_to_octal)

lemma arg_loop_render:
  "arg_loop out f (concat (map render opts)) =
    Inr (fold set_option opts f, out @ concat (map option_notices opts))"
  by (induction opts arbitrary: out f) (simp_all add: arg_loop_option)

lemma parse_args_Inr:
  assumes "parse_args argv env_token = Inr (a, out)"
  shows "ar_socket_path a \<noteq> None \<or> ar_http_addr a \<noteq> None"
    and "env_token = Some t \<Longrightarrow> t \<noteq> [] \<Longrightarrow> ar_http_token a = Some t"
  using assms by (auto simp: parse_args_def split: sum.splits option.splits if_splits)

lemma open_with_config_total:
  assumes "channel_ok rt (cfg_queue_capacity config)"
  shows "open_with_config E rt config \<noteq> None"
  using assms by (auto simp: open_with_config_def split: sum.splits prod.splits)

lemma gateway_main_no_panic:
  assumes "\<And>n. 0 < n \<Longrightarrow> channel_ok rt n"
  shows "gateway_main E rt os ex http_feature argv env_token \<noteq> Panicked"
proof -
  have cap: "channel_ok rt (cfg_queue_capacity (gateway_config_new p))" for p
    by (rule assms) (simp add: gateway_config_new_def gateway_config_default_def)
  note total = open_with_config_total [OF cap]
  show ?thesis
  proof (cases "parse_args argv env_token")
    case (Inl out)
    then show ?thesis by (simp add: gateway_main_def)
  next
    case (Inr x)
    obtain a out where x: "x = (a, out)" by fastforce
    have transport: "ar_socket_path a \<noteq> None \<or> ar_http_addr a \<noteq> None"
      using parse_args_Inr(1) Inr x by blast
    have "sidecar_main E rt os a p \<noteq> Panicked" for p
      using total [of E "ar_db_path a"]
      by (auto simp: sidecar_main_def sidecar_open_def split: option.splits sum.splits prod.splits)
    moreover have "shared_main E rt ex a \<noteq> Panicked" if "ar_http_addr a \<noteq> None"
      using that total [of E "ar_db_path a"]
      by (auto simp: shared_main_def Let_def split: option.splits sum.splits prod.splits)
    ultimately show ?thesis using transport
      by (auto simp: gateway_main_def Inr x split: option.splits)
  qed
qed

end
