(* ===== verification/Rpc_Theorems.thy ===== *)
theory Rpc_Theorems
  imports Reference Client Squeue Cli
begin

text \<open>
  The properties of the transports, the dispatcher, the clients and the binary, with their
  witnesses on the reference store and runtime.
\<close>

section \<open>Samples\<close>

definition sample_net :: "nat \<Rightarrow> ref_net" where
  "sample_net cap = spawn_writer ref_runtime cap (sample_writer True True [])"

abbreviation sample_handle :: gateway_handle where
  "sample_handle \<equiv> \<lparr>gh_overflow = Wait\<rparr>"

definition sample_line :: string where
  "sample_line = enc (execute_call (sample_request ''r1'' None [''INSERT a'']))"

section \<open>The dispatcher\<close>

text \<open>C19. Every line gets an answer: \<open>dispatch\<close> does not panic as long as the latency buffer
  respects its capacity, and the reply is the text of a JSON-RPC success or of an error with
  one of the documented codes, with the \<open>id\<close> of the request (or \<open>null\<close>).\<close>

lemma dispatch_answers_every_line:
  assumes "json_text (serde E)" and "length (entries (shared_latency rt (fst ctx))) \<le> LATENCY_BUF_CAP"
  shows "\<exists>t. fst (dispatch E rt h db_path line ctx) = Some t
    \<and> reply_text (serde E) (line_id (serde E) line) t"
proof (cases rule: dispatch_cases [of E rt h db_path line ctx])
  case (refused code m)
  then have "code \<in> rpc_codes" by (auto simp: rpc_codes_def)
  from json_text.reply_err [OF assms(1) this] refused(2) show ?thesis by simp
next
  case (called req meth)
  then have "line_id (serde E) line = rr_id req" by (simp add: line_id_def)
  moreover obtain t where "fst (dispatch_method E rt h db_path (rr_id req) meth (rr_params req) ctx) = Some t"
    using dispatch_method_total [of rt "fst ctx" E h db_path "rr_id req" meth "rr_params req" "snd ctx"] assms(2)
    by auto
  ultimately show ?thesis using dispatch_method_text [OF assms(1)] called(4) by metis
qed

lemma dispatch_answers_every_line_witness:
  "\<exists>t. fst (dispatch ref_env ref_runtime sample_handle ''app.db'' sample_line (sample_net 4, stats_new)) = Some t
    \<and> reply_text ref_serde (JString ''r1'') t"
proof -
  have "length (entries (shared_latency ref_runtime (fst (sample_net 4, stats_new)))) \<le> LATENCY_BUF_CAP"
    by code_simp
  moreover have "line_id ref_serde sample_line = JString ''r1''" by code_simp
  ultimately show ?thesis
    using dispatch_answers_every_line [of ref_env ref_runtime "(sample_net 4, stats_new)" sample_handle "''app.db''" sample_line]
      ref_text.json_text_axioms by simp
qed

definition effective_line :: "'n serde \<Rightarrow> string \<Rightarrow> bool" where
  "effective_line S line \<longleftrightarrow>
     (case line_request S line of
        None \<Rightarrow> False
      | Some req \<Rightarrow> rr_jsonrpc req = Some ''2.0''
          \<and> (rr_method req = Some ''execute'' \<and> \<not> isl (parse_execute (rr_params req))
             \<or> rr_method req = Some ''checkpoint''))"

text \<open>C26. A line that is not a well-formed \<open>execute\<close> or a \<open>checkpoint\<close> changes nothing: neither the
  queue nor the counters see it, whatever is wrong with it.\<close>

lemma refused_line_no_effect:
  assumes "\<not> effective_line (serde E) line"
  shows "snd (dispatch E rt h db_path line ctx) = ctx"
proof (cases rule: dispatch_cases [of E rt h db_path line ctx])
  case (refused code m)
  then show ?thesis by simp
next
  case (called req meth)
  obtain s st where ctx: "ctx = (s, st)" by fastforce
  show ?thesis
  proof (cases "meth = ''execute''")
    case True
    then obtain m where "parse_execute (rr_params req) = Inl m"
      using assms called(1-3) by (cases "parse_execute (rr_params req)") (auto simp: effective_line_def)
    then show ?thesis using called(4) True ctx by (simp add: dispatch_method_def dispatch_execute_def)
  next
    case False
    moreover have "meth \<noteq> ''checkpoint''" using assms called(1-3) by (auto simp: effective_line_def)
    ultimately show ?thesis using called(4) ctx by (simp add: dispatch_method_def)
  qed
qed

lemma refused_line_no_effect_witness:
  "snd (dispatch ref_env ref_runtime sample_handle ''app.db'' (enc (admin_call ''i'' ''drop all''))
     (sample_net 4, stats_new)) = (sample_net 4, stats_new)"
proof -
  have "\<not> effective_line ref_serde (enc (admin_call ''i'' ''drop all''))" by code_simp
  then show ?thesis
    using refused_line_no_effect [of ref_env "enc (admin_call ''i'' ''drop all'')"] by simp
qed

section \<open>The queue\<close>

text \<open>C18. One call of \<open>GatewayHandle::execute\<close> queues its request at most once, under every
  overflow policy. A response is one that the writer sent for it; \<open>GatewayOverloaded\<close> means
  that it was not queued, and only \<open>GatewayClosed\<close> leaves that open.\<close>

lemma execute_queued_once:
  assumes "command_queue rt sent replied" and "handle_execute rt h r s = (x, s')"
  shows "let t = fst (oneshot rt s) in case x of
      Inr resp \<Rightarrow> on_slot t (sent s') = [Write r t] \<and> WriteReply t resp \<in> set (replied s')
    | Inl e \<Rightarrow> on_slot t (sent s') = [] \<or> e = GatewayClosed \<and> on_slot t (sent s') = [Write r t]"
  using assms by (rule command_queue.execute_queue)

lemma execute_queued_once_witness:
  "\<exists>resp s'. handle_execute ref_runtime sample_handle (sample_request ''r1'' None [''INSERT a'']) (sample_net 4)
      = (Inr resp, s')
    \<and> on_slot 1 (net_sent s') = [Write (sample_request ''r1'' None [''INSERT a'']) 1]"
proof -
  let ?r = "sample_request ''r1'' None [''INSERT a'']"
  obtain x s' where run: "handle_execute ref_runtime sample_handle ?r (sample_net 4) = (x, s')" by fastforce
  have "\<not> isl (fst (handle_execute ref_runtime sample_handle ?r (sample_net 4)))" by code_simp
  then obtain resp where x: "x = Inr resp" using run by (cases x) auto
  have "fst (oneshot ref_runtime (sample_net 4)) = 1" by code_simp
  with execute_queued_once [OF ref_queue.command_queue_axioms run] x
  have "on_slot 1 (net_sent s') = [Write ?r 1]" by (simp add: Let_def)
  then show ?thesis using run x by blast
qed

lemma answers_reply:
  "answers cs rs l \<Longrightarrow> WriteReply t resp \<in> set rs \<Longrightarrow> \<exists>r. Write r t \<in> set cs \<and> (r, resp) \<in> set l"
  by (induction rule: answers.induct) auto

text \<open>From the caller to the disk: if the writer's loop works off a queue that holds only
  commands sent through the channel, and the replies the channel delivers are the loop's,
  then a response that \<open>execute\<close> returns belongs to that very request at one place in the
  order in which the loop has served its requests, one after the other, on the database.\<close>

lemma answer_was_served:
  assumes "gateway_loop E A rx pending" and "command_queue rt sent replied"
    and "handle_execute rt h r s = (Inr resp, s')"
    and "idle A (w_conn w)" and "\<forall>request t. Write request t \<in> set (pending q) \<longrightarrow> plain_request A request"
    and "set (pending q) \<subseteq> set (sent s')"
    and "run E rx w [] q = Some (rs, w', q')" and "set (replied s') \<subseteq> set rs"
  shows "\<exists>before after. serves_all E A (w_config w) (w_track_commits w) (w_idempotency w)
    (durable A (w_conn w)) (before @ (r, resp) # after) (durable A (w_conn w'))"
proof -
  let ?t = "fst (oneshot rt s)"
  have q: "on_slot ?t (sent s') = [Write r ?t]" "WriteReply ?t resp \<in> set (replied s')"
    using command_queue.execute_queue [OF assms(2,3)] by (simp_all add: Let_def)
  obtain l where l: "answers (takeWhile (\<lambda>c. c \<noteq> Shutdown) (pending q)) rs l"
      "serves_all E A (w_config w) (w_track_commits w) (w_idempotency w)
        (durable A (w_conn w)) l (durable A (w_conn w'))"
    using gateway_loop.run_serves [OF assms(1,4,5), of "[]"] assms(7) by auto
  obtain r' where r': "Write r' ?t \<in> set (takeWhile (\<lambda>c. c \<noteq> Shutdown) (pending q))" "(r', resp) \<in> set l"
    using answers_reply [OF l(1)] q(2) assms(8) by blast
  then have "Write r' ?t \<in> set (sent s')" using assms(6) by (auto dest: set_takeWhileD)
  then have "Write r' ?t \<in> set (on_slot ?t (sent s'))" by (simp add: on_slot_def)
  with q(1) r'(2) have "(r, resp) \<in> set l" by simp
  then obtain before after where "l = before @ (r, resp) # after" by (meson split_list)
  with l(2) show ?thesis by blast
qed

lemma answer_was_served_witness:
  "\<exists>(w' :: ref_conn writer) before after. serves_all ref_env ref_reading (gateway_config_new ''app.db'') True True empty_db
     (before @ (sample_request ''r1'' None [''INSERT a''], committed ''r1'' (Some 1)) # after) (disk (w_conn w'))"
proof -
  let ?r = "sample_request ''r1'' None [''INSERT a'']" and ?w = "sample_writer True True []"
  let ?q = "[[Write ?r 1]]"
  obtain x s' where ex: "handle_execute ref_runtime sample_handle ?r (sample_net 4) = (x, s')" by fastforce
  obtain rs w' q' where run: "run ref_env burst_rx ?w [] ?q = Some (rs, w', q')"
  proof -
    have "run ref_env burst_rx ?w [] ?q \<noteq> None" by code_simp
    then show ?thesis using that by (cases "run ref_env burst_rx ?w [] ?q") auto
  qed
  have "fst (handle_execute ref_runtime sample_handle ?r (sample_net 4)) = Inr (committed ''r1'' (Some 1))"
    by code_simp
  with ex have x: "x = Inr (committed ''r1'' (Some 1))" by simp
  have "net_sent (snd (handle_execute ref_runtime sample_handle ?r (sample_net 4))) = [Write ?r 1]"
    "net_replies (snd (handle_execute ref_runtime sample_handle ?r (sample_net 4)))
      = [WriteReply 1 (committed ''r1'' (Some 1))]" by code_simp+
  with ex have s': "net_sent s' = [Write ?r 1]" "net_replies s' = [WriteReply 1 (committed ''r1'' (Some 1))]"
    by simp_all
  have "map_option fst (run ref_env burst_rx ?w [] ?q) = Some [WriteReply 1 (committed ''r1'' (Some 1))]"
    by code_simp
  with run have rs: "rs = [WriteReply 1 (committed ''r1'' (Some 1))]" by simp
  have "idle ref_reading (w_conn ?w)" and "plain_request ref_reading ?r" by code_simp+
  then have "\<exists>before after. serves_all ref_env ref_reading (w_config ?w) (w_track_commits ?w)
      (w_idempotency ?w) (durable ref_reading (w_conn ?w)) (before @ (?r, committed ''r1'' (Some 1)) # after)
      (durable ref_reading (w_conn w'))"
    using answer_was_served [OF ref_loop.gateway_loop_axioms ref_queue.command_queue_axioms ex [unfolded x]
        _ _ _ run] s' rs by simp
  then show ?thesis by (simp only: sample_writer_sel ref_durable) blast
qed

end
