(* ===== verification/Transport_Theorems.thy ===== *)
theory Transport_Theorems
  imports Rpc_Theorems
begin

text \<open>
  The properties of the two transports, of the clients, of start-up and of the binary.
\<close>

section \<open>Connections\<close>

text \<open>C25. A connection answers its lines one by one: as long as every line is within the limit
  and no write fails, it dispatches exactly the lines received, in order, and writes exactly
  their replies, in the same order.\<close>

lemma connection_in_order:
  assumes "incoming k = map Inr ls" and "write_results k = []" and "list_all acceptable_line ls"
    and "answer_lines E rt h p ls ctx = (rs, ctx')" and "length rs = length ls"
  shows "handle_connection E rt h p k ctx =
    (k\<lparr>incoming := [], outgoing := outgoing k @ map (\<lambda>r. r @ nl) rs\<rparr>, ctx')"
  using assms by (rule handle_connection_all)

definition sample_lines :: "string list" where
  "sample_lines = [sample_line @ nl, enc (admin_call ''i'' ''health'') @ nl]"

lemma connection_in_order_witness:
  "outgoing (fst (handle_connection ref_env ref_runtime sample_handle ''app.db''
      \<lparr>incoming = map Inr sample_lines, write_results = [], outgoing = []\<rparr> (sample_net 4, stats_new)))
   = map (\<lambda>r. r @ nl)
       (fst (answer_lines ref_env ref_runtime sample_handle ''app.db'' sample_lines (sample_net 4, stats_new)))"
proof -
  let ?k = "\<lparr>incoming = map Inr sample_lines, write_results = [], outgoing = []\<rparr>"
  let ?a = "answer_lines ref_env ref_runtime sample_handle ''app.db'' sample_lines (sample_net 4, stats_new)"
  have acceptable: "list_all acceptable_line sample_lines"
  proof -
    have "list_all (\<lambda>l. l \<noteq> [] \<and> length l < 300) sample_lines" by code_simp
    then show ?thesis by (auto simp: list_all_iff acceptable_line_def MAX_LINE_BYTES_def)
  qed
  obtain rs ctx' where a: "?a = (rs, ctx')" by (metis surj_pair)
  have "length (fst ?a) = 2" by code_simp
  then have "length rs = length sample_lines" unfolding a by (simp add: sample_lines_def)
  then have "handle_connection ref_env ref_runtime sample_handle ''app.db'' ?k (sample_net 4, stats_new)
      = (?k\<lparr>incoming := [], outgoing := outgoing ?k @ map (\<lambda>r. r @ nl) rs\<rparr>, ctx')"
    by (rule connection_in_order [OF _ _ acceptable a, rotated 2]) simp_all
  then show ?thesis unfolding a by simp
qed

text \<open>C24. Whatever the peer and the operating system do, a connection dispatches a prefix of the
  lines that came in, each within the limit and in order, and writes a prefix of the replies;
  the only other text it can write is one last notice of a line that was too long.\<close>

lemma connection_safe:
  assumes "handle_connection E rt h p k ctx = (k', ctx')"
  shows "\<exists>ls rs more m. (\<exists>rest. incoming k = map Inr ls @ rest) \<and> list_all acceptable_line ls
    \<and> answer_lines E rt h p ls ctx = (rs, ctx')
    \<and> outgoing k' = outgoing k @ map (\<lambda>r. r @ nl) (take m rs) @ more
    \<and> (more = [] \<or> (\<exists>n > MAX_LINE_BYTES. more = [line_too_long (serde E) n @ nl]))"
  using assms by (rule handle_connection_safe)

lemma connection_safe_witness:
  "\<exists>k' ctx'. handle_connection ref_env ref_runtime sample_handle ''app.db''
      \<lparr>incoming = [Inr (sample_line @ nl), Inl ''reset''], write_results = [Inl ''pipe''], outgoing = []\<rparr>
      (sample_net 4, stats_new) = (k', ctx')
    \<and> (\<exists>ls rs. (\<exists>rest. [Inr (sample_line @ nl), Inl ''reset''] = map Inr ls @ rest)
        \<and> answer_lines ref_env ref_runtime sample_handle ''app.db'' ls (sample_net 4, stats_new) = (rs, ctx'))"
proof -
  let ?k = "\<lparr>incoming = [Inr (sample_line @ nl), Inl ''reset''], write_results = [Inl ''pipe''], outgoing = []\<rparr>"
  obtain k' ctx' where run: "handle_connection ref_env ref_runtime sample_handle ''app.db'' ?k
      (sample_net 4, stats_new) = (k', ctx')" by (metis surj_pair)
  from connection_safe [OF run] obtain ls rs where
    "\<exists>rest. incoming ?k = map Inr ls @ rest"
    "answer_lines ref_env ref_runtime sample_handle ''app.db'' ls (sample_net 4, stats_new) = (rs, ctx')"
    by blast
  then show ?thesis using run by (simp only: stream.select_convs) blast
qed

section \<open>HTTP\<close>

text \<open>C20. Authentication comes first: with a token configured, a request is answered 401 and has no
  effect unless its \<open>Authorization\<close> header is exactly \<open>Bearer\<close> and the token; and only a
  body that is the UTF-8 encoding of Unicode scalar values reaches the dispatcher.\<close>

lemma http_only_authorized:
  assumes "rpc_handler E rt to_str state headers body ctx = (r, ctx')"
  shows "if \<not> request_allowed to_str state headers then r = Some (401, unauthorized_body) \<and> ctx' = ctx
    else if \<nexists>cs. list_all scalar_value cs \<and> body = concat (map utf8_encode cs)
    then r = Some (200, rpc_error_body (serde E) (-32700) ''request body is not valid UTF-8'') \<and> ctx' = ctx
    else ctx' = snd (dispatch E rt (as_handle state) (as_db_path state) body ctx)"
  using assms
  by (cases rule: rpc_handler_cases [of to_str state headers E rt body ctx])
    (simp_all flip: valid_utf8_iff)

definition sample_state :: app_state where
  "sample_state = \<lparr>as_handle = sample_handle, as_stats = stats_new, as_db_path = ''app.db'',
     as_auth_token = Some ''s3cret''\<rparr>"

lemma http_only_authorized_witness:
  "rpc_handler ref_env ref_runtime Some sample_state [(''authorization'', ''Bearer s3creT'')] sample_line
     (sample_net 4, stats_new) = (Some (401, unauthorized_body), (sample_net 4, stats_new))"
proof -
  obtain r ctx' where run: "rpc_handler ref_env ref_runtime Some sample_state
      [(''authorization'', ''Bearer s3creT'')] sample_line (sample_net 4, stats_new) = (r, ctx')"
    by (metis surj_pair)
  have "\<not> request_allowed Some sample_state [(''authorization'', ''Bearer s3creT'')]"
    by (simp add: request_allowed_def sample_state_def)
  with http_only_authorized [OF run] run show ?thesis by simp
qed

text \<open>C28. Both transports serve a request alike: an allowed HTTP request has the effect of the same
  line on a Unix socket, and its body is the JSON value of the reply written there.\<close>

lemma http_same_as_uds:
  assumes "request_allowed to_str state headers" and "valid_utf8 body" and "body \<noteq> []"
    and "length body < MAX_LINE_BYTES" and "\<forall>c \<in> set body. byte c \<noteq> 10"
    and "fst (dispatch E rt (as_handle state) (as_db_path state) body ctx) = Some reply"
    and "from_text (serde E) reply = Inr v"
  shows "\<exists>ctx'. rpc_handler E rt to_str state headers body ctx = (Some (200, v), ctx')
    \<and> handle_connection E rt (as_handle state) (as_db_path state)
          \<lparr>incoming = [Inr (body @ nl)], write_results = [], outgoing = []\<rparr> ctx
        = (\<lparr>incoming = [], write_results = [], outgoing = [reply @ nl]\<rparr>, ctx')"
proof -
  let ?d = "dispatch E rt (as_handle state) (as_db_path state) body ctx"
  have http: "rpc_handler E rt to_str state headers body ctx = (Some (200, v), snd ?d)"
    using assms(1,2,6,7)
    by (cases rule: rpc_handler_cases [of to_str state headers E rt body ctx]) simp_all
  have "answer_lines E rt (as_handle state) (as_db_path state) [body @ nl] ctx = ([reply], snd ?d)"
    using assms(6) trim_end_newlines_line(1) [OF assms(5)] by (cases ?d) simp
  moreover have "list_all acceptable_line [body @ nl]"
    using assms(4) by (simp add: acceptable_line_def nl_def)
  ultimately have "handle_connection E rt (as_handle state) (as_db_path state)
      \<lparr>incoming = [Inr (body @ nl)], write_results = [], outgoing = []\<rparr> ctx
      = (\<lparr>incoming = [], write_results = [], outgoing = [reply @ nl]\<rparr>, snd ?d)"
    using handle_connection_all [of "\<lparr>incoming = [Inr (body @ nl)], write_results = [], outgoing = []\<rparr>"
        "[body @ nl]" E rt "as_handle state" "as_db_path state" ctx "[reply]" "snd ?d"] by simp
  with http show ?thesis by blast
qed

lemma http_same_as_uds_witness:
  "fst (rpc_handler ref_env ref_runtime Some sample_state [(''authorization'', ''Bearer s3cret'')] sample_line
      (sample_net 4, stats_new))
   = Some (200, sort_keys (success_to_value (JString ''r1'')
       (json_obj [(''status'', JString ''committed''), (''commit_seq'', JNumber 1)])))
   \<and> outgoing (fst (handle_connection ref_env ref_runtime sample_handle ''app.db''
        \<lparr>incoming = [Inr (sample_line @ nl)], write_results = [], outgoing = []\<rparr> (sample_net 4, stats_new)))
   = [enc (success_to_value (JString ''r1'')
       (json_obj [(''status'', JString ''committed''), (''commit_seq'', JNumber 1)])) @ nl]"
proof -
  let ?v = "success_to_value (JString ''r1'')
       (json_obj [(''status'', JString ''committed''), (''commit_seq'', JNumber (1 :: u64))])"
  let ?h = "[(''authorization'', ''Bearer s3cret'')]" and ?ctx = "(sample_net 4, stats_new)"
  have d: "fst (dispatch ref_env ref_runtime sample_handle ''app.db'' sample_line ?ctx) = Some (enc ?v)"
    by code_simp
  have len: "length sample_line = 220" by code_simp
  then have "sample_line \<noteq> []" by auto
  moreover have "\<forall>c \<in> set sample_line. byte c \<noteq> 10"
    using enc_one_line unfolding sample_line_def by blast
  moreover have "request_allowed Some sample_state ?h" by (simp add: request_allowed_def sample_state_def)
  moreover have "valid_utf8 sample_line" by code_simp
  moreover have "from_text (serde ref_env) (enc ?v) = Inr (sort_keys ?v)" by (simp add: ref_from_to_text)
  moreover have "as_handle sample_state = sample_handle" "as_db_path sample_state = ''app.db''"
    by (simp_all add: sample_state_def)
  ultimately obtain ctx' where
    "rpc_handler ref_env ref_runtime Some sample_state ?h sample_line ?ctx = (Some (200, sort_keys ?v), ctx')"
    "handle_connection ref_env ref_runtime sample_handle ''app.db''
        \<lparr>incoming = [Inr (sample_line @ nl)], write_results = [], outgoing = []\<rparr> ?ctx
      = (\<lparr>incoming = [], write_results = [], outgoing = [enc ?v @ nl]\<rparr>, ctx')"
    using http_same_as_uds [of Some sample_state ?h sample_line ref_env ref_runtime ?ctx "enc ?v" "sort_keys ?v"] d len
    by (auto simp: MAX_LINE_BYTES_def)
  then show ?thesis by simp
qed

end
