(* ===== verification/Client_Theorems.thy ===== *)
theory Client_Theorems
  imports Rpc_Theorems
begin

text \<open>
  The properties of the clients, the counters, start-up and the binary.
\<close>

section \<open>The clients\<close>






text \<open>Bytes wrapped by the client's \<open>blob\<close> survive the wire and are bound as those bytes.\<close>

lemma blob_roundtrip:
  assumes "decode (encode data) = Inr data"
  shows "(json_to_sqlite S decode (sort_keys (blob encode data)) :: 'e error + sql_value) = Inr (Blob data)"
  using assms by (simp add: blob_def json_obj_def blob_sentinel_def)

lemma blob_roundtrip_witness:
  "(json_to_sqlite ref_serde ref_b64 (sort_keys (blob (\<lambda>_. ''AEH/'') [0, 65, 255])) :: ref_error error + sql_value)
    = Inr (Blob [0, 65, 255])"
proof -
  have "ref_b64 ((\<lambda>_ :: u8 list. ''AEH/'') [0, 65, 255]) = Inr [0, 65, 255]" by code_simp
  then show ?thesis by (rule blob_roundtrip)
qed

text \<open>The client's \<open>health\<close> reports success for every reply that carries no \<open>error\<close>, whatever
  the reply says.\<close>

lemma health_accepts_any_reply:
  assumes "to_text S (admin_call uuid ''health'') = Inr line" and "write_results (cl_stream c) = []"
    and "incoming (cl_stream c) = Inr reply # rest" and "reply \<noteq> []"
    and "from_text S (trim_end_newlines reply) = Inr v" and "json_get ''error'' v = None"
  shows "fst (client_health S uuid c) = (Inr () :: 'e error + unit)"
  using assms
  by (simp add: client_health_def call_value_def send_line_def write_all_def read_line_def
      accept_unless_error_def)

lemma health_accepts_any_reply_witness:
  "fst (client_health ref_serde ''u'' \<lparr>cl_actor_id = ''agent'', cl_stream =
      \<lparr>incoming = [Inr (enc (JString ''status: down'') @ nl)], write_results = [], outgoing = []\<rparr>\<rparr>)
    = (Inr () :: ref_error error + unit)"
proof (rule health_accepts_any_reply)
  show "from_text ref_serde (trim_end_newlines (enc (JString ''status: down'') @ nl)) = Inr (JString ''status: down'')"
    by code_simp
qed simp_all

end
