(* ===== verification/System_Theorems.thy ===== *)
theory System_Theorems
  imports Rpc_Theorems
begin

text \<open>
  The properties of the shared counters, of start-up, of the limits and of the binary.
\<close>

section \<open>The counters\<close>

lemma count_result_unit:
  "\<exists>r' :: unit error + write_response. count_result r st = count_result r' st"
proof (induction r st rule: count_result.induct)
  case (1 resp st)
  show ?case by (rule exI [of _ "Inr resp"]) simp
next
  case (2 st)
  show ?case by (rule exI [of _ "Inl GatewayOverloaded"]) simp
next
  case (3 st)
  show ?case by (rule exI [of _ "Inl GatewayClosed"]) simp
qed (rule exI [of _ "Inl (Sqlite ())"], simp)+

lemma dispatch_counting:
  fixes E :: "('n, 'c, 'e) env"
  shows "snd (snd (dispatch E rt h p line (s, st))) = st
   \<or> (\<exists>r :: unit error + write_response.
        snd (snd (dispatch E rt h p line (s, st))) = count_result r (count_accepted st))"
proof (cases rule: dispatch_cases [of E rt h p line "(s, st)"])
  case (refused code m)
  then show ?thesis by simp
next
  case (called req meth)
  let ?d = "dispatch_execute E rt h (rr_id req) (rr_params req) (s, st)"
  have ex: "snd (snd ?d) = st \<or> (\<exists>r. snd (snd ?d) = count_result (r :: 'e error + write_response) (count_accepted st))"
    by (auto simp: dispatch_execute_def split: sum.splits prod.splits)
  show ?thesis
  proof (cases "meth = ''execute''")
    case True
    then have "snd (snd (dispatch E rt h p line (s, st))) = snd (snd ?d)"
      using called(4) by (simp add: dispatch_method_def split: prod.split)
    then show ?thesis using ex count_result_unit by metis
  next
    case False
    then have "snd (snd (dispatch E rt h p line (s, st))) = st"
      using called(4) by (simp add: dispatch_method_def split: prod.split)
    then show ?thesis by simp
  qed
qed

text \<open>C23. Conservation of the counters under every interleaving of tasks: a dispatch keeps the
  shared counters within the reachable ones, and in every reachable state \<open>accepted\<close> is
  the sum of \<open>committed\<close>, \<open>failed\<close>, \<open>rejected\<close>, the requests in flight and the requests whose
  task was cancelled (modulo the wrap-around of \<open>u64\<close>).\<close>

lemma dispatch_counts:
  assumes "count_reachable \<lparr>shared = st, in_flight = n, dropped = d\<rparr>"
    and "dispatch E rt h p line (s, st) = (reply, s', st')"
  shows "count_reachable \<lparr>shared = st', in_flight = n, dropped = d\<rparr>
    \<and> st_accepted st' = st_committed st' + st_failed st' + st_rejected st' + of_nat n + of_nat d"
proof -
  have reach: "count_reachable \<lparr>shared = st', in_flight = n, dropped = d\<rparr>"
    using dispatch_counting [of E rt h p line s st] assms(2)
  proof (elim disjE exE)
    fix r :: "unit error + write_response"
    assume "snd (snd (dispatch E rt h p line (s, st))) = count_result r (count_accepted st)"
    with assms(2) have st': "st' = count_result r (count_accepted st)" by simp
    have "count_reachable \<lparr>shared = count_accepted st, in_flight = Suc n, dropped = d\<rparr>"
      using count_reachable.step [OF assms(1) count_step.accept] by simp
    from count_reachable.step [OF this count_step.finish [of _ n r]] show ?thesis by (simp add: st')
  qed (use assms in simp)
  with reachable_counts [OF reach] show ?thesis by simp
qed

lemma dispatch_counts_witness:
  "\<exists>s' st'. dispatch ref_env ref_runtime sample_handle ''app.db'' sample_line (sample_net 4, stats_new)
      = (Some (enc (success_to_value (JString ''r1'') (json_obj
          [(''status'', JString ''committed''), (''commit_seq'', JNumber 1)]))), s', st')
    \<and> st_accepted st' = st_committed st' + st_failed st' + st_rejected st' \<and> st_committed st' = 1"
proof -
  obtain reply s' st' where run: "dispatch ref_env ref_runtime sample_handle ''app.db'' sample_line
      (sample_net 4, stats_new) = (reply, s', st')" by (metis surj_pair)
  have "fst (dispatch ref_env ref_runtime sample_handle ''app.db'' sample_line (sample_net 4, stats_new))
      = Some (enc (success_to_value (JString ''r1'') (json_obj
          [(''status'', JString ''committed''), (''commit_seq'', JNumber 1)])))"
    "st_committed (snd (snd (dispatch ref_env ref_runtime sample_handle ''app.db'' sample_line
      (sample_net 4, stats_new)))) = 1" by code_simp+
  with run dispatch_counts [OF count_reachable.start run] show ?thesis by simp
qed

section \<open>Start-up\<close>

text \<open>C27. A gateway that opens has set up its connection before the writer starts: the pragmas in
  their order, then the schema of each enabled feature, nothing else; and the writer runs
  with the configured features on a queue of the configured capacity.\<close>

lemma open_call_order:
  assumes "open_with_config \<lparr>serde = serde E, b64 = b64 E, drv = logging (drv E)\<rparr> rt config = Some (Inr (gw, s))"
  shows "gw_db_path gw = cfg_db_path config \<and> gw_overflow gw = cfg_overflow config
    \<and> (\<exists>c. s = spawn_writer rt (cfg_queue_capacity config)
        (new_writer (c, pragma_plan config @ migration_plan (cfg_track_commits config) (cfg_idempotency config))
          (cfg_track_commits config) (cfg_idempotency config) config new_latency_buffer))"
proof -
  let ?D = "logging (drv E)"
  obtain c0 where c0: "conn_open ?D (cfg_db_path config) = Inr (c0, [])"
  proof -
    have "conn_open ?D path = map_sum id (\<lambda>c. (c, [])) (conn_open (drv E) path)" for path
      by (simp add: logging_def)
    moreover have "is_ok (conn_open ?D (cfg_db_path config))"
      using assms by (auto simp: open_with_config_def split: sum.splits)
    ultimately show ?thesis using that by (cases "conn_open (drv E) (cfg_db_path config)") simp_all
  qed
  obtain r1 c1 l1 where p: "apply_pragmas ?D config (c0, []) = (r1, c1, l1)" by (metis surj_pair)
  obtain r2 c2 l2 where m: "run_migrations ?D (cfg_track_commits config) (cfg_idempotency config) (c1, l1) = (r2, c2, l2)"
    by (metis surj_pair)
  have ok: "is_ok r1" "is_ok r2"
    using assms by (auto simp: open_with_config_def c0 p m split: sum.splits)
  have opened: "gw_db_path gw = cfg_db_path config \<and> gw_overflow gw = cfg_overflow config
      \<and> s = spawn_writer rt (cfg_queue_capacity config)
        (new_writer (c2, l2) (cfg_track_commits config) (cfg_idempotency config) config new_latency_buffer)"
    using assms by (auto simp: open_with_config_def c0 p m split: sum.splits if_splits)
  have "l1 = pragma_plan config" using apply_pragmas_plan [OF p] ok(1) by simp
  moreover have "l2 = l1 @ migration_plan (cfg_track_commits config) (cfg_idempotency config)"
    using run_migrations_plan [OF m] ok(2) by simp
  ultimately show ?thesis using opened by blast
qed

text \<open>A runtime whose state is the connection handed to the writer.\<close>

definition probe_runtime :: "(u64, ref_conn \<times> setup_call list, ref_error, ref_conn \<times> setup_call list) runtime" where
  "probe_runtime =
     \<lparr>channel_ok = (\<lambda>n. 0 < n), spawn_writer = (\<lambda>n w. w_conn w), oneshot = (\<lambda>s. (0, s)),
      send = (\<lambda>cmd s. (False, s)), try_send = (\<lambda>cmd s. (Queue_Closed, s)),
      send_timeout = (\<lambda>ms cmd s. (Some False, s)), recv_write = (\<lambda>t s. (None, s)),
      recv_checkpoint = (\<lambda>t s. (None, s)), chan_max_capacity = (\<lambda>s. 1), chan_capacity = (\<lambda>s. 1),
      shared_latency = (\<lambda>s. new_latency_buffer), join_writer = (\<lambda>s. (True, s)),
      uuid_now_v7 = (\<lambda>s. (''u'', s)), file_len = (\<lambda>p s. None)\<rparr>"

lemma open_call_order_witness:
  "\<exists>gw s. open_with_config \<lparr>serde = ref_serde, b64 = ref_b64, drv = logging ref_driver\<rparr> probe_runtime
        (gateway_config_new ''app.db'') = Some (Inr (gw, s))
    \<and> snd s = pragma_plan (gateway_config_new ''app.db'') @ [Execute_Batch commits_ddl, Execute_Batch requests_ddl]"
proof -
  let ?config = "gateway_config_new ''app.db''"
  let ?open = "open_with_config \<lparr>serde = ref_serde, b64 = ref_b64, drv = logging ref_driver\<rparr> probe_runtime ?config"
  have "\<exists>gw s. ?open = Some (Inr (gw, s))"
  proof -
    have "(case ?open of Some (Inr x) \<Rightarrow> True | _ \<Rightarrow> False)" by code_simp
    then show ?thesis by (auto split: option.splits sum.splits)
  qed
  then obtain gw s where opened: "?open = Some (Inr (gw, s))" by blast
  have "migration_plan (cfg_track_commits ?config) (cfg_idempotency ?config)
      = [Execute_Batch commits_ddl, Execute_Batch requests_ddl]" by (simp add: migration_plan_def)
  with open_call_order [of ref_env probe_runtime ?config gw s] opened
  have "snd s = pragma_plan ?config @ [Execute_Batch commits_ddl, Execute_Batch requests_ddl]"
    by (auto simp: probe_runtime_def new_writer_def)
  with opened show ?thesis by blast
qed

section \<open>Limits and codes\<close>

text \<open>C32. The two transports do not share their limit exactly: a request of exactly
  \<open>MAX_LINE_BYTES\<close> bytes passes the HTTP body limit and is dispatched, while the Unix socket
  counts its newline, refuses it without any effect and closes.\<close>

lemma limit_counts_newline:
  assumes "length body = MAX_LINE_BYTES" and "valid_utf8 body" and "request_allowed to_str state headers"
    and "app_shared (http_app gw config) = state"
  shows "length body \<le> app_body_limit (http_app gw config)
    \<and> snd (rpc_handler E rt to_str state headers body ctx)
        = snd (dispatch E rt (as_handle state) (as_db_path state) body ctx)
    \<and> handle_connection E rt h p \<lparr>incoming = Inr (body @ nl) # rest, write_results = [], outgoing = []\<rparr> ctx
        = (\<lparr>incoming = rest, write_results = [],
             outgoing = [line_too_long (serde E) (Suc MAX_LINE_BYTES) @ nl]\<rparr>, ctx)"
proof -
  have "snd (rpc_handler E rt to_str state headers body ctx)
      = snd (dispatch E rt (as_handle state) (as_db_path state) body ctx)"
    using assms(2,3) by (cases rule: rpc_handler_cases [of to_str state headers E rt body ctx]) simp_all
  moreover have "length body \<le> app_body_limit (http_app gw config)"
    using assms(1) by (simp add: http_app_def)
  moreover have "body @ nl \<noteq> []" "length (body @ nl) = Suc MAX_LINE_BYTES"
    using assms(1) by (simp_all add: nl_def)
  ultimately show ?thesis
    by (subst handle_connection.simps) (simp add: read_line_def write_all_def)
qed

definition long_body :: string where
  "long_body = replicate MAX_LINE_BYTES CHR ''x''"

lemma limit_counts_newline_witness:
  "snd (handle_connection ref_env ref_runtime sample_handle ''app.db''
     \<lparr>incoming = [Inr (long_body @ nl)], write_results = [], outgoing = []\<rparr> (sample_net 4, stats_new))
   = (sample_net 4, stats_new)"
proof -
  let ?gw = "http_gateway_new sample_handle ''app.db''" and ?config = "http_config_new (V4 [127, 0, 0, 1] 8080)"
  have "length long_body = MAX_LINE_BYTES" by (simp add: long_body_def)
  moreover have "valid_utf8 (replicate n CHR ''x'')" for n
    by (induction n) (simp_all add: byte_def)
  then have "valid_utf8 long_body" by (simp only: long_body_def)
  moreover have "request_allowed Some (app_shared (http_app ?gw ?config)) []"
    by (simp add: request_allowed_def http_app_def http_config_new_def)
  ultimately show ?thesis
    using limit_counts_newline [of long_body Some "app_shared (http_app ?gw ?config)" "[]" ?gw ?config
        ref_env ref_runtime "(sample_net 4, stats_new)" sample_handle "''app.db''" "[]"] by simp
qed

text \<open>A checkpoint on a closed gateway is answered with the code of a failed write, not with the
  code that the error table reserves for a closed gateway.\<close>

lemma checkpoint_closed_code:
  assumes "handle_checkpoint rt s = (Inl GatewayClosed, s')"
  shows "dispatch_checkpoint E rt i s = (err_json (serde E) i ERR_WRITE_FAILED ''gateway is closed'', s')
    \<and> ERR_WRITE_FAILED \<noteq> ERR_GATEWAY_CLOSED"
  using assms by (simp add: dispatch_checkpoint_def ERR_WRITE_FAILED_def ERR_GATEWAY_CLOSED_def)

lemma checkpoint_closed_code_witness:
  "fst (dispatch_checkpoint ref_env ref_runtime JNull ((sample_net 4)\<lparr>net_closed := True\<rparr>))
    = err_json ref_serde JNull ERR_WRITE_FAILED ''gateway is closed''"
proof -
  obtain x s' where run: "handle_checkpoint ref_runtime ((sample_net 4)\<lparr>net_closed := True\<rparr>) = (x, s')" by fastforce
  have "(case fst (handle_checkpoint ref_runtime ((sample_net 4)\<lparr>net_closed := True\<rparr>)) of
      Inl GatewayClosed \<Rightarrow> True | _ \<Rightarrow> False)" by code_simp
  then have "x = Inl GatewayClosed" using run by (auto split: sum.splits error.splits)
  with checkpoint_closed_code [of ref_runtime "(sample_net 4)\<lparr>net_closed := True\<rparr>" s' ref_env JNull] run
  show ?thesis by simp
qed

section \<open>The binary\<close>

text \<open>C30. Writing options on a command line and parsing it back gives those options: a later
  occurrence of an option overrides an earlier one, the mode is read in octal, and a non-empty
  \<open>SQUEUELITE_HTTP_TOKEN\<close> overrides the token flag.\<close>

lemma cli_roundtrip:
  assumes "fold set_option opts no_flags = f" and "fl_db f = Some d"
    and "fl_socket f \<noteq> None \<or> fl_http_addr f \<noteq> None"
  shows "parse_args (prog # concat (map render opts)) env_token =
    Inr (\<lparr>ar_db_path = d, ar_socket_path = fl_socket f, ar_socket_mode = fl_socket_mode f,
          ar_http_addr = fl_http_addr f,
          ar_http_token = (if env_token = None \<or> env_token = Some [] then fl_http_token f else env_token)\<rparr>,
         concat (map option_notices opts))"
proof -
  have "arg_loop [] no_flags (drop 1 (prog # concat (map render opts))) = Inr (f, concat (map option_notices opts))"
    by (simp add: arg_loop_render assms(1))
  then show ?thesis using assms(2,3)
    by (cases env_token) (auto simp: parse_args_def)
qed

lemma cli_roundtrip_witness:
  "parse_args [''gw'', ''--db'', ''old.db'', ''--http-token'', ''flag'', ''--db'', ''app.db'', ''--socket'', ''s.sock'',
      ''--socket-mode'', ''660''] (Some ''env'') =
    Inr (\<lparr>ar_db_path = ''app.db'', ar_socket_path = Some ''s.sock'', ar_socket_mode = Some 432,
          ar_http_addr = None, ar_http_token = Some ''env''\<rparr>, [Token_Visible])"
proof -
  let ?opts = "[Db ''old.db'', Http_Token ''flag'', Db ''app.db'', Socket ''s.sock'', Socket_Mode 432]"
  have "to_octal (unat (432 :: u32)) = ''660''" by code_simp
  then have "concat (map render ?opts) = [''--db'', ''old.db'', ''--http-token'', ''flag'', ''--db'', ''app.db'',
      ''--socket'', ''s.sock'', ''--socket-mode'', ''660'']" by simp
  then show ?thesis
    using cli_roundtrip [OF refl, of ?opts "''app.db''" "''gw''" "Some ''env''"]
    by (simp add: no_flags_def)
qed

text \<open>A socket mode is accepted exactly when it is written in octal digits, with an optional
  plus sign, and fits in 32 bits; then its value is the one written.\<close>

lemma socket_mode_exact:
  "(\<exists>out. parse_args [prog, ''--db'', d, ''--socket'', p, ''--socket-mode'', v] None = Inr (a, out)) \<longleftrightarrow>
     (\<exists>ds. ds \<noteq> [] \<and> list_all octal_digit ds \<and> (v = ds \<or> v = CHR ''+'' # ds)
        \<and> octal_value 0 ds < 2 ^ 32
        \<and> a = \<lparr>ar_db_path = d, ar_socket_path = Some p, ar_socket_mode = Some (of_nat (octal_value 0 ds)),
               ar_http_addr = None, ar_http_token = None\<rparr>)"
proof -
  let ?a = "\<lambda>m. \<lparr>ar_db_path = d, ar_socket_path = Some p, ar_socket_mode = Some m,
               ar_http_addr = None, ar_http_token = None\<rparr>"
  have "(\<exists>out. parse_args [prog, ''--db'', d, ''--socket'', p, ''--socket-mode'', v] None = Inr (a, out))
      \<longleftrightarrow> (\<exists>m. from_str_radix_8 v = Some m \<and> a = ?a m)"
    by (cases "from_str_radix_8 v") (auto simp: parse_args_def no_flags_def)
  then show ?thesis by (auto simp only: from_str_radix_8_Some)
qed


definition quiet_os :: "ref_net os" where
  "quiet_os = \<lparr>remove_file = (\<lambda>p s. s), bind_socket = (\<lambda>p s. (Inr (), s)),
     set_permissions = (\<lambda>p m s. (Inr (), s)), warn_permissions = (\<lambda>m p e s. s), serve_until = (\<lambda>h st p s. s)\<rparr>"

definition quiet_executor :: "ref_net executor" where
  "quiet_executor = \<lparr>spawn_task = (\<lambda>t s. s), join_tasks = (\<lambda>ts s. s)\<rparr>"


text \<open>An HTTP address that does not parse is found only after the database was opened and the
  Unix-socket server was started: the process exits with code 2 and never shuts the writer
  down, so the final checkpoint is skipped.\<close>

lemma bad_address_skips_shutdown:
  assumes "parse_args argv env_token = Inr (a, out)" and "ar_http_addr a = Some x"
    and "parse_socket_addr x = None"
    and "open_with_config E rt (gateway_config_new (ar_db_path a)) = Some (Inr (inner, s))"
  shows "gateway_main E rt os ex True argv env_token = Exited 2 (Some (fold (spawn_task ex) (uds_tasks a inner) s))"
proof -
  have "gateway_main E rt os ex True argv env_token = shared_main E rt ex a"
    using assms(1,2) by (simp add: gateway_main_def split: option.split)
  also have "\<dots> = Exited 2 (Some (fold (spawn_task ex) (uds_tasks a inner) s))"
    using assms(2-4) by (simp add: shared_main_def)
  finally show ?thesis .
qed

lemma bad_address_skips_shutdown_witness:
  "\<exists>s. gateway_main ref_env ref_runtime quiet_os quiet_executor True
      [''gw'', ''--db'', ''app.db'', ''--http'', ''localhost:8080''] None = Exited 2 (Some s)
    \<and> \<not> net_closed s"
proof -
  let ?argv = "[''gw'', ''--db'', ''app.db'', ''--http'', ''localhost:8080'']"
  let ?a = "\<lparr>ar_db_path = ''app.db'', ar_socket_path = None, ar_socket_mode = None,
      ar_http_addr = Some ''localhost:8080'', ar_http_token = None\<rparr>"
  let ?open = "open_with_config ref_env ref_runtime (gateway_config_new ''app.db'')"
  have "(case ?open of Some (Inr (gw, s)) \<Rightarrow> \<not> net_closed s | _ \<Rightarrow> False)" by code_simp
  then obtain inner s where opened: "?open = Some (Inr (inner, s))" "\<not> net_closed s"
    by (auto split: option.splits sum.splits)
  have "parse_args ?argv None = Inr (?a, [])" by (simp add: parse_args_def no_flags_def)
  then have "gateway_main ref_env ref_runtime quiet_os quiet_executor True ?argv None
      = Exited 2 (Some (fold (spawn_task quiet_executor) (uds_tasks ?a inner) s))"
    by (rule bad_address_skips_shutdown [OF _ _ parse_socket_addr_samples(4)]) (simp_all add: opened)
  then show ?thesis using opened(2) by (simp add: uds_tasks_def)
qed

end
