(* ===== verification/Response_Types.thy ===== *)
theory Response_Types
  imports Exactly_Once Actor
begin

text \<open>
  The type of the answers: each response is either \<open>committed\<close> without an error or \<open>failed\<close> with
  an error and without a sequence number, provided the stored responses are; and the writer
  stores no other.
\<close>

definition answer_typed :: "bool \<Rightarrow> 'n write_request \<Rightarrow> write_response \<Rightarrow> bool" where
  "answer_typed idempotency request resp \<longleftrightarrow> response_wf resp
     \<and> (idempotency \<and> rq_idempotency_key request \<noteq> None \<or> rs_request_id resp = rq_request_id request)"

definition sound_store :: "('n, 'c, 'e) env \<Rightarrow> ('c, 'd) reading \<Rightarrow> 'd \<Rightarrow> bool" where
  "sound_store E A d \<longleftrightarrow>
     (\<forall>key hash j i. stored A d key = Some (hash, j) \<longrightarrow> response_wf (stored_response (serde E) i j))"

definition typed ::
  "('n, 'c, 'e) env \<Rightarrow> ('c, 'd) reading \<Rightarrow> 'c writer \<Rightarrow> ('n write_request \<times> write_response) list \<Rightarrow>
   'c writer \<Rightarrow> bool" where
  "typed E A w l w' \<longleftrightarrow> serviced E A w l w'
     \<and> (idle A (w_conn w) \<and> sound_store E A (durable A (w_conn w)) \<longrightarrow>
          sound_store E A (durable A (w_conn w'))
          \<and> (\<forall>(request, resp) \<in> set l. answer_typed (w_idempotency w) request resp))"

lemma answer_typed_failed [simp]: "answer_typed b request (failed (rq_request_id request) m)"
  by (simp add: answer_typed_def)

lemma answer_typed_committed [simp]: "answer_typed b request (committed (rq_request_id request) seq)"
  by (simp add: answer_typed_def)

lemma answer_typed_override: "answer_typed b request resp \<Longrightarrow> answer_typed b request (override_committed m resp)"
  by (auto simp: answer_typed_def override_committed_def)

text \<open>The transaction paths answer with their own request's id.\<close>

lemma apply_inner_typed:
  "apply_inner E w request record = (resp, w') \<Longrightarrow> answer_typed b request resp"
  by (auto simp: apply_inner_def Let_def split: sum.splits prod.splits)

lemma apply_savepoint_typed:
  "apply_savepoint E track request sp record c = (resp, c') \<Longrightarrow> answer_typed b request resp"
  by (auto simp: apply_savepoint_def Let_def split: sum.splits prod.splits)

context text_db
begin

lemma admit_typed:
  assumes "admit E config idempotency request c = (Answer resp, c')" and "sound_store E A (view A c)"
  shows "answer_typed idempotency request resp"
proof -
  have "(\<exists>m. resp = failed (rq_request_id request) m) \<or> (\<exists>key hash j. idempotency
      \<and> rq_idempotency_key request = Some key \<and> stored A (view A c) key = Some (hash, j)
      \<and> resp = stored_response (serde E) (rq_request_id request) j)"
    using assms(1) idem_lookup_step(2)
    by (auto simp: admit_def Let_def split: option.splits sum.splits prod.splits if_splits)
  then show ?thesis using assms(2) by (auto simp: answer_typed_def sound_store_def)
qed

lemma serves_sound:
  assumes "serves E A config track idempotency d request resp d'" and "plain_request A request"
    and "sound_store E A d"
  shows "sound_store E A d'"
  using assms(1)
proof (cases rule: serves.cases)
  case (executed seq)
  then show ?thesis
    using tx_effect_stored [OF assms(2)] assms(3)
    by (auto simp: sound_store_def stored_preview split: option.splits if_splits)
qed (use assms(3) in simp_all)

lemma serves_all_sound:
  "serves_all E A config track idempotency d l d' \<Longrightarrow> \<forall>(request, resp) \<in> set l. plain_request A request \<Longrightarrow>
     sound_store E A d \<Longrightarrow> sound_store E A d'"
proof (induction l arbitrary: d)
  case Nil
  then show ?case by simp
next
  case (Cons x l)
  obtain request resp where x: "x = (request, resp)" by fastforce
  with Cons.prems(1) obtain d1 where s: "serves E A config track idempotency d request resp d1"
    and rest: "serves_all E A config track idempotency d1 l d'" by auto
  have "sound_store E A d1" using serves_sound [OF s _ Cons.prems(3)] Cons.prems(2) x by auto
  with Cons.IH [OF rest] Cons.prems(2) show ?case by simp
qed

lemma batch_loop_typed:
  assumes "in_tx A c" and "\<forall>(request, rt) \<in> set batch. plain_request A request"
    and "batch_loop E w idx batch c = (rs, c')" and "sound_store E A (view A c)"
  shows "list_all2 (answer_typed (w_idempotency w)) (map fst batch) (map snd rs)"
  using assms
proof (induction batch arbitrary: idx c rs)
  case Nil
  then show ?case by auto
next
  case (Cons b batch)
  obtain request rt where b: "b = (request, rt)" by fastforce
  obtain resp c1 where one: "batch_one E w idx request c = (resp, c1)" by fastforce
  obtain rs' c2 where rest: "batch_loop E w (Suc idx) batch c1 = (rs', c2)" by fastforce
  have rs: "rs = (rt, resp) # rs'" and c2: "c2 = c'" using Cons.prems(3) b one rest by simp_all
  have plain: "plain_request A request" using Cons.prems(2) b by simp
  have "answer_typed (w_idempotency w) request resp"
    using one admit_typed [OF _ Cons.prems(4)] apply_savepoint_typed
    by (fastforce simp: batch_one_def split: admission.splits prod.splits)
  moreover have "list_all2 (answer_typed (w_idempotency w)) (map fst batch) (map snd rs')"
  proof (rule Cons.IH [OF _ _ rest [unfolded c2]])
    note step = batch_one_step [OF Cons.prems(1) plain one]
    show "in_tx A c1" using step tx_step_in_tx by blast
    show "sound_store E A (view A c1)" using step serves_sound [OF _ plain Cons.prems(4)] by blast
    show "\<forall>(request, rt) \<in> set batch. plain_request A request" using Cons.prems(2) by simp
  qed
  ultimately show ?case using b rs by simp
qed

lemma apply_batch_typed:
  assumes "idle A (w_conn w)" and "\<forall>(request, rt) \<in> set batch. plain_request A request"
    and "apply_batch E w batch = (rs, w')" and "sound_store E A (durable A (w_conn w))"
  shows "list_all2 (answer_typed (w_idempotency w)) (map fst batch) (map snd rs)"
proof -
  obtain b c1 where b: "begin_immediate (drv E) (w_conn w) = (b, c1)" by fastforce
  show ?thesis
  proof (cases b)
    case (Inl e)
    then have "map snd rs = map (\<lambda>(req, rt). failed (rq_request_id req) (err_to_string (drv E) e)) batch"
      using assms(3) b by (auto simp: apply_batch_def)
    then show ?thesis by (auto simp: list_all2_conv_all_nth split: prod.splits)
  next
    case (Inr u)
    with b have c1: "in_tx A c1" "view A c1 = durable A (w_conn w)"
      using begin_ok [OF assms(1)] by blast+
    obtain qs c2 where loop: "batch_loop E w 0 batch c1 = (qs, c2)" by fastforce
    have typed: "list_all2 (answer_typed (w_idempotency w)) (map fst batch) (map snd qs)"
      using batch_loop_typed [OF c1(1) assms(2) loop] assms(4) c1(2) by simp
    have "map snd rs = map snd qs \<or> (\<exists>m. map snd rs = map (override_committed m) (map snd qs))"
      using assms(3) b Inr loop by (auto simp: apply_batch_def comp_def case_prod_unfold split: sum.splits prod.splits)
    moreover have "list_all2 (answer_typed (w_idempotency w)) (map fst batch) (map (override_committed m) (map snd qs))"
      for m
      unfolding list_all2_map2 [of _ _ "override_committed m"]
      by (rule list_all2_mono [OF typed]) (rule answer_typed_override)
    ultimately show ?thesis using typed by metis
  qed
qed

lemma list_all2_zip: "list_all2 P xs ys \<Longrightarrow> (x, y) \<in> set (zip xs ys) \<Longrightarrow> P x y"
  by (auto simp: list_all2_iff)

lemma apply_typed:
  assumes "plain_request A r" and "writer_apply E w r = (resp, w')"
  shows "typed E A w [(r, resp)] w'"
proof -
  have "serviced E A w [(r, resp)] w'" using assms by (rule apply_serviced)
  moreover have "sound_store E A (durable A (w_conn w')) \<and> answer_typed (w_idempotency w) r resp"
    if "idle A (w_conn w)" "sound_store E A (durable A (w_conn w))"
  proof
    show "sound_store E A (durable A (w_conn w'))"
      using writer_apply_serves [OF that(1) assms] serves_sound [OF _ assms(1) that(2)] by blast
    have "sound_store E A (view A (w_conn w))" using that view_autocommit by simp
    then show "answer_typed (w_idempotency w) r resp"
      using assms(2) admit_typed apply_inner_typed
      by (fastforce simp: writer_apply_def split: admission.splits prod.splits)
  qed
  ultimately show ?thesis by (simp add: typed_def)
qed

lemma batch_typed:
  assumes "\<forall>(r, t) \<in> set batch. plain_request A r" and "apply_batch E w batch = (rs, w')"
  shows "typed E A w (zip (map fst batch) (map snd rs)) w'"
proof -
  have "serviced E A w (zip (map fst batch) (map snd rs)) w'" using assms by (rule batch_serviced)
  moreover have "sound_store E A (durable A (w_conn w'))
      \<and> (\<forall>(r, resp) \<in> set (zip (map fst batch) (map snd rs)). answer_typed (w_idempotency w) r resp)"
    if s: "idle A (w_conn w)" "sound_store E A (durable A (w_conn w))"
  proof
    have "\<forall>(r, resp) \<in> set (zip (map fst batch) (map snd rs)). plain_request A r"
    proof clarify
      fix r resp assume "(r, resp) \<in> set (zip (map fst batch) (map snd rs))"
      then have "r \<in> fst ` set batch" by (auto dest: set_zip_leftD)
      then show "plain_request A r" using assms(1) by auto
    qed
    then show "sound_store E A (durable A (w_conn w'))"
      using apply_batch_serves [OF s(1) assms] serves_all_sound [OF _ _ s(2)] by blast
    show "\<forall>(r, resp) \<in> set (zip (map fst batch) (map snd rs)). answer_typed (w_idempotency w) r resp"
      using list_all2_zip [OF apply_batch_typed [OF s(1) assms s(2)]] by blast
  qed
  ultimately show ?thesis by (simp add: typed_def)
qed

end

sublocale text_db \<subseteq> answers: writer_contract E "plain_request A" "typed E A"
proof (unfold_locales, goal_cases)
  case (1 w)
  then show ?case by (simp add: typed_def service.R_nil)
next
  case (2 w l w1 l' w2)
  then have "serviced E A w (l @ l') w2" using service.R_append by (auto simp: typed_def)
  moreover have "w_idempotency w1 = w_idempotency w" "idle A (w_conn w) \<longrightarrow> idle A (w_conn w1)"
    using 2(1) by (auto simp: typed_def serviced_def same_settings_def)
  ultimately show ?case using 2 by (auto simp: typed_def)
next
  case (3 r w resp w')
  then show ?case by (rule apply_typed)
next
  case (4 batch w rs w')
  then show ?case using batch_typed by blast
next
  case (5 w x c')
  then have "serviced E A w [] (w\<lparr>w_conn := c'\<rparr>)" by (rule checkpoint_serviced)
  then show ?case using 5 checkpoint_same by (fastforce simp: typed_def)
qed

end
