(* ===== verification/Tasks.thy ===== *)
theory Tasks
  imports Gateway
begin

text \<open>
  The gateway as many tasks see it: every call of \<open>execute\<close>, \<open>checkpoint\<close> and \<open>shutdown\<close> of
  \<open>src/inprocess.rs\<close> is a task that moves from one await to the next, and the loop of
  \<open>src/writer.rs\<close> moves from one channel operation to the next, in any interleaving. The
  definitions are the code between two such points; the bounded channel is a parameter. The
  reply slot of a call is its place in the list of calls.
\<close>

section \<open>The channel\<close>

text \<open>
  \<open>has_room\<close>: the buffer is below the capacity, so a send completes; \<open>push\<close>: it does.
\<close>

record ('n, 'q) mpsc =
  ch_receiver :: "('n, 'q) receiver"
  has_room :: "'q \<Rightarrow> bool"
  push :: "'n command \<Rightarrow> 'q \<Rightarrow> 'q"

section \<open>Calls\<close>

datatype 'n call = Execute "'n write_request" | Run_Checkpoint | Shut_Down

fun call_command :: "'n call \<Rightarrow> slot \<Rightarrow> 'n command" where
  "call_command (Execute request) t = Write request t"
| "call_command Run_Checkpoint t = Checkpoint t"
| "call_command Shut_Down t = Shutdown"

text \<open>
  \<open>Waiting\<close>: the command is queued and the task awaits its slot (or joins the thread).
  \<open>Returned (Inr (Some reply))\<close> is a call that got a reply, \<open>Returned (Inr None)\<close> a shutdown.
\<close>

datatype 'e progress =
    Submitting
  | Waiting
  | Returned "'e error + 'e reply option"
  | Cancelled

fun settled :: "'e progress \<Rightarrow> bool" where
  "settled (Returned x) = True"
| "settled Cancelled = True"
| "settled _ = False"

section \<open>The state\<close>

text \<open>
  \<open>Draining batch n\<close>: collecting a batch with \<open>n\<close> places left. \<open>Replying out d\<close>: the work is
  committed, \<open>out\<close> are the replies not yet sent and \<open>d\<close> is the deferred command. \<open>Leaving\<close>: the
  loop is left. \<open>Stopped\<close>: the thread has ended and dropped its receiver.
\<close>

datatype ('n, 'e) phase =
    Receiving
  | Draining "('n write_request \<times> slot) list" nat
  | Replying "'e reply list" "'n command option"
  | Leaving
  | Stopped

text \<open>\<open>sys_senders\<close>: the application still holds the gateway or a handle.\<close>

record ('n, 'c, 'e, 'q) sys =
  sys_calls :: "('n call \<times> 'e progress) list"
  sys_chan :: 'q
  sys_writer :: "'c writer"
  sys_phase :: "('n, 'e) phase"
  sys_replied :: "'e reply list"
  sys_senders :: bool

definition sys_start :: "'q \<Rightarrow> 'c writer \<Rightarrow> ('n, 'c, 'e, 'q) sys" where
  "sys_start q w =
     \<lparr>sys_calls = [], sys_chan = q, sys_writer = w, sys_phase = Receiving, sys_replied = [],
      sys_senders = True\<rparr>"

section \<open>What a task does between two awaits\<close>

definition find_reply :: "slot \<Rightarrow> 'e reply list \<Rightarrow> 'e reply option" where
  "find_reply t rs = List.find (\<lambda>r. reply_slot r = t) rs"

definition set_call ::
  "nat \<Rightarrow> 'n call \<Rightarrow> 'e progress \<Rightarrow> ('n, 'c, 'e, 'q) sys \<Rightarrow> ('n, 'c, 'e, 'q) sys" where
  "set_call i c p s = s\<lparr>sys_calls := (sys_calls s)[i := (c, p)]\<rparr>"

text \<open>
  Sending under the policy: \<open>None\<close> while the await goes on. Only \<open>execute\<close> obeys the overflow
  policy. \<open>shutdown\<close> ignores a closed channel and goes on to join the thread.
\<close>

definition poll_submit ::
  "('n, 'q) mpsc \<Rightarrow> overflow_policy \<Rightarrow> nat \<Rightarrow> 'n call \<Rightarrow> ('n, 'c, 'e, 'q) sys \<Rightarrow>
   ('n, 'c, 'e, 'q) sys option" where
  "poll_submit ch overflow i c s =
     (if sys_phase s = Stopped then
        Some (set_call i c (if c = Shut_Down then Waiting else Returned (Inl GatewayClosed)) s)
      else if has_room ch (sys_chan s) then
        Some (set_call i c Waiting (s\<lparr>sys_chan := push ch (call_command c i) (sys_chan s)\<rparr>))
      else (case (c, overflow) of
          (Execute request, Reject) \<Rightarrow> Some (set_call i c (Returned (Inl GatewayOverloaded)) s)
        | _ \<Rightarrow> None))"

text \<open>The timer of \<open>WaitTimeout\<close> may run out at any time.\<close>

definition elapse ::
  "overflow_policy \<Rightarrow> nat \<Rightarrow> 'n call \<Rightarrow> ('n, 'c, 'e, 'q) sys \<Rightarrow> ('n, 'c, 'e, 'q) sys option" where
  "elapse overflow i c s =
     (case (c, overflow) of
        (Execute request, WaitTimeout ms) \<Rightarrow> Some (set_call i c (Returned (Inl GatewayOverloaded)) s)
      | _ \<Rightarrow> None)"

text \<open>
  A slot yields its reply when it was sent, and fails when its sender was dropped: that is
  when the thread has ended without replying.
\<close>

definition poll_reply :: "nat \<Rightarrow> 'n call \<Rightarrow> ('n, 'c, 'e, 'q) sys \<Rightarrow> ('n, 'c, 'e, 'q) sys option" where
  "poll_reply i c s =
     (if c = Shut_Down then
        (if sys_phase s = Stopped then Some (set_call i c (Returned (Inr None)) s) else None)
      else (case find_reply i (sys_replied s) of
          Some r \<Rightarrow> Some (set_call i c (Returned (Inr (Some r))) s)
        | None \<Rightarrow>
            if sys_phase s = Stopped then Some (set_call i c (Returned (Inl GatewayClosed)) s)
            else None))"

section \<open>What the writer thread does between two channel operations\<close>

fun after_alone ::
  "bool \<times> 'e reply list \<times> 'c writer \<Rightarrow> ('n, 'c, 'e, 'q) sys \<Rightarrow> ('n, 'c, 'e, 'q) sys" where
  "after_alone (stop, out, w) s =
     s\<lparr>sys_writer := w, sys_phase := if stop then Leaving else Replying out None\<rparr>"

definition commit_drained ::
  "('n, 'c, 'e) env \<Rightarrow> ('n write_request \<times> slot) list \<Rightarrow> 'n command option \<Rightarrow>
   ('n, 'c, 'e, 'q) sys \<Rightarrow> ('n, 'c, 'e, 'q) sys" where
  "commit_drained E batch d s =
     (case commit_collected E (sys_writer s) batch of
        (out, w) \<Rightarrow> s\<lparr>sys_writer := w, sys_phase := Replying out d\<rparr>)"

text \<open>\<open>while let Some(cmd) = blocking_recv()\<close>: it ends when nothing is queued and no sender is left.\<close>

definition writer_receive ::
  "('n, 'c, 'e) env \<Rightarrow> ('n, 'q) mpsc \<Rightarrow> ('n, 'c, 'e, 'q) sys \<Rightarrow> ('n, 'c, 'e, 'q) sys option" where
  "writer_receive E ch s =
     (case blocking_recv (ch_receiver ch) (sys_chan s) of
        (None, q) \<Rightarrow> if sys_senders s then None else Some (s\<lparr>sys_chan := q, sys_phase := Leaving\<rparr>)
      | (Some cmd, q) \<Rightarrow>
          (case (cmd, cfg_batch (w_config (sys_writer s))) of
             (Write request respond_to, Some b) \<Rightarrow>
               if single_op request
               then Some (s\<lparr>sys_chan := q, sys_phase := Draining [(request, respond_to)] (max_size b - 1)\<rparr>)
               else Some (after_alone (handle_alone E (sys_writer s) cmd) (s\<lparr>sys_chan := q\<rparr>))
           | _ \<Rightarrow> Some (after_alone (handle_alone E (sys_writer s) cmd) (s\<lparr>sys_chan := q\<rparr>))))"

definition writer_drain ::
  "('n, 'c, 'e) env \<Rightarrow> ('n, 'q) mpsc \<Rightarrow> ('n write_request \<times> slot) list \<Rightarrow> nat \<Rightarrow>
   ('n, 'c, 'e, 'q) sys \<Rightarrow> ('n, 'c, 'e, 'q) sys" where
  "writer_drain E ch batch n s =
     (case n of
        0 \<Rightarrow> commit_drained E batch None s
      | Suc m \<Rightarrow>
          (case try_recv (ch_receiver ch) (sys_chan s) of
             (None, q) \<Rightarrow> commit_drained E batch None (s\<lparr>sys_chan := q\<rparr>)
           | (Some (Write r2 rt2), q) \<Rightarrow>
               if single_op r2
               then s\<lparr>sys_chan := q, sys_phase := Draining (batch @ [(r2, rt2)]) m\<rparr>
               else commit_drained E batch (Some (Write r2 rt2)) (s\<lparr>sys_chan := q\<rparr>)
           | (Some ctrl, q) \<Rightarrow> commit_drained E batch (Some ctrl) (s\<lparr>sys_chan := q\<rparr>)))"

fun writer_reply ::
  "('n, 'c, 'e) env \<Rightarrow> 'e reply list \<Rightarrow> 'n command option \<Rightarrow>
   ('n, 'c, 'e, 'q) sys \<Rightarrow> ('n, 'c, 'e, 'q) sys" where
  "writer_reply E (r # out) d s = s\<lparr>sys_replied := sys_replied s @ [r], sys_phase := Replying out d\<rparr>"
| "writer_reply E [] None s = s\<lparr>sys_phase := Receiving\<rparr>"
| "writer_reply E [] (Some cmd) s = after_alone (handle_alone E (sys_writer s) cmd) s"

definition writer_leave :: "('n, 'c, 'e) env \<Rightarrow> ('n, 'c, 'e, 'q) sys \<Rightarrow> ('n, 'c, 'e, 'q) sys" where
  "writer_leave E s = s\<lparr>sys_writer := shutdown_checkpoint E (sys_writer s), sys_phase := Stopped\<rparr>"

definition writer_turn ::
  "('n, 'c, 'e) env \<Rightarrow> ('n, 'q) mpsc \<Rightarrow> ('n, 'c, 'e, 'q) sys \<Rightarrow> ('n, 'c, 'e, 'q) sys option" where
  "writer_turn E ch s =
     (case sys_phase s of
        Receiving \<Rightarrow> writer_receive E ch s
      | Draining batch n \<Rightarrow> Some (writer_drain E ch batch n s)
      | Replying out d \<Rightarrow> Some (writer_reply E out d s)
      | Leaving \<Rightarrow> Some (writer_leave E s)
      | Stopped \<Rightarrow> None)"

section \<open>Interleavings\<close>

datatype 'n event =
    Make_Call "'n call"
  | Poll nat
  | Timer nat
  | Cancel nat
  | Drop_Senders
  | Writer_Turn

text \<open>
  Which event happens next is not determined; what it does is. A pending \<open>shutdown\<close> blocks its
  thread in \<open>join\<close>, so it cannot be cancelled there.
\<close>

fun perform ::
  "('n, 'c, 'e) env \<Rightarrow> ('n, 'q) mpsc \<Rightarrow> overflow_policy \<Rightarrow> 'n event \<Rightarrow> ('n, 'c, 'e, 'q) sys \<Rightarrow>
   ('n, 'c, 'e, 'q) sys option" where
  "perform E ch overflow (Make_Call c) s =
     (if sys_senders s then Some (s\<lparr>sys_calls := sys_calls s @ [(c, Submitting)]\<rparr>) else None)"
| "perform E ch overflow (Poll i) s =
     (case nth_opt (sys_calls s) i of
        Some (c, Submitting) \<Rightarrow> poll_submit ch overflow i c s
      | Some (c, Waiting) \<Rightarrow> poll_reply i c s
      | _ \<Rightarrow> None)"
| "perform E ch overflow (Timer i) s =
     (case nth_opt (sys_calls s) i of
        Some (c, Submitting) \<Rightarrow> elapse overflow i c s
      | _ \<Rightarrow> None)"
| "perform E ch overflow (Cancel i) s =
     (case nth_opt (sys_calls s) i of
        Some (c, Submitting) \<Rightarrow> Some (set_call i c Cancelled s)
      | Some (c, Waiting) \<Rightarrow> if c = Shut_Down then None else Some (set_call i c Cancelled s)
      | _ \<Rightarrow> None)"
| "perform E ch overflow Drop_Senders s =
     (if sys_senders s \<and> list_all (settled \<circ> snd) (sys_calls s)
      then Some (s\<lparr>sys_senders := False\<rparr>) else None)"
| "perform E ch overflow Writer_Turn s = writer_turn E ch s"

fun schedule ::
  "('n, 'c, 'e) env \<Rightarrow> ('n, 'q) mpsc \<Rightarrow> overflow_policy \<Rightarrow> 'n event list \<Rightarrow> ('n, 'c, 'e, 'q) sys \<Rightarrow>
   ('n, 'c, 'e, 'q) sys option" where
  "schedule E ch overflow [] s = Some s"
| "schedule E ch overflow (ev # evs) s = Option.bind (perform E ch overflow ev s) (schedule E ch overflow evs)"

end
