(* ===== verification/Task_Safety.thy ===== *)
theory Task_Safety
  imports Tasks
begin

text \<open>
  The invariant of the task machine: at any moment the commands accepted so far are those
  already answered, those the writer holds and those in the channel, each on the slot of its
  own call; and the state of every call agrees with where its command is.
\<close>

section \<open>The contract of the channel\<close>

locale bounded_channel = command_channel "ch_receiver ch" buffered
  for ch :: "('n, 'q) mpsc" and buffered :: "'q \<Rightarrow> 'n command list" +
  fixes cap :: nat
  assumes room: "has_room ch q \<longleftrightarrow> length (buffered q) < cap"
    and push: "has_room ch q \<Longrightarrow> buffered (push ch c q) = buffered q @ [c]"
    and cap_pos: "0 < cap"

section \<open>Where a command is\<close>

fun phase_commands :: "('n, 'e) phase \<Rightarrow> 'n command list" where
  "phase_commands (Draining batch n) = writes batch"
| "phase_commands (Replying out (Some c)) = [c]"
| "phase_commands _ = []"

fun phase_replies :: "('n, 'e) phase \<Rightarrow> 'e reply list" where
  "phase_replies (Replying out d) = out"
| "phase_replies _ = []"

definition all_replies :: "('n, 'c, 'e, 'q) sys \<Rightarrow> 'e reply list" where
  "all_replies s = sys_replied s @ phase_replies (sys_phase s)"

definition held :: "('q \<Rightarrow> 'n command list) \<Rightarrow> ('n, 'c, 'e, 'q) sys \<Rightarrow> 'n command list" where
  "held buffered s = phase_commands (sys_phase s) @ buffered (sys_chan s)"

definition slots :: "'n command list \<Rightarrow> slot list" where
  "slots cmds = List.map_filter command_slot cmds"

lemma slots_simps [simp]:
  "slots [] = []"
  "slots (c # cs) = (case command_slot c of None \<Rightarrow> slots cs | Some t \<Rightarrow> t # slots cs)"
  "slots (cs @ cs') = slots cs @ slots cs'"
  by (simp_all add: slots_def List.map_filter_def split: option.split)

lemma in_slots: "t \<in> set (slots cs) \<longleftrightarrow> (\<exists>c \<in> set cs. command_slot c = Some t)"
  by (induction cs) (auto split: option.splits)

lemma answers_slots_eq: "answers cs rs l \<Longrightarrow> slots cs = map reply_slot rs"
  by (induction rule: answers.induct) auto

lemma answers_no_Shutdown: "answers cs rs l \<Longrightarrow> Shutdown \<notin> set cs"
  by (induction rule: answers.induct) auto

abbreviation gone :: "('n, 'e) phase \<Rightarrow> bool" where
  "gone p \<equiv> p = Leaving \<or> p = Stopped"

section \<open>Frames\<close>

lemma set_call_simps [simp]:
  "sys_calls (set_call i c p s) = (sys_calls s)[i := (c, p)]"
  "sys_chan (set_call i c p s) = sys_chan s" "sys_writer (set_call i c p s) = sys_writer s"
  "sys_phase (set_call i c p s) = sys_phase s" "sys_replied (set_call i c p s) = sys_replied s"
  "sys_senders (set_call i c p s) = sys_senders s"
  "all_replies (set_call i c p s) = all_replies s" "held b (set_call i c p s) = held b s"
  by (simp_all add: set_call_def all_replies_def held_def)

lemma nth_opt_Some [simp]: "nth_opt xs i = Some x \<longleftrightarrow> i < length xs \<and> xs ! i = x"
  by (simp add: nth_opt_def)

lemma after_alone_simps [simp]:
  "sys_calls (after_alone x s) = sys_calls s" "sys_chan (after_alone x s) = sys_chan s"
  "sys_replied (after_alone x s) = sys_replied s" "sys_senders (after_alone x s) = sys_senders s"
  "sys_phase (after_alone x s) \<noteq> Draining b n"
  by (cases x; simp)+

lemma commit_drained_simps [simp]:
  "sys_calls (commit_drained E b d s) = sys_calls s" "sys_chan (commit_drained E b d s) = sys_chan s"
  "sys_replied (commit_drained E b d s) = sys_replied s"
  "sys_senders (commit_drained E b d s) = sys_senders s"
  "sys_phase (commit_drained E b d s) \<noteq> Draining b' n"
  by (simp_all add: commit_drained_def split: prod.splits)

lemma writer_drain_frame [simp]:
  "sys_calls (writer_drain E ch b n s) = sys_calls s"
  "sys_replied (writer_drain E ch b n s) = sys_replied s"
  "sys_senders (writer_drain E ch b n s) = sys_senders s"
  by (simp_all add: writer_drain_def split: nat.splits prod.splits option.splits command.splits)

lemma writer_turn_frame:
  assumes "writer_turn E ch s = Some s'"
  shows "sys_calls s' = sys_calls s \<and> sys_senders s' = sys_senders s"
proof (cases "sys_phase s")
  case Receiving
  with assms show ?thesis
    by (auto simp: writer_turn_def writer_receive_def split: prod.splits option.splits command.splits if_splits)
next
  case (Replying out d)
  with assms show ?thesis
    by (cases "(E, out, d, s)" rule: writer_reply.cases) (auto simp: writer_turn_def)
qed (use assms in \<open>auto simp: writer_turn_def writer_leave_def\<close>)

section \<open>The moves of a call\<close>

text \<open>How one call may proceed without touching the channel.\<close>

inductive moves ::
  "('n, 'q) mpsc \<Rightarrow> overflow_policy \<Rightarrow> ('n, 'c, 'e, 'q) sys \<Rightarrow> nat \<Rightarrow> 'n call \<Rightarrow> 'e progress \<Rightarrow>
   'e progress \<Rightarrow> bool"
  for ch overflow s i
where
  joining: "sys_phase s = Stopped \<Longrightarrow> moves ch overflow s i Shut_Down Submitting Waiting"
| closed: "sys_phase s = Stopped \<Longrightarrow> c \<noteq> Shut_Down \<Longrightarrow>
    moves ch overflow s i c Submitting (Returned (Inl GatewayClosed))"
| full: "sys_phase s \<noteq> Stopped \<Longrightarrow> \<not> has_room ch (sys_chan s) \<Longrightarrow> overflow = Reject \<Longrightarrow>
    moves ch overflow s i (Execute r) Submitting (Returned (Inl GatewayOverloaded))"
| elapsed: "overflow = WaitTimeout ms \<Longrightarrow>
    moves ch overflow s i (Execute r) Submitting (Returned (Inl GatewayOverloaded))"
| joined: "sys_phase s = Stopped \<Longrightarrow> moves ch overflow s i Shut_Down Waiting (Returned (Inr None))"
| answered: "c \<noteq> Shut_Down \<Longrightarrow> find_reply i (sys_replied s) = Some r \<Longrightarrow>
    moves ch overflow s i c Waiting (Returned (Inr (Some r)))"
| unanswered: "c \<noteq> Shut_Down \<Longrightarrow> find_reply i (sys_replied s) = None \<Longrightarrow> sys_phase s = Stopped \<Longrightarrow>
    moves ch overflow s i c Waiting (Returned (Inl GatewayClosed))"
| cancelled: "p = Submitting \<or> p = Waiting \<and> c \<noteq> Shut_Down \<Longrightarrow> moves ch overflow s i c p Cancelled"

lemma poll_submit_moves:
  assumes "poll_submit ch overflow i c s = Some s'"
  shows "(\<exists>p'. s' = set_call i c p' s \<and> moves ch overflow s i c Submitting p')
    \<or> sys_phase s \<noteq> Stopped \<and> has_room ch (sys_chan s)
      \<and> s' = set_call i c Waiting (s\<lparr>sys_chan := push ch (call_command c i) (sys_chan s)\<rparr>)"
  using assms by (auto simp: poll_submit_def intro: moves.intros
      split: if_splits call.splits overflow_policy.splits)

lemma poll_reply_moves:
  assumes "poll_reply i c s = Some s'"
  shows "\<exists>p'. s' = set_call i c p' s \<and> moves ch overflow s i c Waiting p'"
  using assms by (auto simp: poll_reply_def intro: moves.intros split: if_splits option.splits)

lemma elapse_moves:
  assumes "elapse overflow i c s = Some s'"
  shows "\<exists>p'. s' = set_call i c p' s \<and> moves ch overflow s i c Submitting p'"
  using assms by (auto simp: elapse_def intro: moves.intros split: call.splits overflow_policy.splits)

text \<open>The events, by what they change.\<close>

lemma perform_cases:
  assumes "perform E ch overflow ev s = Some s'"
  obtains (called) c where "ev = Make_Call c" "sys_senders s"
      "s' = s\<lparr>sys_calls := sys_calls s @ [(c, Submitting)]\<rparr>"
  | (queued) i c where "ev = Poll i" "i < length (sys_calls s)" "sys_calls s ! i = (c, Submitting)"
      "sys_phase s \<noteq> Stopped" "has_room ch (sys_chan s)"
      "s' = set_call i c Waiting (s\<lparr>sys_chan := push ch (call_command c i) (sys_chan s)\<rparr>)"
  | (moved) i c p p' where "ev \<in> {Poll i, Timer i, Cancel i}" "i < length (sys_calls s)"
      "sys_calls s ! i = (c, p)" "moves ch overflow s i c p p'" "s' = set_call i c p' s"
  | (dropped) "ev = Drop_Senders" "sys_senders s" "s' = s\<lparr>sys_senders := False\<rparr>"
      "list_all (settled \<circ> snd) (sys_calls s)"
  | (turn) "ev = Writer_Turn" "writer_turn E ch s = Some s'"
proof (cases ev)
  case (Poll i)
  with assms obtain c p where i: "i < length (sys_calls s)" "sys_calls s ! i = (c, p)"
      "p = Submitting \<and> poll_submit ch overflow i c s = Some s' \<or> p = Waiting \<and> poll_reply i c s = Some s'"
    by (auto split: option.splits prod.splits progress.splits)
  then show ?thesis
    using Poll queued [of i c] moved [of i c p]
      poll_submit_moves [of ch overflow i c s s'] poll_reply_moves [of i c s s' ch overflow] by blast
next
  case (Timer i)
  with assms obtain c where "i < length (sys_calls s)" "sys_calls s ! i = (c, Submitting)"
      "elapse overflow i c s = Some s'"
    by (auto split: option.splits prod.splits progress.splits)
  then show ?thesis using Timer moved [of i c Submitting] elapse_moves [of overflow i c s s' ch] by blast
next
  case (Cancel i)
  with assms obtain c p where "i < length (sys_calls s)" "sys_calls s ! i = (c, p)"
      "p = Submitting \<or> p = Waiting \<and> c \<noteq> Shut_Down" "s' = set_call i c Cancelled s"
    by (auto split: option.splits prod.splits progress.splits if_splits)
  then show ?thesis using Cancel moved [of i c p Cancelled] moves.cancelled by blast
qed (use assms called dropped turn in \<open>auto split: if_splits\<close>)

lemma moves_not_settled: "moves ch overflow s i c p p' \<Longrightarrow> \<not> settled p"
  by (induction rule: moves.induct) auto

text \<open>Calls are never removed nor changed; only their progress is.\<close>

lemma fst_set_call: "i < length xs \<Longrightarrow> xs ! i = (c, p) \<Longrightarrow> map fst (xs[i := (c, p')]) = map fst xs"
  by (simp add: map_update list_update_same_conv)

lemma perform_calls:
  assumes "perform E ch p ev s = Some s'"
  shows "\<exists>cs. map fst (sys_calls s') = map fst (sys_calls s) @ cs"
  using assms
proof (cases rule: perform_cases)
  case turn
  then show ?thesis by (auto dest: writer_turn_frame)
qed (simp_all add: fst_set_call)

lemma schedule_calls:
  "schedule E ch p evs s = Some s' \<Longrightarrow> \<exists>cs. map fst (sys_calls s') = map fst (sys_calls s) @ cs"
proof (induction evs arbitrary: s)
  case Nil
  then show ?case by simp
next
  case (Cons ev evs)
  then obtain s1 where s1: "perform E ch p ev s = Some s1" "schedule E ch p evs s1 = Some s'"
    by (auto simp: bind_eq_Some_conv)
  from perform_calls [OF s1(1)] Cons.IH [OF s1(2)] show ?case by auto
qed

lemma schedule_append:
  "schedule E ch p (evs @ evs') s = Option.bind (schedule E ch p evs s) (schedule E ch p evs')"
  by (induction evs arbitrary: s) (auto split: Option.bind_splits)

section \<open>One turn of the writer\<close>

locale task_machine = actor_loop E admissible R "ch_receiver ch" buffered + bounded_channel ch buffered cap
  for E :: "('n, 'c, 'e) env" and admissible R and ch :: "('n, 'q) mpsc" and buffered cap
begin

text \<open>A turn takes commands from the front: it answers some, or stops at a \<open>Shutdown\<close>.\<close>

definition advances ::
  "('n, 'c, 'e, 'q) sys \<Rightarrow> 'n command list \<Rightarrow> ('n write_request \<times> write_response) list \<Rightarrow>
   ('n, 'c, 'e, 'q) sys \<Rightarrow> bool" where
  "advances s cs l s' \<longleftrightarrow>
     (held buffered s = cs @ held buffered s'
        \<and> (gone (sys_phase s) \<longrightarrow> sys_phase s' = Stopped)
      \<or> held buffered s = cs @ Shutdown # held buffered s' \<and> sys_phase s' = Leaving)
     \<and> length (buffered (sys_chan s')) \<le> length (buffered (sys_chan s))
     \<and> set (sys_replied s) \<subseteq> set (sys_replied s') \<and> sys_phase s \<noteq> Stopped
     \<and> R (sys_writer s) l (sys_writer s')
     \<and> (\<exists>rs. all_replies s' = all_replies s @ rs \<and> answers cs rs l)"

lemma alone_advances:
  assumes "handle_alone E (sys_writer s) cmd = x" and "admissible_command admissible cmd"
    and "held buffered s = cmd # buffered q" and "s' = after_alone x (s\<lparr>sys_chan := q\<rparr>)"
    and "length (buffered q) \<le> length (buffered (sys_chan s))"
    and "sys_phase s = Receiving \<or> sys_phase s = Replying [] (Some cmd)"
  shows "\<exists>cs l. advances s cs l s'"
proof -
  obtain stop rs w where x: "x = (stop, rs, w)" by (metis prod_cases3)
  from handle_alone_answers [OF assms(1) [unfolded x] assms(2)] obtain l where
    l: "stop = (cmd = Shutdown)" "answers (if stop then [] else [cmd]) rs l" "R (sys_writer s) l w"
    by blast
  have "phase_replies (sys_phase s) = []" using assms(6) by auto
  then have "advances s (if stop then [] else [cmd]) l s'"
    using assms(3-6) x l by (auto simp: advances_def held_def all_replies_def)
  then show ?thesis by blast
qed

lemma commit_advances:
  assumes "sys_phase s = Draining batch n" and "\<forall>(r, t) \<in> set batch. admissible r" and "batch \<noteq> []"
    and "buffered (sys_chan s) = phase_commands (Replying ([] :: 'e reply list) d) @ buffered q"
  shows "\<exists>cs l. advances s cs l (commit_drained E batch d (s\<lparr>sys_chan := q\<rparr>))"
proof -
  obtain out w where c: "commit_collected E (sys_writer s) batch = (out, w)" by fastforce
  from commit_collected_answers [OF c assms(2,3)] obtain l where
    "answers (writes batch) out l" "R (sys_writer s) l w" by blast
  then have "advances s (writes batch) l (commit_drained E batch d (s\<lparr>sys_chan := q\<rparr>))"
    using assms(1,4) c by (cases d) (auto simp: advances_def commit_drained_def held_def all_replies_def)
  then show ?thesis by blast
qed

lemma receive_advances:
  assumes "writer_receive E ch s = Some s'" and "sys_phase s = Receiving"
    and "\<forall>c \<in> set (held buffered s). admissible_command admissible c"
  shows "\<exists>cs l. advances s cs l s'"
proof -
  obtain r q where r: "blocking_recv (ch_receiver ch) (sys_chan s) = (r, q)" by fastforce
  show ?thesis
  proof (cases r)
    case None
    then have "s' = s\<lparr>sys_chan := q, sys_phase := Leaving\<rparr>"
      using assms(1) r by (auto simp: writer_receive_def split: if_splits)
    then have "advances s [] [] s'"
      using r None assms(2) recv_none [of "sys_chan s" q] R_nil
      by (auto simp: advances_def held_def all_replies_def)
    then show ?thesis by blast
  next
    case (Some cmd)
    with r have b: "buffered (sys_chan s) = cmd # buffered q" by (simp add: recv_some)
    show ?thesis
    proof (cases "\<exists>request t b. cmd = Write request t \<and> cfg_batch (w_config (sys_writer s)) = Some b \<and> single_op request")
      case True
      then obtain request t b where w: "cmd = Write request t"
          "cfg_batch (w_config (sys_writer s)) = Some b" "single_op request" by blast
      then have "s' = s\<lparr>sys_chan := q, sys_phase := Draining [(request, t)] (max_size b - 1)\<rparr>"
        using assms(1) r Some by (simp add: writer_receive_def)
      then have "advances s [] [] s'"
        using assms(2) b w R_nil by (simp add: advances_def held_def all_replies_def writes_def)
      then show ?thesis by blast
    next
      case False
      then have "s' = after_alone (handle_alone E (sys_writer s) cmd) (s\<lparr>sys_chan := q\<rparr>)"
        using assms(1) r Some by (auto simp: writer_receive_def split: command.splits option.splits if_splits)
      then show ?thesis
        using assms(2,3) b by (intro alone_advances [OF refl]) (auto simp: held_def)
    qed
  qed
qed

lemma drain_advances:
  assumes "sys_phase s = Draining batch n" and "batch \<noteq> []"
    and "\<forall>c \<in> set (held buffered s). admissible_command admissible c"
  shows "\<exists>cs l. advances s cs l (writer_drain E ch batch n s)"
proof -
  have adm: "\<forall>(r, t) \<in> set batch. admissible r"
  proof clarify
    fix r t assume "(r, t) \<in> set batch"
    then have "Write r t \<in> set (held buffered s)" using assms(1) by (force simp: held_def writes_def)
    with assms(3) have "admissible_command admissible (Write r t)" by blast
    then show "admissible r" by simp
  qed
  note commit = commit_advances [OF assms(1) adm assms(2)]
  show ?thesis
  proof (cases n)
    case 0
    then show ?thesis using commit [of None "sys_chan s"] by (simp add: writer_drain_def)
  next
    case (Suc m)
    obtain r q where r: "try_recv (ch_receiver ch) (sys_chan s) = (r, q)" by fastforce
    show ?thesis
    proof (cases r)
      case None
      then show ?thesis using commit [of None q] r Suc try_none [of "sys_chan s" q] by (simp add: writer_drain_def)
    next
      case (Some cmd)
      with r have b: "buffered (sys_chan s) = cmd # buffered q" by (simp add: try_some)
      show ?thesis
      proof (cases "\<exists>r2 t2. cmd = Write r2 t2 \<and> single_op r2")
        case True
        then obtain r2 t2 where c: "cmd = Write r2 t2" "single_op r2" by blast
        have "advances s [] [] (writer_drain E ch batch n s)"
          using assms(1) r Some Suc b c R_nil
          by (simp add: writer_drain_def advances_def held_def all_replies_def writes_def)
        then show ?thesis by blast
      next
        case False
        then have "writer_drain E ch batch n s = commit_drained E batch (Some cmd) (s\<lparr>sys_chan := q\<rparr>)"
          using r Some Suc by (cases cmd) (auto simp: writer_drain_def)
        then show ?thesis using commit [of "Some cmd" q] b by simp
      qed
    qed
  qed
qed

lemma turn_advances:
  assumes "writer_turn E ch s = Some s'"
    and "\<forall>c \<in> set (held buffered s). admissible_command admissible c"
    and "\<forall>batch n. sys_phase s = Draining batch n \<longrightarrow> batch \<noteq> []"
  shows "\<exists>cs l. advances s cs l s'"
proof (cases "sys_phase s")
  case Receiving
  then show ?thesis using assms receive_advances by (simp add: writer_turn_def)
next
  case (Draining batch n)
  then show ?thesis using assms drain_advances [OF Draining] by (auto simp: writer_turn_def)
next
  case (Replying out d)
  then have s': "s' = writer_reply E out d s" using assms(1) by (simp add: writer_turn_def)
  show ?thesis
  proof (cases "(E, out, d, s)" rule: writer_reply.cases)
    case 1
    then have "advances s [] [] s'"
      using s' Replying R_nil by (cases d) (auto simp: advances_def held_def all_replies_def)
    then show ?thesis by blast
  next
    case 2
    then have "advances s [] [] s'"
      using s' Replying R_nil by (auto simp: advances_def held_def all_replies_def)
    then show ?thesis by blast
  next
    case (3 E' cmd s1)
    then show ?thesis
      using s' Replying assms(2)
      by (intro alone_advances [where q = "sys_chan s" and cmd = cmd, OF refl]) (auto simp: held_def)
  qed
next
  case Leaving
  then have "s' = writer_leave E s" using assms(1) by (simp add: writer_turn_def)
  then have "advances s [] [] s'"
    using Leaving checkpoint_R [of "sys_writer s"]
    by (cases "execute_batch (drv E) checkpoint_sql (w_conn (sys_writer s))")
      (auto simp: advances_def held_def all_replies_def writer_leave_def shutdown_checkpoint_def)
  then show ?thesis by blast
next
  case Stopped
  then show ?thesis using assms(1) by (simp add: writer_turn_def)
qed

end

section \<open>The invariant\<close>

text \<open>
  What the progress of call \<open>i\<close> says about its command, with the answered commands \<open>cs\<close>, the
  accepted ones \<open>cs @ hs\<close>, the writer's phase and the replies sent.
\<close>

fun call_fits ::
  "'n command list \<Rightarrow> 'n command list \<Rightarrow> ('n, 'e) phase \<Rightarrow> 'e reply list \<Rightarrow> nat \<Rightarrow> 'n call \<Rightarrow>
   'e progress \<Rightarrow> bool" where
  "call_fits cs hs ph rs i c Submitting \<longleftrightarrow> i \<notin> set (slots (cs @ hs))"
| "call_fits cs hs ph rs i c Waiting \<longleftrightarrow>
     (if c = Shut_Down then gone ph \<or> Shutdown \<in> set hs else i \<in> set (slots (cs @ hs)))"
| "call_fits cs hs ph rs i c (Returned (Inl e)) \<longleftrightarrow> c \<noteq> Shut_Down \<and> i \<notin> set (slots cs)
     \<and> (e = GatewayOverloaded \<and> i \<notin> set (slots hs) \<or> e = GatewayClosed \<and> ph = Stopped)"
| "call_fits cs hs ph rs i c (Returned (Inr None)) \<longleftrightarrow> c = Shut_Down \<and> ph = Stopped"
| "call_fits cs hs ph rs i c (Returned (Inr (Some r))) \<longleftrightarrow>
     c \<noteq> Shut_Down \<and> r \<in> set rs \<and> reply_slot r = i"
| "call_fits cs hs ph rs i c Cancelled \<longleftrightarrow> True"

lemma find_reply_Some: "find_reply t rs = Some r \<Longrightarrow> r \<in> set rs \<and> reply_slot r = t"
  by (auto simp: find_reply_def find_Some_iff in_set_conv_nth)

lemma find_reply_None: "find_reply t rs = None \<longleftrightarrow> t \<notin> reply_slot ` set rs"
  by (auto simp: find_reply_def find_None_iff)

lemma call_command_slot: "command_slot (call_command c i) = (if c = Shut_Down then None else Some i)"
  by (cases c) auto

lemma slots_call_command: "slots [call_command c i] = (if c = Shut_Down then [] else [i])"
  by (cases c) auto

fun admissible_call :: "('n write_request \<Rightarrow> bool) \<Rightarrow> 'n call \<Rightarrow> bool" where
  "admissible_call admissible (Execute r) = admissible r"
| "admissible_call admissible _ = True"

lemma admissible_call_command: "admissible_command admissible (call_command c i) = admissible_call admissible c"
  by (cases c) simp_all

context task_machine
begin

definition own_slots :: "('n call \<times> 'e progress) list \<Rightarrow> 'n command list \<Rightarrow> bool" where
  "own_slots calls cmds \<longleftrightarrow> distinct (slots cmds) \<and> (\<forall>c \<in> set cmds. \<forall>t. command_slot c = Some t \<longrightarrow>
     t < length calls \<and> c = call_command (fst (calls ! t)) t)"

definition all_fit :: "'n command list \<Rightarrow> ('n, 'c, 'e, 'q) sys \<Rightarrow> bool" where
  "all_fit cs s \<longleftrightarrow> (\<forall>i < length (sys_calls s).
     call_fits cs (held buffered s) (sys_phase s) (sys_replied s) i (fst (sys_calls s ! i)) (snd (sys_calls s ! i)))"

definition linked ::
  "'c writer \<Rightarrow> 'n command list \<Rightarrow> ('n write_request \<times> write_response) list \<Rightarrow> ('n, 'c, 'e, 'q) sys \<Rightarrow> bool" where
  "linked w0 cs l s \<longleftrightarrow> answers cs (all_replies s) l \<and> R w0 l (sys_writer s)
     \<and> own_slots (sys_calls s) (cs @ held buffered s) \<and> all_fit cs s
     \<and> length (buffered (sys_chan s)) \<le> cap
     \<and> (\<forall>batch n. sys_phase s = Draining batch n \<longrightarrow> batch \<noteq> [])"

lemma linkedD:
  assumes "linked w0 cs l s"
  shows "answers cs (all_replies s) l" "R w0 l (sys_writer s)"
    "own_slots (sys_calls s) (cs @ held buffered s)" "all_fit cs s"
    "length (buffered (sys_chan s)) \<le> cap" "\<forall>batch n. sys_phase s = Draining batch n \<longrightarrow> batch \<noteq> []"
  using assms by (simp_all add: linked_def)

lemma linked_start: "buffered q = [] \<Longrightarrow> linked w [] [] (sys_start q w)"
  by (simp add: linked_def sys_start_def all_replies_def held_def own_slots_def all_fit_def R_nil)

lemma linked_fits:
  assumes "linked w0 cs l s" and "i < length (sys_calls s)" and "sys_calls s ! i = (c, p)"
  shows "call_fits cs (held buffered s) (sys_phase s) (sys_replied s) i c p"
  using linkedD(4) [OF assms(1)] assms(2,3) by (auto simp: all_fit_def)

lemma own_slots_less:
  assumes "own_slots calls cmds" and "t \<in> set (slots cmds)"
  shows "t < length calls"
  using assms unfolding own_slots_def in_slots by blast

lemma own_slots_calls:
  assumes "own_slots calls cmds" and "map fst calls' = map fst calls @ xs"
  shows "own_slots calls' cmds"
proof -
  have len: "length calls' = length calls + length xs" by (metis assms(2) length_append length_map)
  have "fst (calls' ! t) = fst (calls ! t)" if "t < length calls" for t
  proof -
    have "map fst calls' ! t = map fst calls ! t" using that assms(2) by (simp add: nth_append)
    then show ?thesis using that len by simp
  qed
  note fst = this
  show ?thesis
    unfolding own_slots_def
  proof (intro conjI ballI allI impI)
    show "distinct (slots cmds)" using assms(1) by (simp add: own_slots_def)
  next
    fix c t assume "c \<in> set cmds" "command_slot c = Some t"
    then have old: "t < length calls \<and> c = call_command (fst (calls ! t)) t"
      using assms(1) unfolding own_slots_def by blast
    then show "t < length calls'" using len by simp
    show "c = call_command (fst (calls' ! t)) t" using old fst [of t] by metis
  qed
qed

lemma own_slots_sub:
  assumes "own_slots calls cmds" and "slots cmds' = slots cmds" and "set cmds' \<subseteq> set cmds"
  shows "own_slots calls cmds'"
  using assms(1,3) unfolding own_slots_def assms(2) by blast

lemma own_slots_set:
  assumes "own_slots calls cmds" and "i < length calls" and "calls ! i = (c, p)"
  shows "own_slots (calls[i := (c, p')]) cmds"
  by (rule own_slots_calls [where xs = "[]", OF assms(1)]) (simp add: fst_set_call [OF assms(2,3)])

text \<open>The four kinds of event keep the invariant.\<close>

lemma linked_called:
  assumes "linked w0 cs l s"
  shows "linked w0 cs l (s\<lparr>sys_calls := sys_calls s @ [(c, Submitting)]\<rparr>)"
proof -
  have "own_slots (sys_calls s @ [(c, Submitting)]) (cs @ held buffered s)"
    by (rule own_slots_calls [OF linkedD(3) [OF assms]]) simp
  moreover have "length (sys_calls s) \<notin> set (slots (cs @ held buffered s))"
    using own_slots_less [OF linkedD(3) [OF assms]] by blast
  then have "all_fit cs (s\<lparr>sys_calls := sys_calls s @ [(c, Submitting)]\<rparr>)"
    using linkedD(4) [OF assms] by (auto simp: all_fit_def held_def nth_append less_Suc_eq)
  ultimately show ?thesis
    using linkedD [OF assms] by (simp add: linked_def all_replies_def held_def)
qed

lemma all_fit_set:
  assumes "all_fit cs s" and "call_fits cs (held buffered s) (sys_phase s) (sys_replied s) i c p"
  shows "all_fit cs (set_call i c p s)"
  unfolding all_fit_def
proof (intro allI impI)
  fix j assume "j < length (sys_calls (set_call i c p s))"
  then show "call_fits cs (held buffered (set_call i c p s)) (sys_phase (set_call i c p s))
      (sys_replied (set_call i c p s)) j (fst (sys_calls (set_call i c p s) ! j)) (snd (sys_calls (set_call i c p s) ! j))"
    using assms by (cases "j = i") (simp_all add: all_fit_def)
qed

lemma moves_fits:
  assumes "moves ch p s i c pr pr'" and "linked w0 cs l s" and "i < length (sys_calls s)"
    and "sys_calls s ! i = (c, pr)"
  shows "call_fits cs (held buffered s) (sys_phase s) (sys_replied s) i c pr'"
proof -
  have fit: "call_fits cs (held buffered s) (sys_phase s) (sys_replied s) i c pr"
    by (rule linked_fits [OF assms(2-4)])
  have ans: "slots cs = map reply_slot (all_replies s)"
    using linkedD(1) [OF assms(2)] answers_slots_eq by blast
  show ?thesis
    using assms(1) fit
  proof (cases rule: moves.cases)
    case unanswered
    then have "i \<notin> set (slots cs)" using ans by (simp add: all_replies_def find_reply_None)
    with unanswered show ?thesis by simp
  qed (auto dest: find_reply_Some)
qed

lemma linked_moved:
  assumes "linked w0 cs l s" and "moves ch p s i c pr pr'" and "i < length (sys_calls s)"
    and "sys_calls s ! i = (c, pr)"
  shows "linked w0 cs l (set_call i c pr' s)"
  using linkedD [OF assms(1)] own_slots_set [OF linkedD(3) [OF assms(1)] assms(3,4)]
    all_fit_set [OF linkedD(4) [OF assms(1)] moves_fits [OF assms(2,1,3,4)]]
  by (simp add: linked_def)

lemma call_fits_push:
  assumes "call_fits cs hs ph rs i c p" and "i \<noteq> j"
  shows "call_fits cs (hs @ [call_command c' j]) ph rs i c p"
proof -
  have "set (slots (hs @ [call_command c' j])) \<subseteq> insert j (set (slots hs))"
    "set (slots hs) \<subseteq> set (slots (hs @ [call_command c' j]))"
    by (auto simp: call_command_slot split: option.splits)
  then show ?thesis
    using assms
    by (cases "(cs, hs, ph, rs, i, c, p)" rule: call_fits.cases) (auto split: if_splits)
qed

lemma call_fits_pushed: "call_fits cs (hs @ [call_command c i]) ph rs i c Waiting"
  by (cases c) simp_all

lemma own_slots_push:
  assumes "own_slots calls cmds" and "i < length calls" and "calls ! i = (c, p)" and "i \<notin> set (slots cmds)"
  shows "own_slots calls (cmds @ [call_command c i])"
  using assms by (auto simp: own_slots_def call_command_slot split: option.splits if_splits)

lemma linked_queued:
  assumes "linked w0 cs l s" and "i < length (sys_calls s)" and "sys_calls s ! i = (c, Submitting)"
    and "has_room ch (sys_chan s)"
  shows "linked w0 cs l (set_call i c Waiting (s\<lparr>sys_chan := push ch (call_command c i) (sys_chan s)\<rparr>))"
proof -
  let ?s1 = "s\<lparr>sys_chan := push ch (call_command c i) (sys_chan s)\<rparr>"
  let ?h = "held buffered s"
  have held1: "held buffered ?s1 = ?h @ [call_command c i]"
    using push [OF assms(4)] by (simp add: held_def)
  have "i \<notin> set (slots (cs @ ?h))" using linked_fits [OF assms(1-3)] by simp
  from own_slots_push [OF linkedD(3) [OF assms(1)] assms(2,3) this]
  have "own_slots (sys_calls s) (cs @ held buffered ?s1)" using held1 by simp
  then have own: "own_slots ((sys_calls s)[i := (c, Waiting)]) (cs @ held buffered ?s1)"
    using assms(2,3) by (rule own_slots_set)
  have fit: "all_fit cs (set_call i c Waiting ?s1)"
    unfolding all_fit_def
  proof (intro allI impI)
    fix j assume "j < length (sys_calls (set_call i c Waiting ?s1))"
    then show "call_fits cs (held buffered (set_call i c Waiting ?s1)) (sys_phase (set_call i c Waiting ?s1))
        (sys_replied (set_call i c Waiting ?s1)) j (fst (sys_calls (set_call i c Waiting ?s1) ! j))
        (snd (sys_calls (set_call i c Waiting ?s1) ! j))"
      using linkedD(4) [OF assms(1)] call_fits_push [of cs ?h "sys_phase s" "sys_replied s" j _ _ i c]
        call_fits_pushed [of cs ?h c i "sys_phase s" "sys_replied s"]
      by (cases "j = i") (simp_all only: all_fit_def set_call_simps held1, simp_all)
  qed
  have "length (buffered (sys_chan ?s1)) \<le> cap"
    using assms(4) push [OF assms(4)] room by simp
  with own fit linkedD [OF assms(1)] show ?thesis by (simp add: linked_def all_replies_def)
qed

lemma held_admissible:
  assumes "linked w0 cs l s" and "\<forall>c \<in> set (map fst (sys_calls s)). admissible_call admissible c"
    and "c \<in> set (held buffered s)"
  shows "admissible_command admissible c"
proof (cases "command_slot c")
  case None
  then show ?thesis by (cases c) auto
next
  case (Some t)
  then have "t < length (sys_calls s) \<and> c = call_command (fst (sys_calls s ! t)) t"
    using linkedD(3) [OF assms(1)] assms(3) unfolding own_slots_def by auto
  then show ?thesis using assms(2) admissible_call_command by (metis length_map nth_map nth_mem)
qed

lemma advances_slots:
  assumes "advances s cs l s'"
  shows "slots (held buffered s) = slots (cs @ held buffered s')"
  using assms by (auto simp: advances_def)

lemma linked_turn:
  assumes "linked w0 cs l s" and "advances s cs' l' s'"
    and "sys_calls s' = sys_calls s" and "\<forall>batch n. sys_phase s' = Draining batch n \<longrightarrow> batch \<noteq> []"
  shows "linked w0 (cs @ cs') (l @ l') s'"
proof -
  note old = linkedD [OF assms(1)]
  have slots: "slots ((cs @ cs') @ held buffered s') = slots (cs @ held buffered s)"
    using advances_slots [OF assms(2)] by simp
  have sub: "set ((cs @ cs') @ held buffered s') \<subseteq> set (cs @ held buffered s)"
    using assms(2) by (auto simp: advances_def)
  have own: "own_slots (sys_calls s') ((cs @ cs') @ held buffered s')"
    using own_slots_sub [OF old(3) slots sub] assms(3) by simp
  have "all_fit (cs @ cs') s'"
    unfolding all_fit_def
  proof (intro allI impI)
    fix i assume i: "i < length (sys_calls s')"
    obtain c p where c: "sys_calls s ! i = (c, p)" by fastforce
    have fit: "call_fits cs (held buffered s) (sys_phase s) (sys_replied s) i c p"
      using linked_fits [OF assms(1) _ c] i assms(3) by simp
    have "call_fits (cs @ cs') (held buffered s') (sys_phase s') (sys_replied s') i c p"
      using fit
    proof (cases "(cs, held buffered s, sys_phase s, sys_replied s, i, c, p)" rule: call_fits.cases)
      case 2
      show ?thesis
      proof (cases "c = Shut_Down")
        case True
        have "Shutdown \<notin> set cs'" using assms(2) answers_no_Shutdown by (auto simp: advances_def)
        then show ?thesis using fit 2 True assms(2) by (auto simp: advances_def)
      next
        case False
        then show ?thesis using fit 2 slots by simp
      qed
    next
      case 3
      then show ?thesis using fit slots assms(2) by (auto simp: advances_def)
    next
      case 5
      then show ?thesis using fit assms(2) by (auto simp: advances_def)
    qed (use slots assms(2) in \<open>auto simp: advances_def\<close>)
    then show "call_fits (cs @ cs') (held buffered s') (sys_phase s') (sys_replied s') i
        (fst (sys_calls s' ! i)) (snd (sys_calls s' ! i))" using c assms(3) by simp
  qed
  moreover have "answers (cs @ cs') (all_replies s') (l @ l')" "R w0 (l @ l') (sys_writer s')"
      "length (buffered (sys_chan s')) \<le> cap"
    using old assms(2) answers_append R_append by (auto simp: advances_def)
  ultimately show ?thesis using own assms(4) by (simp add: linked_def)
qed

lemma turn_draining:
  assumes "writer_turn E ch s = Some s'" and "\<forall>batch n. sys_phase s = Draining batch n \<longrightarrow> batch \<noteq> []"
  shows "sys_phase s' = Draining batch n \<longrightarrow> batch \<noteq> []"
proof (cases "sys_phase s")
  case Receiving
  then show ?thesis using assms(1)
    by (auto simp: writer_turn_def writer_receive_def split: prod.splits option.splits command.splits if_splits)
next
  case (Draining b m)
  then show ?thesis using assms
    by (auto simp: writer_turn_def writer_drain_def split: nat.splits prod.splits option.splits command.splits if_splits)
next
  case (Replying out d)
  then show ?thesis using assms(1)
    by (cases "(E, out, d, s)" rule: writer_reply.cases) (auto simp: writer_turn_def)
qed (use assms in \<open>auto simp: writer_turn_def writer_leave_def\<close>)

text \<open>Every event keeps the invariant and only extends what was answered.\<close>

lemma linked_perform:
  assumes "linked w0 cs l s" and "perform E ch p ev s = Some s'"
    and "\<forall>c \<in> set (map fst (sys_calls s)). admissible_call admissible c"
  shows "\<exists>cs' l' rs'. linked w0 (cs @ cs') (l @ l') s' \<and> all_replies s' = all_replies s @ rs'"
  using assms(2)
proof (cases rule: perform_cases)
  case (called c)
  with linked_called [OF assms(1), of c]
  have "linked w0 (cs @ []) (l @ []) s' \<and> all_replies s' = all_replies s @ []" by (simp add: all_replies_def)
  then show ?thesis by blast
next
  case (queued i c)
  with linked_queued [OF assms(1)]
  have "linked w0 (cs @ []) (l @ []) s' \<and> all_replies s' = all_replies s @ []" by (simp add: all_replies_def)
  then show ?thesis by blast
next
  case (moved i c pr pr')
  with linked_moved [OF assms(1)]
  have "linked w0 (cs @ []) (l @ []) s' \<and> all_replies s' = all_replies s @ []" by simp
  then show ?thesis by blast
next
  case dropped
  then have "linked w0 (cs @ []) (l @ []) s' \<and> all_replies s' = all_replies s @ []"
    using linkedD [OF assms(1)] by (simp add: linked_def all_replies_def held_def all_fit_def)
  then show ?thesis by blast
next
  case turn
  have adm: "\<forall>c \<in> set (held buffered s). admissible_command admissible c"
    using held_admissible [OF assms(1,3)] by blast
  obtain cs' l' where adv: "advances s cs' l' s'"
    using turn_advances [OF turn(2) adm linkedD(6) [OF assms(1)]] by blast
  then have "linked w0 (cs @ cs') (l @ l') s'"
    using linked_turn [OF assms(1)] writer_turn_frame [OF turn(2)]
      turn_draining [OF turn(2) linkedD(6) [OF assms(1)]] by blast
  moreover obtain rs' where "all_replies s' = all_replies s @ rs'" using adv by (auto simp: advances_def)
  ultimately show ?thesis by blast
qed

lemma linked_schedule:
  assumes "linked w0 cs l s" and "schedule E ch p evs s = Some s'"
    and "\<forall>c \<in> set (map fst (sys_calls s')). admissible_call admissible c"
  shows "\<exists>cs' l' rs'. linked w0 (cs @ cs') (l @ l') s' \<and> all_replies s' = all_replies s @ rs'"
  using assms
proof (induction evs arbitrary: s cs l)
  case Nil
  then have "linked w0 (cs @ []) (l @ []) s' \<and> all_replies s' = all_replies s @ []" by simp
  then show ?case by blast
next
  case (Cons ev evs)
  then obtain s1 where s1: "perform E ch p ev s = Some s1" "schedule E ch p evs s1 = Some s'"
    by (auto simp: bind_eq_Some_conv)
  have "set (map fst (sys_calls s)) \<subseteq> set (map fst (sys_calls s'))"
    using schedule_calls [OF Cons.prems(2)] by (metis set_append Un_upper1)
  then have adm: "\<forall>c \<in> set (map fst (sys_calls s)). admissible_call admissible c"
    using Cons.prems(3) by blast
  obtain cs1 l1 rs1 where one: "linked w0 (cs @ cs1) (l @ l1) s1" "all_replies s1 = all_replies s @ rs1"
    using linked_perform [OF Cons.prems(1) s1(1) adm] by blast
  from Cons.IH [OF one(1) s1(2) Cons.prems(3)] one(2) show ?case by fastforce
qed

end

section \<open>The log\<close>

text \<open>The answered write requests in the order of service, each with its slot.\<close>

fun exchange :: "'n command list \<Rightarrow> 'e reply list \<Rightarrow> (slot \<times> 'n write_request \<times> write_response) list" where
  "exchange (Write r t # cs) (WriteReply u resp # rs) = (t, r, resp) # exchange cs rs"
| "exchange (c # cs) (x # rs) = exchange cs rs"
| "exchange _ _ = []"

lemma exchange_append:
  "length cs = length rs \<Longrightarrow> exchange (cs @ cs') (rs @ rs') = exchange cs rs @ exchange cs' rs'"
  by (induction cs rs rule: exchange.induct) auto

lemma answers_length: "answers cs rs l \<Longrightarrow> length cs = length rs"
  by (induction rule: answers.induct) auto

lemma exchange_log: "answers cs rs l \<Longrightarrow> map snd (exchange cs rs) = l"
  by (induction rule: answers.induct) auto

lemma exchange_member:
  "answers cs rs l \<Longrightarrow> (t, r, resp) \<in> set (exchange cs rs) \<Longrightarrow> Write r t \<in> set cs \<and> WriteReply t resp \<in> set rs"
  by (induction rule: answers.induct) auto

lemma exchange_slot: "answers cs rs l \<Longrightarrow> t \<in> fst ` set (exchange cs rs) \<Longrightarrow> t \<in> set (slots cs)"
  by (induction rule: answers.induct) auto

lemma exchange_distinct: "answers cs rs l \<Longrightarrow> distinct (slots cs) \<Longrightarrow> distinct (map fst (exchange cs rs))"
proof (induction rule: answers.induct)
  case (answers_Write cs rs l r t resp)
  then show ?case using exchange_slot [OF answers_Write.hyps] by auto
qed auto

lemma exchange_reply:
  "answers cs rs l \<Longrightarrow> x \<in> set rs \<Longrightarrow>
     (\<exists>r resp. x = WriteReply (reply_slot x) resp \<and> Write r (reply_slot x) \<in> set cs
        \<and> (reply_slot x, r, resp) \<in> set (exchange cs rs))
     \<or> Checkpoint (reply_slot x) \<in> set cs"
  by (induction rule: answers.induct) auto

text \<open>
  \<open>recorded s log\<close>: a call of \<open>execute\<close> that returned a response is in the log with its own
  request and that response, and one that returned an error is not in the log.
\<close>

definition recorded ::
  "('n, 'c, 'e, 'q) sys \<Rightarrow> (slot \<times> 'n write_request \<times> write_response) list \<Rightarrow> bool" where
  "recorded s log \<longleftrightarrow> (\<forall>i < length (sys_calls s). \<forall>r x. sys_calls s ! i = (Execute r, Returned x) \<longrightarrow>
     (case x of Inl e \<Rightarrow> i \<notin> fst ` set log
      | Inr y \<Rightarrow> \<exists>resp. y = Some (WriteReply i resp) \<and> (i, r, resp) \<in> set log))"

lemma recorded_error:
  assumes "recorded s log" and "i < length (sys_calls s)" and "sys_calls s ! i = (Execute r, Returned (Inl e))"
  shows "i \<notin> fst ` set log"
  using assms(1) [unfolded recorded_def, rule_format, OF assms(2,3)] by simp

lemma recorded_response:
  assumes "recorded s log" and "i < length (sys_calls s)"
    and "sys_calls s ! i = (Execute r, Returned (Inr (Some (WriteReply i resp))))"
  shows "(i, r, resp) \<in> set log"
  using assms(1) [unfolded recorded_def, rule_format, OF assms(2,3)] by simp

definition own_entries ::
  "('n, 'c, 'e, 'q) sys \<Rightarrow> (slot \<times> 'n write_request \<times> write_response) list \<Rightarrow> bool" where
  "own_entries s log \<longleftrightarrow> distinct (map fst log)
     \<and> (\<forall>(i, r, resp) \<in> set log. i < length (sys_calls s) \<and> fst (sys_calls s ! i) = Execute r)"

context task_machine
begin

lemma own_slots_Write:
  assumes "own_slots calls cmds" and "Write r t \<in> set cmds"
  shows "t < length calls \<and> fst (calls ! t) = Execute r"
proof -
  have "t < length calls \<and> Write r t = call_command (fst (calls ! t)) t"
    using assms unfolding own_slots_def by fastforce
  then show ?thesis by (cases "fst (calls ! t)") auto
qed

lemma own_slots_Checkpoint:
  assumes "own_slots calls cmds" and "Checkpoint t \<in> set cmds"
  shows "fst (calls ! t) = Run_Checkpoint"
proof -
  have "Checkpoint t = call_command (fst (calls ! t)) t"
    using assms unfolding own_slots_def by fastforce
  then show ?thesis by (cases "fst (calls ! t)") auto
qed

lemma linked_own_entries:
  assumes "linked w0 cs l s"
  shows "own_entries s (exchange cs (all_replies s))"
proof -
  note ans = linkedD(1) [OF assms]
  have "distinct (slots cs)" using linkedD(3) [OF assms] by (simp add: own_slots_def)
  then show ?thesis
    using exchange_distinct [OF ans] exchange_member [OF ans] own_slots_Write [OF linkedD(3) [OF assms]]
    by (fastforce simp: own_entries_def)
qed

lemma linked_recorded:
  assumes "linked w0 cs l s"
  shows "recorded s (exchange cs (all_replies s))"
  unfolding recorded_def
proof (intro allI impI)
  fix i r x
  assume i: "i < length (sys_calls s)" "sys_calls s ! i = (Execute r, Returned x)"
  note ans = linkedD(1) [OF assms] and fit = linked_fits [OF assms i]
  note own = linkedD(3) [OF assms]
  show "case x of Inl e \<Rightarrow> i \<notin> fst ` set (exchange cs (all_replies s))
      | Inr y \<Rightarrow> \<exists>resp. y = Some (WriteReply i resp) \<and> (i, r, resp) \<in> set (exchange cs (all_replies s))"
  proof (cases x)
    case (Inl e)
    then show ?thesis using fit exchange_slot [OF ans] by auto
  next
    case (Inr y)
    then obtain rep where rep: "y = Some rep" "rep \<in> set (sys_replied s)" "reply_slot rep = i"
      using fit by (cases y) auto
    then have "rep \<in> set (all_replies s)" by (simp add: all_replies_def)
    from exchange_reply [OF ans this] own_slots_Write [OF own] own_slots_Checkpoint [OF own]
    show ?thesis using Inr rep i by fastforce
  qed
qed

end

end
