(* ===== verification/Task_Progress.thy ===== *)
theory Task_Progress
  imports Task_Safety
begin

text \<open>
  Progress of the task machine: every event other than a new call brings it closer to the
  end, a state in which nothing can move has no call left waiting, and the turns of the
  writer between which no task moves are one round of the loop of \<open>src/writer.rs\<close>.
\<close>

section \<open>The work left\<close>

fun call_work :: "'e progress \<Rightarrow> nat" where
  "call_work Submitting = 8"
| "call_work Waiting = 1"
| "call_work _ = 0"

fun phase_work :: "('n, 'e) phase \<Rightarrow> nat" where
  "phase_work Receiving = 2"
| "phase_work (Draining batch n) = 4 + 3 * length batch"
| "phase_work (Replying out None) = 3 + length out"
| "phase_work (Replying out (Some c)) = 8 + length out"
| "phase_work Leaving = 1"
| "phase_work Stopped = 0"

definition work :: "('q \<Rightarrow> 'n command list) \<Rightarrow> ('n, 'c, 'e, 'q) sys \<Rightarrow> nat" where
  "work buffered s = (\<Sum>x \<leftarrow> sys_calls s. call_work (snd x)) + phase_work (sys_phase s)
     + 6 * length (buffered (sys_chan s)) + (if sys_senders s then 1 else 0)"

lemma sum_list_set_call:
  "i < length xs \<Longrightarrow> xs ! i = (c, p) \<Longrightarrow>
     (\<Sum>x \<leftarrow> xs[i := (c, p')]. call_work (snd x)) + call_work p = (\<Sum>x \<leftarrow> xs. call_work (snd x)) + call_work p'"
  by (induction xs arbitrary: i) (auto split: nat.splits)

lemma moves_work: "moves ch p s i c pr pr' \<Longrightarrow> call_work pr' < call_work pr"
  by (induction rule: moves.induct) auto

lemma commit_collected_length:
  assumes "commit_collected E w batch = (out, w')"
  shows "length out = length batch"
proof (cases "\<exists>r t. batch = [(r, t)]")
  case True
  with assms show ?thesis by (auto simp: commit_collected_def apply_and_reply_def split: prod.splits)
next
  case False
  then have eq: "commit_collected E w batch =
      (case apply_batch E w batch of (rs, w1) \<Rightarrow> (map (\<lambda>(rt, resp). WriteReply rt resp) rs, w1))"
    by (auto simp: commit_collected_def split: list.splits)
  obtain rs w1 where rs: "apply_batch E w batch = (rs, w1)" by fastforce
  have "map fst rs = map snd batch" using apply_batch_slots [of E w batch] rs by simp
  then have "length rs = length batch" by (metis length_map)
  then show ?thesis using assms eq rs by auto
qed

lemma after_alone_work:
  assumes "handle_alone E w cmd = x"
  shows "phase_work (sys_phase (after_alone x s)) \<le> 4"
proof (cases cmd)
  case (Write r t)
  then show ?thesis using assms by (auto simp: apply_and_reply_def split: prod.splits)
next
  case Shutdown
  then show ?thesis using assms by auto
next
  case (Checkpoint t)
  then show ?thesis using assms by (auto simp: checkpoint_and_reply_def split: prod.splits)
qed

lemma commit_drained_work:
  "phase_work (sys_phase (commit_drained E batch d s)) \<le> (case d of None \<Rightarrow> 3 | Some c \<Rightarrow> 8) + length batch"
  using commit_collected_length [of E "sys_writer s" batch]
  by (cases "commit_collected E (sys_writer s) batch") (simp add: commit_drained_def split: option.split)

fun new_call :: "'n event \<Rightarrow> bool" where
  "new_call (Make_Call c) = True"
| "new_call _ = False"

context bounded_channel
begin

lemma receive_work:
  assumes "writer_receive E ch s = Some s'" and "sys_phase s = Receiving"
  shows "phase_work (sys_phase s') + 6 * length (buffered (sys_chan s'))
    < phase_work (sys_phase s) + 6 * length (buffered (sys_chan s))"
proof -
  obtain r q where r: "blocking_recv (ch_receiver ch) (sys_chan s) = (r, q)" by fastforce
  show ?thesis
  proof (cases r)
    case None
    then show ?thesis using assms r recv_none [of "sys_chan s" q]
      by (auto simp: writer_receive_def split: if_splits)
  next
    case (Some cmd)
    with r have b: "buffered (sys_chan s) = cmd # buffered q" by (simp add: recv_some)
    show ?thesis
      using assms r Some b after_alone_work [OF refl, of E "sys_writer s" cmd "s\<lparr>sys_chan := q\<rparr>"]
      by (auto simp: writer_receive_def simp del: handle_alone.simps split: command.splits option.splits if_splits)
  qed
qed

lemma drain_work:
  assumes "sys_phase s = Draining batch n"
  shows "phase_work (sys_phase (writer_drain E ch batch n s)) + 6 * length (buffered (sys_chan (writer_drain E ch batch n s)))
    < phase_work (sys_phase s) + 6 * length (buffered (sys_chan s))"
proof (cases n)
  case 0
  then show ?thesis using assms commit_drained_work [of E batch None s] by (simp add: writer_drain_def)
next
  case (Suc m)
  obtain r q where r: "try_recv (ch_receiver ch) (sys_chan s) = (r, q)" by fastforce
  show ?thesis
  proof (cases r)
    case None
    then show ?thesis
      using assms r Suc try_none [of "sys_chan s" q] commit_drained_work [of E batch None "s\<lparr>sys_chan := q\<rparr>"]
      by (simp add: writer_drain_def)
  next
    case (Some cmd)
    with r have b: "buffered (sys_chan s) = cmd # buffered q" by (simp add: try_some)
    show ?thesis
    proof (cases "\<exists>r2 t2. cmd = Write r2 t2 \<and> single_op r2")
      case True
      then show ?thesis using assms r Some Suc b by (auto simp: writer_drain_def)
    next
      case False
      then have "writer_drain E ch batch n s = commit_drained E batch (Some cmd) (s\<lparr>sys_chan := q\<rparr>)"
        using r Some Suc by (cases cmd) (auto simp: writer_drain_def)
      then show ?thesis
        using assms b commit_drained_work [of E batch "Some cmd" "s\<lparr>sys_chan := q\<rparr>"] by simp
    qed
  qed
qed

lemma turn_work:
  assumes "writer_turn E ch s = Some s'"
  shows "phase_work (sys_phase s') + 6 * length (buffered (sys_chan s'))
    < phase_work (sys_phase s) + 6 * length (buffered (sys_chan s))"
proof (cases "sys_phase s")
  case Receiving
  then show ?thesis using assms receive_work [of E s s'] by (simp add: writer_turn_def)
next
  case (Draining batch n)
  then have "s' = writer_drain E ch batch n s" using assms by (simp add: writer_turn_def)
  then show ?thesis using drain_work [OF Draining, of E] by simp
next
  case (Replying out d)
  show ?thesis
  proof (cases "(E, out, d, s)" rule: writer_reply.cases)
    case (1 E' r out' d' s1)
    then show ?thesis using assms Replying by (cases d) (auto simp: writer_turn_def)
  next
    case 2
    then show ?thesis using assms Replying by (auto simp: writer_turn_def)
  next
    case (3 E' cmd s1)
    then have "s' = after_alone (handle_alone E (sys_writer s) cmd) s"
      using assms Replying by (simp add: writer_turn_def)
    then show ?thesis using Replying 3 after_alone_work [OF refl, of E "sys_writer s" cmd s] by simp
  qed
qed (use assms in \<open>auto simp: writer_turn_def writer_leave_def\<close>)

lemma perform_work:
  assumes "perform E ch p ev s = Some s'" and "\<not> new_call ev"
  shows "work buffered s' < work buffered s"
  using assms(1)
proof (cases rule: perform_cases)
  case (called c)
  then show ?thesis using assms(2) by simp
next
  case (queued i c)
  then show ?thesis
    using sum_list_set_call [of i "sys_calls s" c Submitting Waiting] push [of "sys_chan s" "call_command c i"]
    by (simp add: work_def)
next
  case (moved i c pr pr')
  then show ?thesis
    using sum_list_set_call [of i "sys_calls s" c pr pr'] moves_work [OF moved(4)] by (simp add: work_def)
next
  case dropped
  then show ?thesis by (simp add: work_def)
next
  case turn
  then show ?thesis using turn_work [OF turn(2)] writer_turn_frame [OF turn(2)] by (simp add: work_def)
qed

lemma schedule_work:
  "schedule E ch p evs s = Some s' \<Longrightarrow> \<forall>ev \<in> set evs. \<not> new_call ev \<Longrightarrow>
     length evs + work buffered s' \<le> work buffered s"
proof (induction evs arbitrary: s)
  case Nil
  then show ?case by simp
next
  case (Cons ev evs)
  then obtain s1 where s1: "perform E ch p ev s = Some s1" "schedule E ch p evs s1 = Some s'"
    by (auto simp: bind_eq_Some_conv)
  have "work buffered s1 < work buffered s" using perform_work [OF s1(1)] Cons.prems(2) by simp
  with Cons.IH [OF s1(2)] Cons.prems(2) show ?case by simp
qed

end

section \<open>No deadlock\<close>

context task_machine
begin

lemma writer_stuck:
  assumes "writer_turn E ch s = None" and "sys_phase s \<noteq> Stopped"
  shows "sys_phase s = Receiving \<and> held buffered s = []"
proof -
  have ph: "sys_phase s = Receiving"
    using assms by (cases "sys_phase s") (auto simp: writer_turn_def)
  obtain r q where r: "blocking_recv (ch_receiver ch) (sys_chan s) = (r, q)" by fastforce
  have "r = None"
    using assms(1) ph r
    by (cases r) (auto simp: writer_turn_def writer_receive_def split: command.splits option.splits if_splits)
  then show ?thesis using ph r recv_none [of "sys_chan s" q] by (simp add: held_def)
qed

text \<open>When neither the writer nor any call can move, every call is settled.\<close>

lemma stuck_settled:
  assumes "linked w0 cs l s" and "writer_turn E ch s = None"
    and "\<forall>i. perform E ch p (Poll i) s = None"
  shows "\<forall>x \<in> set (sys_calls s). settled (snd x)"
proof
  fix x assume "x \<in> set (sys_calls s)"
  then obtain i where i: "i < length (sys_calls s)" "sys_calls s ! i = x" by (meson in_set_conv_nth)
  obtain c pr where x: "x = (c, pr)" by fastforce
  note fit = linked_fits [OF assms(1) i(1), of c pr]
  have stop: "sys_phase s = Stopped \<or> sys_phase s = Receiving \<and> held buffered s = []"
    using writer_stuck [OF assms(2)] by blast
  have none: "perform E ch p (Poll i) s = None" using assms(3) by blast
  show "settled (snd x)"
  proof (cases pr)
    case Submitting
    then have "poll_submit ch p i c s = None" using none i x by (simp add: nth_opt_def)
    then have "sys_phase s \<noteq> Stopped" "\<not> has_room ch (sys_chan s)"
      by (auto simp: poll_submit_def split: if_splits)
    then show ?thesis using stop room cap_pos by (auto simp: held_def)
  next
    case Waiting
    then have none: "poll_reply i c s = None" using none i x by (simp add: nth_opt_def)
    show ?thesis
    proof (cases "c = Shut_Down")
      case True
      then show ?thesis using none stop fit i x Waiting by (auto simp: poll_reply_def split: if_splits)
    next
      case False
      then have r: "find_reply i (sys_replied s) = None" "sys_phase s \<noteq> Stopped"
        using none by (auto simp: poll_reply_def split: option.splits if_splits)
      then have "i \<in> set (slots cs)" "all_replies s = sys_replied s"
        using stop fit i x Waiting False by (auto simp: all_replies_def)
      then show ?thesis
        using r(1) answers_slots_eq [OF linkedD(1) [OF assms(1)]] by (simp add: find_reply_None)
    qed
  qed (simp_all add: x)
qed

end

section \<open>A round of the loop\<close>

text \<open>
  With no task moving in between, the turns from one blocking receive to the next compute
  \<open>run_step\<close>.
\<close>

inductive writer_path ::
  "('n, 'c, 'e) env \<Rightarrow> ('n, 'q) mpsc \<Rightarrow> ('n, 'c, 'e, 'q) sys \<Rightarrow> ('n, 'c, 'e, 'q) sys \<Rightarrow> bool"
  for E ch
where
  path_refl: "writer_path E ch s s"
| path_step: "writer_turn E ch s = Some s1 \<Longrightarrow> writer_path E ch s1 s2 \<Longrightarrow> writer_path E ch s s2"

lemma path_trans: "writer_path E ch s s1 \<Longrightarrow> writer_path E ch s1 s2 \<Longrightarrow> writer_path E ch s s2"
  by (induction rule: writer_path.induct) (auto intro: path_step)

lemma path_one: "writer_turn E ch s = Some s' \<Longrightarrow> writer_path E ch s s'"
  by (blast intro: path_refl path_step)

lemma path_schedule:
  "writer_path E ch s s' \<Longrightarrow> \<exists>n. schedule E ch p (replicate n Writer_Turn) s = Some s'"
proof (induction rule: writer_path.induct)
  case (path_refl s)
  then show ?case by (intro exI [of _ 0]) simp
next
  case (path_step s s1 s2)
  then obtain n where "schedule E ch p (replicate n Writer_Turn) s1 = Some s2" by blast
  with path_step(1) show ?case by (intro exI [of _ "Suc n"]) simp
qed

lemma path_reply:
  assumes "sys_phase s = Replying out d"
  shows "writer_path E ch s (s\<lparr>sys_replied := sys_replied s @ out, sys_phase := Replying [] d\<rparr>)"
  using assms
proof (induction out arbitrary: s)
  case Nil
  then have "s\<lparr>sys_replied := sys_replied s @ [], sys_phase := Replying [] d\<rparr> = s" by simp
  then show ?case by (metis path_refl)
next
  case (Cons r out)
  let ?s1 = "s\<lparr>sys_replied := sys_replied s @ [r], sys_phase := Replying out d\<rparr>"
  have "writer_turn E ch s = Some ?s1" using Cons.prems by (simp add: writer_turn_def)
  then show ?case using Cons.IH [of ?s1] by (auto intro: path_step)
qed

lemma path_drain:
  assumes "sys_phase s = Draining batch n" and "drain (ch_receiver ch) n (sys_chan s) = (extra, d, q)"
  shows "writer_path E ch s (commit_drained E (batch @ extra) d (s\<lparr>sys_chan := q\<rparr>))"
  using assms
proof (induction n arbitrary: s batch extra)
  case 0
  then have "extra = [] \<and> d = None \<and> s\<lparr>sys_chan := q\<rparr> = s" by auto
  with "0.prems"(1) show ?case by (intro path_one) (simp add: writer_turn_def writer_drain_def)
next
  case (Suc n)
  obtain r q1 where r: "try_recv (ch_receiver ch) (sys_chan s) = (r, q1)" by fastforce
  show ?case
  proof (cases "\<exists>r2 t2. r = Some (Write r2 t2) \<and> single_op r2")
    case True
    then obtain r2 t2 where w: "r = Some (Write r2 t2)" "single_op r2" by blast
    obtain extra' d' q2 where rest: "drain (ch_receiver ch) n q1 = (extra', d', q2)" by (metis prod_cases3)
    with Suc.prems(2) r w have res: "extra = (r2, t2) # extra'" "d' = d" "q2 = q" by auto
    let ?s1 = "s\<lparr>sys_chan := q1, sys_phase := Draining (batch @ [(r2, t2)]) n\<rparr>"
    have "writer_path E ch ?s1 (commit_drained E ((batch @ [(r2, t2)]) @ extra') d (?s1\<lparr>sys_chan := q\<rparr>))"
      using rest res by (intro Suc.IH) simp_all
    moreover have "writer_turn E ch s = Some ?s1"
      using Suc.prems(1) r w by (simp add: writer_turn_def writer_drain_def)
    ultimately show ?thesis
      using res path_step by (fastforce simp: commit_drained_def split: prod.splits)
  next
    case False
    then have "extra = [] \<and> d = r \<and> q = q1
        \<and> writer_turn E ch s = Some (commit_drained E batch r (s\<lparr>sys_chan := q1\<rparr>))"
      using Suc.prems r by (auto simp: writer_turn_def writer_drain_def split: option.splits command.splits)
    then show ?thesis by (simp add: path_one)
  qed
qed

text \<open>After a command handled alone its replies are sent and the loop goes on, or it is left.\<close>

lemma path_alone:
  assumes "handle_alone E w cmd = (stop, out, w')"
  shows "writer_path E ch (after_alone (stop, out, w') s) (s\<lparr>sys_writer := w',
    sys_replied := sys_replied s @ out, sys_phase := if stop then Leaving else Receiving\<rparr>)"
proof (cases stop)
  case True
  then have "out = []" using assms by (cases cmd) auto
  with True show ?thesis by (simp add: path_refl)
next
  case False
  let ?s1 = "s\<lparr>sys_writer := w', sys_replied := sys_replied s @ out, sys_phase := Replying [] None\<rparr>"
  have "writer_path E ch (after_alone (stop, out, w') s) ?s1"
    using False path_reply [of "after_alone (stop, out, w') s" out None E ch] by simp
  moreover have "writer_turn E ch ?s1 = Some (?s1\<lparr>sys_phase := Receiving\<rparr>)" by (simp add: writer_turn_def)
  ultimately show ?thesis using False path_trans [OF _ path_one] by fastforce
qed

lemma path_round:
  assumes "sys_phase s = Receiving"
    and "blocking_recv (ch_receiver ch) (sys_chan s) = (Some cmd, q1)"
    and "run_step E (ch_receiver ch) (sys_writer s) cmd q1 = (stop, rs, w', q2)"
  shows "writer_path E ch s (s\<lparr>sys_chan := q2, sys_writer := w',
    sys_replied := sys_replied s @ rs, sys_phase := if stop then Leaving else Receiving\<rparr>)"
proof (cases "\<exists>r t b. cmd = Write r t \<and> cfg_batch (w_config (sys_writer s)) = Some b \<and> single_op r")
  case False
  obtain st out w1 where alone: "handle_alone E (sys_writer s) cmd = (st, out, w1)" by (metis prod_cases3)
  have "run_step E (ch_receiver ch) (sys_writer s) cmd q1 = (st, out, w1, q1)"
    using False alone by (auto simp: run_step_def split: command.split option.split)
  then have eq: "st = stop" "out = rs" "w1 = w'" "q1 = q2" using assms(3) by simp_all
  have "writer_turn E ch s = Some (after_alone (handle_alone E (sys_writer s) cmd) (s\<lparr>sys_chan := q1\<rparr>))"
    using False assms(1,2)
    by (auto simp: writer_turn_def writer_receive_def simp del: handle_alone.simps split: command.split option.split)
  then have "writer_turn E ch s = Some (after_alone (stop, rs, w') (s\<lparr>sys_chan := q2\<rparr>))"
    using alone eq by simp
  from path_step [OF this path_alone [OF alone [unfolded eq]]] show ?thesis by simp
next
  case True
  then obtain r t b where w: "cmd = Write r t" "cfg_batch (w_config (sys_writer s)) = Some b" "single_op r"
    by blast
  obtain extra d q where dr: "drain (ch_receiver ch) (max_size b - 1) q1 = (extra, d, q)" by (metis prod_cases3)
  obtain out1 w1 where c: "commit_collected E (sys_writer s) ((r, t) # extra) = (out1, w1)" by fastforce
  have eq: "run_step E (ch_receiver ch) (sys_writer s) cmd q1
      = (case d of None \<Rightarrow> (False, out1, w1, q)
         | Some cmd' \<Rightarrow> (case handle_alone E w1 cmd' of (stop, out2, w2) \<Rightarrow> (stop, out1 @ out2, w2, q)))"
    using w dr c by (simp add: run_step_def handle_batched_def)
  let ?s1 = "s\<lparr>sys_chan := q1, sys_phase := Draining [(r, t)] (max_size b - 1)\<rparr>"
  let ?s2 = "s\<lparr>sys_chan := q, sys_writer := w1, sys_phase := Replying out1 d\<rparr>"
  let ?s3 = "s\<lparr>sys_chan := q, sys_writer := w1, sys_replied := sys_replied s @ out1, sys_phase := Replying [] d\<rparr>"
  have "writer_turn E ch s = Some ?s1"
    using assms(1,2) w by (simp add: writer_turn_def writer_receive_def)
  moreover have "writer_path E ch ?s1 ?s2"
    using path_drain [of ?s1 "[(r, t)]" "max_size b - 1" ch extra d q E] dr c by (simp add: commit_drained_def)
  moreover have "writer_path E ch ?s2 ?s3" using path_reply [of ?s2 out1 d E ch] by simp
  ultimately have to3: "writer_path E ch s ?s3" by (blast intro: path_step path_trans)
  show ?thesis
  proof (cases d)
    case None
    then have "writer_turn E ch ?s3 = Some (?s3\<lparr>sys_phase := Receiving\<rparr>)"
      by (simp add: writer_turn_def)
    from path_trans [OF to3 path_one [OF this]] show ?thesis using eq assms(3) None by simp
  next
    case (Some cmd')
    obtain st out2 w2 where alone: "handle_alone E w1 cmd' = (st, out2, w2)" by (metis prod_cases3)
    have "writer_turn E ch ?s3 = Some (after_alone (st, out2, w2) ?s3)"
      using Some alone by (simp add: writer_turn_def)
    from path_trans [OF to3 path_step [OF this path_alone [OF alone]]] show ?thesis
      using eq assms(3) Some alone by simp
  qed
qed

text \<open>Once no sender is left, the turns of the writer are the function \<open>run\<close>, to its end.\<close>

lemma path_run:
  fixes E :: "('n, 'c, 'e) env" and ch :: "('n, 'q) mpsc" and s :: "('n, 'c, 'e, 'q) sys"
  assumes "run E (ch_receiver ch) w out q = Some (out', w', q')"
    and "sys_phase s = Receiving" and "\<not> sys_senders s"
    and "sys_writer s = w" and "sys_replied s = out" and "sys_chan s = q"
  shows "writer_path E ch s
    (s\<lparr>sys_chan := q', sys_writer := w', sys_replied := out', sys_phase := Stopped\<rparr>)"
proof -
  define P where "P E1 rx w out q y \<longleftrightarrow> (\<forall>s. E1 = E \<longrightarrow> rx = ch_receiver ch \<longrightarrow> sys_phase s = Receiving \<longrightarrow>
      \<not> sys_senders s \<longrightarrow> sys_writer s = w \<longrightarrow> sys_replied s = out \<longrightarrow> sys_chan s = q \<longrightarrow>
      writer_path E ch s (s\<lparr>sys_chan := snd (snd y), sys_writer := fst (snd y), sys_replied := fst y,
        sys_phase := Stopped\<rparr>))"
    for E1 rx w out q and y :: "'e reply list \<times> 'c writer \<times> 'q"
  have leave: "writer_path E ch (s1\<lparr>sys_phase := Leaving\<rparr>)
      (s1\<lparr>sys_writer := shutdown_checkpoint E (sys_writer s1), sys_phase := Stopped\<rparr>)" for s1
    by (rule path_one) (simp add: writer_turn_def writer_leave_def)
  have "P E (ch_receiver ch) w out q (out', w', q')"
  proof (rule run.raw_induct [where P = P, OF _ assms(1)], goal_cases)
    case (1 run' E1 rx w out q y)
    have "writer_path E ch s (s\<lparr>sys_chan := snd (snd y), sys_writer := fst (snd y), sys_replied := fst y,
        sys_phase := Stopped\<rparr>)"
      if s: "E1 = E" "rx = ch_receiver ch" "sys_phase s = Receiving" "\<not> sys_senders s" "sys_writer s = w"
        "sys_replied s = out" "sys_chan s = q" for s
    proof -
      obtain r q1 where r: "blocking_recv rx q = (r, q1)" by fastforce
      show ?thesis
      proof (cases r)
        case None
        then have "y = (out, shutdown_checkpoint E w, q1)" using 1(2) r s(1) by simp
        moreover have "writer_turn E ch s = Some (s\<lparr>sys_chan := q1, sys_phase := Leaving\<rparr>)"
          using None r s by (simp add: writer_turn_def writer_receive_def)
        ultimately show ?thesis
          using s path_step [OF _ leave [of "s\<lparr>sys_chan := q1\<rparr>"], of s] by (cases s) simp
      next
        case (Some cmd)
        obtain stop rs w1 q2 where step: "run_step E rx w cmd q1 = (stop, rs, w1, q2)" by (metis prod_cases4)
        let ?s1 = "s\<lparr>sys_chan := q2, sys_writer := w1, sys_replied := out @ rs\<rparr>"
        have round: "writer_path E ch s (?s1\<lparr>sys_phase := if stop then Leaving else Receiving\<rparr>)"
          using path_round [OF s(3), of ch cmd q1 E stop rs w1 q2] r Some step s by simp
        show ?thesis
        proof (cases stop)
          case True
          then have "y = (out @ rs, shutdown_checkpoint E w1, q2)" using 1(2) r Some step s(1) by simp
          then show ?thesis using True path_trans [OF round] leave [of ?s1] by (cases s) simp
        next
          case False
          then have "run' E rx w1 (out @ rs) q2 = Some y" using 1(2) r Some step s(1) by simp
          from 1(1) [OF this] have "writer_path E ch (?s1\<lparr>sys_phase := Receiving\<rparr>)
              (s\<lparr>sys_chan := snd (snd y), sys_writer := fst (snd y), sys_replied := fst y, sys_phase := Stopped\<rparr>)"
            using s unfolding P_def by (auto dest!: spec [of _ "?s1\<lparr>sys_phase := Receiving\<rparr>"])
          then show ?thesis using path_trans [OF round] False by simp
        qed
      qed
    qed
    then show ?case by (simp add: P_def)
  qed
  then show ?thesis using assms(2-6) by (simp add: P_def)
qed

end
