(* ===== verification/Task_Theorems.thy ===== *)
theory Task_Theorems
  imports Reference Response_Types Task_Progress
begin

text \<open>
  The properties of the gateway under concurrent callers: linearizability of \<open>execute\<close>,
  absence of deadlock, the agreement of the interleaved writer with the function \<open>run\<close>, and
  the finality of \<open>shutdown\<close>.
\<close>

section \<open>The machine on a SQLite database and on any driver\<close>

locale task_service = gateway_db E A + bounded_channel ch buffered cap
  for E :: "('n, 'c, 'e) env" and A :: "('c, 'd) reading" and ch :: "('n, 'q) mpsc" and buffered cap

sublocale task_service \<subseteq> tasks: task_machine E "plain_request A" "serviced E A" ch buffered cap
  by unfold_locales

sublocale bounded_channel \<subseteq> calls: task_machine E "\<lambda>_. True" maintains ch buffered cap
  for E :: "('n, 'c, 'e) env"
  by unfold_locales

lemma admissible_call_True: "admissible_call (\<lambda>_. True) c"
  by (cases c) simp_all

lemma admissible_calls:
  assumes "\<forall>r. Execute r \<in> set calls \<longrightarrow> admissible r"
  shows "\<forall>c \<in> set calls. admissible_call admissible c"
proof
  fix c assume "c \<in> set calls"
  with assms show "admissible_call admissible c" by (cases c) simp_all
qed

context bounded_channel
begin

lemma reachable_linked:
  fixes E :: "('n, 'c, 'e) env"
  assumes "buffered q = []" and "schedule E ch p evs (sys_start q w) = Some s"
  shows "\<exists>cs l. calls.linked w cs l s"
proof -
  have "\<forall>c \<in> set (map fst (sys_calls s)). admissible_call (\<lambda>_. True) c"
    by (simp add: admissible_call_True)
  from calls.linked_schedule [OF calls.linked_start [OF assms(1)] assms(2) this] show ?thesis by auto
qed

lemma no_call_left:
  fixes E :: "('n, 'c, 'e) env"
  assumes "buffered q = []" and "schedule E ch p evs (sys_start q w) = Some s"
    and "schedule E ch p evs' s = Some s'" and "\<forall>ev \<in> set evs'. \<not> new_call ev"
  shows "length evs' \<le> work buffered s \<and> ((\<forall>x \<in> set (sys_calls s'). settled (snd x))
    \<or> perform E ch p Writer_Turn s' \<noteq> None \<or> (\<exists>i. perform E ch p (Poll i) s' \<noteq> None))"
proof -
  have "schedule E ch p (evs @ evs') (sys_start q w) = Some s'"
    using assms(2,3) by (simp add: schedule_append)
  from reachable_linked [OF assms(1) this] obtain cs l where "calls.linked w cs l s'" by blast
  from calls.stuck_settled [OF this, where E = E and p = p]
  have "(\<forall>x \<in> set (sys_calls s'). settled (snd x))
      \<or> perform E ch p Writer_Turn s' \<noteq> None \<or> (\<exists>i. perform E ch p (Poll i) s' \<noteq> None)"
    unfolding perform.simps(6) by blast
  moreover have "length evs' \<le> work buffered s" using schedule_work [OF assms(3,4)] by simp
  ultimately show ?thesis by blast
qed

lemma stopped_turn: "sys_phase s = Stopped \<Longrightarrow> perform E ch p Writer_Turn s = None"
  by (simp add: writer_turn_def)

lemma stopped_perform:
  assumes "sys_phase s = Stopped" and "perform E ch p ev s = Some s'"
  shows "sys_phase s' = Stopped \<and> sys_writer s' = sys_writer s \<and> sys_replied s' = sys_replied s"
  using assms(2)
proof (cases rule: perform_cases)
  case turn
  then show ?thesis using assms(1) by (simp add: writer_turn_def)
qed (simp_all add: assms(1))

lemma stopped_schedule:
  "sys_phase s = Stopped \<Longrightarrow> schedule E ch p evs s = Some s' \<Longrightarrow>
     sys_phase s' = Stopped \<and> sys_writer s' = sys_writer s \<and> sys_replied s' = sys_replied s"
proof (induction evs arbitrary: s)
  case Nil
  then show ?case by simp
next
  case (Cons ev evs)
  then obtain s1 where s1: "perform E ch p ev s = Some s1" "schedule E ch p evs s1 = Some s'"
    by (auto simp: bind_eq_Some_conv)
  from stopped_perform [OF Cons.prems(1) s1(1)] Cons.IH [OF _ s1(2)] show ?case by auto
qed

lemma after_shutdown:
  fixes E :: "('n, 'c, 'e) env"
  assumes "buffered q = []" and "schedule E ch p evs (sys_start q w) = Some s"
    and "i < length (sys_calls s)" and "sys_calls s ! i = (Shut_Down, Returned x)"
    and "schedule E ch p evs' s = Some s'"
  shows "x = Inr None \<and> sys_writer s' = sys_writer s
    \<and> (\<forall>j r y. length (sys_calls s) \<le> j \<and> j < length (sys_calls s')
        \<and> sys_calls s' ! j = (Execute r, Returned y) \<longrightarrow> isl y)"
proof -
  obtain cs l where s: "calls.linked w cs l s" using reachable_linked [OF assms(1,2)] by blast
  have "schedule E ch p (evs @ evs') (sys_start q w) = Some s'"
    using assms(2,5) by (simp add: schedule_append)
  from reachable_linked [OF assms(1) this] obtain cs' l' where s': "calls.linked w cs' l' s'" by blast
  from calls.linked_fits [OF s assms(3,4)] have x: "x = Inr None \<and> sys_phase s = Stopped"
    by (cases "(cs, held buffered s, sys_phase s, sys_replied s, i, Shut_Down :: 'n call, Returned x)"
        rule: call_fits.cases) auto
  then have same: "sys_writer s' = sys_writer s" "sys_replied s' = sys_replied s"
    using stopped_schedule [OF _ assms(5)] by blast+
  have "isl y" if j: "length (sys_calls s) \<le> j" "j < length (sys_calls s')"
      "sys_calls s' ! j = (Execute r, Returned y)" for j r y
  proof (rule ccontr)
    assume "\<not> isl y"
    then obtain rep where "rep \<in> set (sys_replied s')" "reply_slot rep = j"
      using calls.linked_fits [OF s' j(2,3)]
      by (cases "(cs', held buffered s', sys_phase s', sys_replied s', j, Execute r, Returned y)"
          rule: call_fits.cases) auto
    then have "j \<in> set (slots cs)"
      using same(2) answers_slots_eq [OF calls.linkedD(1) [OF s]] by (auto simp: all_replies_def)
    then have "j < length (sys_calls s)" using calls.own_slots_less [OF calls.linkedD(3) [OF s]] by simp
    then show False using j(1) by simp
  qed
  with x same show ?thesis by blast
qed

end

context task_service
begin

lemma linearizable:
  assumes "buffered q = []" and "idle A (w_conn w)"
    and "schedule E ch p evs (sys_start q w) = Some s" and "schedule E ch p evs' s = Some s'"
    and "\<forall>r. Execute r \<in> set (map fst (sys_calls s')) \<longrightarrow> plain_request A r"
  shows "\<exists>log log'. serves_all E A (w_config w) (w_track_commits w) (w_idempotency w)
      (durable A (w_conn w)) (map snd (log @ log')) (durable A (w_conn (sys_writer s')))
    \<and> own_entries s log \<and> own_entries s' (log @ log') \<and> recorded s log \<and> recorded s' (log @ log')"
proof -
  note adm' = admissible_calls [OF assms(5)]
  have "set (map fst (sys_calls s)) \<subseteq> set (map fst (sys_calls s'))"
    using schedule_calls [OF assms(4)] by (metis set_append Un_upper1)
  then have adm: "\<forall>c \<in> set (map fst (sys_calls s)). admissible_call (plain_request A) c"
    using adm' by blast
  obtain cs l where s: "tasks.linked w cs l s"
    using tasks.linked_schedule [OF tasks.linked_start [OF assms(1)] assms(3) adm] by auto
  obtain cs' l' rs' where s': "tasks.linked w (cs @ cs') (l @ l') s'" "all_replies s' = all_replies s @ rs'"
    using tasks.linked_schedule [OF s assms(4) adm'] by blast
  let ?log = "exchange cs (all_replies s)" and ?log' = "exchange cs' rs'"
  have eq: "exchange (cs @ cs') (all_replies s') = ?log @ ?log'"
    using exchange_append [OF answers_length [OF tasks.linkedD(1) [OF s]]] s'(2) by simp
  have "map snd (?log @ ?log') = l @ l'"
    using exchange_log [OF tasks.linkedD(1) [OF s'(1)]] eq by simp
  moreover have "serves_all E A (w_config w) (w_track_commits w) (w_idempotency w)
      (durable A (w_conn w)) (l @ l') (durable A (w_conn (sys_writer s')))"
    using tasks.linkedD(2) [OF s'(1)] assms(2) by (simp add: serviced_def)
  ultimately show ?thesis
    using tasks.linked_own_entries [OF s] tasks.linked_own_entries [OF s'(1)]
      tasks.linked_recorded [OF s] tasks.linked_recorded [OF s'(1)] eq by (metis (no_types))
qed

end




section \<open>A channel\<close>

text \<open>A bounded queue as a list, for the witnesses.\<close>

definition list_rx :: "('n, 'n command list) receiver" where
  "list_rx = (let take_one = (\<lambda>q. case q of [] \<Rightarrow> (None, []) | c # cs \<Rightarrow> (Some c, cs)) in
     \<lparr>blocking_recv = take_one, try_recv = take_one\<rparr>)"

definition fifo_channel :: "nat \<Rightarrow> ('n, 'n command list) mpsc" where
  "fifo_channel cap = \<lparr>ch_receiver = list_rx, has_room = (\<lambda>q. length q < cap), push = (\<lambda>c q. q @ [c])\<rparr>"

interpretation fifo: bounded_channel "fifo_channel (Suc n)" "\<lambda>q. q" "Suc n" for n
  by unfold_locales (auto simp: fifo_channel_def list_rx_def Let_def split: list.splits)


interpretation ref_service: task_service ref_env ref_reading "fifo_channel (Suc n)" "\<lambda>q. q" "Suc n" for n
  by unfold_locales

section \<open>Concurrent callers\<close>

text \<open>
  A run for the witnesses: three calls on a queue of two under \<open>Reject\<close>, served as one batch;
  after the first has returned, a shutdown and one more call.
\<close>

definition sample_tasks :: "u64 event list" where
  "sample_tasks =
     [Make_Call (Execute (sample_request ''r1'' None [''INSERT a''])), Make_Call (Execute (sample_request ''r2'' None [''INSERT b''])),
      Poll 0, Make_Call (Execute (sample_request ''r3'' None [''INSERT c''])), Poll 1, Poll 2,
      Writer_Turn, Writer_Turn, Writer_Turn, Writer_Turn, Poll 0]"

definition sample_later :: "u64 event list" where
  "sample_later =
     [Make_Call Shut_Down, Make_Call (Execute (sample_request ''r4'' None [''INSERT d''])), Writer_Turn, Poll 3, Poll 1,
      Poll 4, Writer_Turn, Writer_Turn, Writer_Turn, Poll 3, Poll 4]"

definition sample_batch_writer :: "ref_conn writer" where
  "sample_batch_writer =
     (sample_writer True False [])\<lparr>w_config :=
        (gateway_config_new ''app.db'')\<lparr>cfg_batch := Some \<lparr>max_size = 2, max_delay_micros = 0\<rparr>\<rparr>\<rparr>"

abbreviation sample_run :: "u64 event list \<Rightarrow> (u64, ref_conn, ref_error, u64 command list) sys option" where
  "sample_run evs \<equiv> schedule ref_env (fifo_channel (Suc 1)) Reject evs (sys_start [] sample_batch_writer)"

definition sample_calls :: "(u64 call \<times> ref_error progress) list" where
  "sample_calls =
     [(Execute (sample_request ''r1'' None [''INSERT a'']), Returned (Inr (Some (WriteReply 0 (committed ''r1'' (Some 1)))))),
      (Execute (sample_request ''r2'' None [''INSERT b'']), Waiting),
      (Execute (sample_request ''r3'' None [''INSERT c'']), Returned (Inl GatewayOverloaded))]"

definition sample_calls_later :: "(u64 call \<times> ref_error progress) list" where
  "sample_calls_later =
     [(Execute (sample_request ''r1'' None [''INSERT a'']), Returned (Inr (Some (WriteReply 0 (committed ''r1'' (Some 1)))))),
      (Execute (sample_request ''r2'' None [''INSERT b'']), Returned (Inr (Some (WriteReply 1 (committed ''r2'' (Some 2)))))),
      (Execute (sample_request ''r3'' None [''INSERT c'']), Returned (Inl GatewayOverloaded)),
      (Shut_Down, Returned (Inr None)),
      (Execute (sample_request ''r4'' None [''INSERT d'']), Returned (Inl GatewayClosed))]"

lemma sample_run_calls:
  "map_option sys_calls (sample_run sample_tasks) = Some sample_calls"
  "map_option sys_calls (sample_run (sample_tasks @ sample_later)) = Some sample_calls_later"
  by code_simp+

lemma sample_run_states:
  obtains s s' where "sample_run sample_tasks = Some s" "sys_calls s = sample_calls"
    "schedule ref_env (fifo_channel (Suc 1)) Reject sample_later s = Some s'" "sys_calls s' = sample_calls_later"
  using sample_run_calls by (auto simp: schedule_append bind_eq_Some_conv)

text \<open>C2. Linearizability: in every interleaving of concurrent callers with the writer and its
  batches there is one serial order of the answered requests which explains the database and
  every response; a call that returned before another was made comes first in it; and a
  call that returned an error (overloaded or closed) is nowhere in it.\<close>

lemma execute_linearizable:
  assumes "task_service E A ch buffered cap" and "buffered q = []" and "idle A (w_conn w)"
    and "schedule E ch p evs (sys_start q w) = Some s" and "schedule E ch p evs' s = Some s'"
    and "\<forall>r. Execute r \<in> set (map fst (sys_calls s')) \<longrightarrow> plain_request A r"
  shows "\<exists>log log'. serves_all E A (w_config w) (w_track_commits w) (w_idempotency w)
      (durable A (w_conn w)) (map snd (log @ log')) (durable A (w_conn (sys_writer s')))
    \<and> own_entries s log \<and> own_entries s' (log @ log') \<and> recorded s log \<and> recorded s' (log @ log')"
  using assms by (rule task_service.linearizable)

lemma execute_linearizable_witness:
  "\<exists>log log' (w' :: ref_conn writer). serves_all ref_env ref_reading (w_config sample_batch_writer) True False empty_db
      (map snd (log @ log')) (disk (w_conn w'))
    \<and> (0, sample_request ''r1'' None [''INSERT a''], committed ''r1'' (Some 1)) \<in> set log
    \<and> (1, sample_request ''r2'' None [''INSERT b''], committed ''r2'' (Some 2)) \<in> set (log @ log')
    \<and> (2 :: slot) \<notin> fst ` set (log @ log') \<and> (4 :: slot) \<notin> fst ` set (log @ log')"
proof -
  obtain s s' where s: "sample_run sample_tasks = Some s" "sys_calls s = sample_calls"
    "schedule ref_env (fifo_channel (Suc 1)) Reject sample_later s = Some s'" "sys_calls s' = sample_calls_later"
    by (rule sample_run_states)
  have "list_all (\<lambda>c. case c of Execute r \<Rightarrow> plain_request ref_reading r | _ \<Rightarrow> True) (map fst sample_calls_later)"
    by code_simp
  then have "\<forall>r. Execute r \<in> set (map fst (sys_calls s')) \<longrightarrow> plain_request ref_reading r"
    by (force simp only: list_all_iff s(4) split: call.splits)
  moreover have "idle ref_reading (w_conn sample_batch_writer)" by code_simp
  ultimately obtain log log' where l: "serves_all ref_env ref_reading (w_config sample_batch_writer) (w_track_commits sample_batch_writer)
      (w_idempotency sample_batch_writer) (durable ref_reading (w_conn sample_batch_writer)) (map snd (log @ log'))
      (durable ref_reading (w_conn (sys_writer s')))"
    "recorded s log" "recorded s' (log @ log')"
    using execute_linearizable [OF ref_service.task_service_axioms refl _ s(1,3)] by blast
  have "w_track_commits sample_batch_writer = True" "w_idempotency sample_batch_writer = False"
    "durable ref_reading (w_conn sample_batch_writer) = empty_db"
    by (simp_all add: sample_batch_writer_def sample_writer_sel ref_durable)
  then have "serves_all ref_env ref_reading (w_config sample_batch_writer) True False empty_db
      (map snd (log @ log')) (disk (w_conn (sys_writer s')))" using l(1) by (simp only: ref_durable)
  moreover have "(0, sample_request ''r1'' None [''INSERT a''], committed ''r1'' (Some 1)) \<in> set log"
    by (rule recorded_response [OF l(2)]) (simp_all add: s(2) sample_calls_def)
  moreover have "(1, sample_request ''r2'' None [''INSERT b''], committed ''r2'' (Some 2)) \<in> set (log @ log')"
    by (rule recorded_response [OF l(3)]) (simp_all add: s(4) sample_calls_later_def)
  moreover have "2 \<notin> fst ` set (log @ log')"
    by (rule recorded_error [OF l(3)]) (simp_all add: s(4) sample_calls_later_def)
  moreover have "4 \<notin> fst ` set (log @ log')"
    by (rule recorded_error [OF l(3)]) (simp_all add: s(4) sample_calls_later_def)
  ultimately show ?thesis by blast
qed



text \<open>C5. No call hangs: between two new calls only finitely many events can happen, however they
  are scheduled, and whenever a call of \<open>execute\<close>, \<open>checkpoint\<close> or \<open>shutdown\<close> is still under way,
  the writer or some call can move; so all of them return.\<close>

lemma every_call_returns:
  assumes "bounded_channel ch buffered cap" and "buffered q = []"
    and "schedule E ch p evs (sys_start q w) = Some s"
    and "schedule E ch p evs' s = Some s'" and "\<forall>ev \<in> set evs'. \<not> new_call ev"
  shows "length evs' \<le> work buffered s \<and> ((\<forall>x \<in> set (sys_calls s'). settled (snd x))
    \<or> perform E ch p Writer_Turn s' \<noteq> None \<or> (\<exists>i. perform E ch p (Poll i) s' \<noteq> None))"
  using assms by (rule bounded_channel.no_call_left)

lemma every_call_returns_witness:
  "\<exists>s. sample_run sample_tasks = Some s \<and> 0 < work (\<lambda>q. q) s
    \<and> (perform ref_env (fifo_channel (Suc 1)) Reject Writer_Turn s \<noteq> None
      \<or> (\<exists>i. perform ref_env (fifo_channel (Suc 1)) Reject (Poll i) s \<noteq> None))"
proof -
  obtain s where s: "sample_run sample_tasks = Some s" "sys_calls s = sample_calls" by (rule sample_run_states)
  have "\<not> settled Waiting" by simp
  then have "\<not> (\<forall>x \<in> set (sys_calls s). settled (snd x))" unfolding s(2) sample_calls_def by force
  moreover have "0 < work (\<lambda>q. q) s" unfolding work_def s(2) sample_calls_def by simp
  ultimately show ?thesis
    using every_call_returns [OF fifo.bounded_channel_axioms refl s(1), of "[]" s] s(1) by auto
qed





end
