(* ===== verification/Lone_Caller.thy ===== *)
theory Lone_Caller
  imports Gateway Writer_Live
begin

text \<open>
  A gateway with a single caller that awaits every call before the next: the composition of
  \<open>InProcessGateway::open_with_config\<close>, \<open>GatewayHandle::execute\<close>, the writer loop and
  \<open>InProcessGateway::shutdown\<close> serves the requests in order as the reference semantics does.
\<close>

section \<open>The runtime without other tasks\<close>

text \<open>A channel on which nothing waits.\<close>

definition only_this :: "('n, unit) receiver" where
  "only_this = \<lparr>blocking_recv = Pair None, try_recv = Pair None\<rparr>"

lemma drain_only_this [simp]: "drain only_this n q = ([], None, q)"
  by (cases n) (simp_all add: only_this_def)

lemma run_step_lone:
  "writer_apply E w r = (resp, w') \<Longrightarrow>
     run_step E only_this w (Write r t) () = (False, [WriteReply t resp], w', ())"
  by (simp add: run_step_def handle_batched_def commit_collected_def apply_and_reply_def split: option.split)

text \<open>
  \<open>calm s w\<close>: nothing is queued, no call is pending and the writer thread, whose state is
  \<open>w\<close>, waits for a command; \<open>ready s w t\<close>: moreover the caller holds the fresh reply slot \<open>t\<close>;
  \<open>queued s w cmd\<close>: \<open>cmd\<close> is the one command in the queue. The laws say that a send into an
  empty queue completes at once under each policy, that the thread makes one turn of its
  loop on the only command while the caller waits, that the latency buffer is shared with it,
  and that it ends when it is told to.
\<close>

locale lone_caller =
  fixes E :: "('n, 'c, 'e) env" and rt :: "('n, 'c, 'e, 's) runtime"
    and calm :: "'s \<Rightarrow> 'c writer \<Rightarrow> bool" and ready :: "'s \<Rightarrow> 'c writer \<Rightarrow> slot \<Rightarrow> bool"
    and queued :: "'s \<Rightarrow> 'c writer \<Rightarrow> 'n command \<Rightarrow> bool"
  assumes channel_small: "0 < n \<Longrightarrow> n < 2 ^ 32 \<Longrightarrow> channel_ok rt n"
    and spawn_calm: "0 < n \<Longrightarrow> calm (spawn_writer rt n w) w"
    and slot_ready: "calm s w \<Longrightarrow> oneshot rt s = (t, s') \<Longrightarrow> ready s' w t"
    and send_ready: "ready s w t \<Longrightarrow> send rt (Write r t) s = (ok, s') \<Longrightarrow> ok \<and> queued s' w (Write r t)"
    and try_ready: "ready s w t \<Longrightarrow> try_send rt (Write r t) s = (x, s') \<Longrightarrow> x = Sent \<and> queued s' w (Write r t)"
    and timeout_ready: "ready s w t \<Longrightarrow> send_timeout rt ms (Write r t) s = (y, s') \<Longrightarrow>
      y = Some True \<and> queued s' w (Write r t)"
    and turn_reply: "queued s w (Write r t) \<Longrightarrow>
      run_step E only_this w (Write r t) () = (False, [WriteReply t resp], w', ()) \<Longrightarrow>
      recv_write rt t s = (answer, s') \<Longrightarrow> answer = Some resp \<and> calm s' w'"
    and latency_shared: "calm s w \<Longrightarrow> shared_latency rt s = w_latency_buf w"
    and joined: "calm s w \<Longrightarrow> send rt Shutdown s = (ok, s') \<Longrightarrow> fst (join_writer rt s')"
begin

lemma submit_ready:
  assumes "ready s w t"
  shows "\<exists>s'. submit rt p (Write r t) s = (Inr (), s') \<and> queued s' w (Write r t)"
proof (cases p)
  case Wait
  then show ?thesis using send_ready [OF assms, of r] by (cases "send rt (Write r t) s") (simp add: submit_def)
next
  case Reject
  then show ?thesis using try_ready [OF assms, of r] by (cases "try_send rt (Write r t) s") (simp add: submit_def)
next
  case (WaitTimeout ms)
  then show ?thesis using timeout_ready [OF assms, of ms r]
    by (cases "send_timeout rt ms (Write r t) s") (simp add: submit_def)
qed

lemma execute_calm:
  assumes "calm s w" and "writer_apply E w r = (resp, w')"
  shows "\<exists>s'. handle_execute rt h r s = (Inr resp, s') \<and> calm s' w'"
proof -
  obtain t s1 where t: "oneshot rt s = (t, s1)" by fastforce
  obtain s2 where u: "submit rt (gh_overflow h) (Write r t) s1 = (Inr (), s2)" "queued s2 w (Write r t)"
    using submit_ready [OF slot_ready [OF assms(1) t]] by blast
  obtain x s3 where v: "recv_write rt t s2 = (x, s3)" by fastforce
  have "x = Some resp \<and> calm s3 w'" using turn_reply [OF u(2) run_step_lone [OF assms(2)] v] .
  then show ?thesis using t u(1) v by (simp add: handle_execute_def)
qed

lemma shutdown_calm: "calm s w \<Longrightarrow> fst (shutdown rt gw s) = Inr ()"
  using joined [of s w] by (auto simp: shutdown_def split: prod.splits)

end

section \<open>A session\<close>

text \<open>The caller's requests, each awaited.\<close>

fun execute_each ::
  "('n, 'c, 'e, 's) runtime \<Rightarrow> gateway_handle \<Rightarrow> 'n write_request list \<Rightarrow> 's \<Rightarrow>
   ('e error + write_response) list \<times> 's" where
  "execute_each rt h [] s = ([], s)"
| "execute_each rt h (r # rs) s =
     (case handle_execute rt h r s of
        (x, s1) \<Rightarrow> (case execute_each rt h rs s1 of (xs, s2) \<Rightarrow> (x # xs, s2)))"

text \<open>Between two calls the writer is idle on a healthy connection whose database is \<open>d\<close>.\<close>

definition session_at ::
  "('c, 'd) reading \<Rightarrow> ('c \<Rightarrow> bool) \<Rightarrow> ('s \<Rightarrow> 'c writer \<Rightarrow> bool) \<Rightarrow> gateway_config \<Rightarrow> 'd \<Rightarrow> 's \<Rightarrow> bool" where
  "session_at A healthy calm config d s \<longleftrightarrow>
     (\<exists>w. calm s w \<and> idle A (w_conn w) \<and> healthy (w_conn w) \<and> durable A (w_conn w) = d \<and> w_config w = config
        \<and> w_track_commits w = cfg_track_commits config \<and> w_idempotency w = cfg_idempotency config)"

abbreviation serve_as ::
  "('n, 'c, 'e) env \<Rightarrow> ('c, 'd) reading \<Rightarrow> gateway_config \<Rightarrow> 'n write_request \<Rightarrow> 'd \<Rightarrow>
   write_response option \<times> 'd" where
  "serve_as E A config \<equiv> spec_serve E A config (cfg_track_commits config) (cfg_idempotency config)"

locale lone_session = live_db E A healthy + lone_caller E rt calm ready queued
  for E :: "('n, 'c, 'e) env" and A :: "('c, 'd) reading" and healthy
    and rt :: "('n, 'c, 'e, 's) runtime" and calm ready queued
begin

lemma session_execute:
  assumes "session_at A healthy calm config d s" and "plain_request A r"
  obtains resp s' w w' where "handle_execute rt h r s = (Inr resp, s')"
    "outcome resp = fst (serve_as E A config r d)" "session_at A healthy calm config (snd (serve_as E A config r d)) s'"
    "writer_apply E w r = (resp, w')" "w_config w = config" "w_track_commits w = cfg_track_commits config"
    "shared_latency rt s = w_latency_buf w" "shared_latency rt s' = w_latency_buf w'"
proof -
  obtain w where w: "calm s w" "idle A (w_conn w)" "healthy (w_conn w)" "durable A (w_conn w) = d" "w_config w = config"
      "w_track_commits w = cfg_track_commits config" "w_idempotency w = cfg_idempotency config"
    using assms(1) by (auto simp: session_at_def)
  obtain resp w' where run: "writer_apply E w r = (resp, w')" by fastforce
  obtain s' where s': "handle_execute rt h r s = (Inr resp, s')" "calm s' w'"
    using execute_calm [OF w(1) run] by blast
  have live: "healthy (w_conn w')" "(outcome resp, durable A (w_conn w')) = serve_as E A config r d"
    using writer_apply_live [OF w(2,3) assms(2) run] w(4-7) by simp_all
  have "idle A (w_conn w')" using writer_apply_serves [OF w(2) assms(2) run] by blast
  moreover have "w_config w' = config" "w_track_commits w' = cfg_track_commits config"
      "w_idempotency w' = cfg_idempotency config"
    using writer_apply_frame [of E w r] run w(5-7) by simp_all
  moreover have "outcome resp = fst (serve_as E A config r d)" "durable A (w_conn w') = snd (serve_as E A config r d)"
    using live(2) by (metis fst_conv, metis snd_conv)
  ultimately show ?thesis
    using that [OF s'(1) _ _ run w(5,6) latency_shared [OF w(1)] latency_shared [OF s'(2)]] s'(2) live(1)
    unfolding session_at_def by blast
qed

lemma session_each:
  assumes "session_at A healthy calm config d s" and "\<forall>r \<in> set rs. plain_request A r"
    and "d' = snd (spec_serve_all E A config (cfg_track_commits config) (cfg_idempotency config) rs d)"
  shows "\<exists>resps s'. execute_each rt h rs s = (map Inr resps, s')
    \<and> (map outcome resps, d') = spec_serve_all E A config (cfg_track_commits config) (cfg_idempotency config) rs d
    \<and> session_at A healthy calm config d' s'"
  using assms
proof (induction rs arbitrary: d s)
  case Nil
  then show ?case by simp
next
  case (Cons r rs)
  have "plain_request A r" using Cons.prems(2) by simp
  then obtain resp s1 where one: "handle_execute rt h r s = (Inr resp, s1)"
    "outcome resp = fst (serve_as E A config r d)" "session_at A healthy calm config (snd (serve_as E A config r d)) s1"
    by (rule session_execute [OF Cons.prems(1)])
  have "d' = snd (spec_serve_all E A config (cfg_track_commits config) (cfg_idempotency config) rs (snd (serve_as E A config r d)))"
    using Cons.prems(3) by (simp split: prod.splits)
  from Cons.IH [OF one(3) _ this] Cons.prems(2) obtain resps s' where
    "execute_each rt h rs s1 = (map Inr resps, s')"
    "(map outcome resps, d') = spec_serve_all E A config (cfg_track_commits config) (cfg_idempotency config) rs (snd (serve_as E A config r d))"
    "session_at A healthy calm config d' s'" by auto
  then show ?case
    using one(1,2)
    by (cases "serve_as E A config r d") (intro exI [of _ "resp # resps"] exI [of _ s'], simp split: prod.splits, metis Pair_inject)
qed

lemma session_opened:
  assumes "conn_open (drv E) (cfg_db_path config) = Inr c0" and "apply_pragmas (drv E) config c0 = (Inr (), c1)"
    and "run_migrations (drv E) (cfg_track_commits config) (cfg_idempotency config) c1 = (Inr (), c2)"
    and "idle A c2" and "healthy c2" and "0 < cfg_queue_capacity config" and "cfg_queue_capacity config < 2 ^ 32"
  obtains gw s where "open_with_config E rt config = Some (Inr (gw, s))"
    "session_at A healthy calm config (durable A c2) s"
proof -
  let ?w = "new_writer c2 (cfg_track_commits config) (cfg_idempotency config) config new_latency_buffer"
  have "session_at A healthy calm config (durable A c2) (spawn_writer rt (cfg_queue_capacity config) ?w)"
    using spawn_calm [OF assms(6), of ?w] assms(4,5)
    unfolding session_at_def by (intro exI [of _ ?w]) (simp add: new_writer_def)
  then show ?thesis using that assms(1-3) channel_small [OF assms(6,7)] by (simp add: open_with_config_def)
qed

lemma opened_empty:
  assumes "open_with_config E rt config = Some (Inr (gw, s))" and "0 < cfg_queue_capacity config"
  shows "shared_latency rt s = new_latency_buffer"
  using assms(1) latency_shared [OF spawn_calm [OF assms(2)]]
  by (auto simp: open_with_config_def new_writer_def split: sum.splits prod.splits if_splits)

lemma session_shutdown: "session_at A healthy calm config d s \<Longrightarrow> fst (shutdown rt gw s) = Inr ()"
  using shutdown_calm by (auto simp: session_at_def)

lemma session_refines:
  assumes "conn_open (drv E) (cfg_db_path config) = Inr c0" and "apply_pragmas (drv E) config c0 = (Inr (), c1)"
    and "run_migrations (drv E) (cfg_track_commits config) (cfg_idempotency config) c1 = (Inr (), c2)"
    and "idle A c2" and "healthy c2" and "0 < cfg_queue_capacity config" and "cfg_queue_capacity config < 2 ^ 32"
    and "\<forall>r \<in> set rs. plain_request A r"
  shows "\<exists>gw s resps s'. open_with_config E rt config = Some (Inr (gw, s))
    \<and> execute_each rt (handle gw) rs s = (map Inr resps, s')
    \<and> map outcome resps
        = fst (spec_serve_all E A config (cfg_track_commits config) (cfg_idempotency config) rs (durable A c2))
    \<and> fst (shutdown rt gw s') = Inr ()"
proof -
  obtain gw s where opened: "open_with_config E rt config = Some (Inr (gw, s))"
      "session_at A healthy calm config (durable A c2) s"
    by (rule session_opened [OF assms(1-7)])
  obtain resps s' where "execute_each rt (handle gw) rs s = (map Inr resps, s')"
    "map outcome resps = fst (spec_serve_all E A config (cfg_track_commits config) (cfg_idempotency config) rs (durable A c2))"
    "\<exists>d. session_at A healthy calm config d s'"
    using session_each [OF opened(2) assms(8) refl, of "handle gw"] by (metis fst_conv)
  with opened(1) session_shutdown [of config _ s' gw] show ?thesis by blast
qed

end

end
