(* ===== verification/Session_Theorems.thy ===== *)
theory Session_Theorems
  imports Reference Lone_Caller
begin

text \<open>
  A gateway from its opening to its shutdown, for one caller: the reference runtime is such a
  setting, and the session meets the reference semantics.
\<close>

section \<open>The reference runtime with one caller\<close>

definition net_top :: "ref_net \<Rightarrow> slot" where
  "net_top s = sum_list (List.map_filter command_slot (net_sent s))"

definition net_calm :: "ref_net \<Rightarrow> ref_conn writer \<Rightarrow> bool" where
  "net_calm s w \<longleftrightarrow> net_writer s = w \<and> net_queue s = [] \<and> \<not> net_closed s \<and> 0 < net_cap s
     \<and> list_all (\<lambda>r. reply_slot r \<le> net_top s) (net_replies s)"

definition net_ready :: "ref_net \<Rightarrow> ref_conn writer \<Rightarrow> slot \<Rightarrow> bool" where
  "net_ready s w t \<longleftrightarrow> net_calm s w \<and> t = Suc (net_top s)"

definition net_queued :: "ref_net \<Rightarrow> ref_conn writer \<Rightarrow> u64 command \<Rightarrow> bool" where
  "net_queued s w cmd \<longleftrightarrow> net_writer s = w \<and> net_queue s = [cmd] \<and> \<not> net_closed s \<and> 0 < net_cap s
     \<and> (\<exists>t. command_slot cmd = Some t \<and> t \<le> net_top s \<and> list_all (\<lambda>r. reply_slot r < t) (net_replies s))"

lemma ref_runtime_sel:
  "oneshot ref_runtime = net_oneshot" "send ref_runtime = net_send" "try_send ref_runtime = net_try_send"
  "send_timeout ref_runtime = net_send_timeout"
  "recv_write ref_runtime t s = (find_write t (net_replies (net_run s)), net_run s)"
  "join_writer ref_runtime s = (True, net_run s)"
  by (simp_all add: ref_runtime_def Let_def)

lemma find_write_new: "list_all (\<lambda>r. reply_slot r < t) rs \<Longrightarrow> find_write t (rs @ [WriteReply t x]) = Some x"
  by (induction t rs rule: find_write.induct) auto

lemma net_push_queued:
  assumes "net_ready s w t"
  shows "net_queued (net_push (Write r t) s) w (Write r t)"
  using assms
  by (auto simp: net_ready_def net_calm_def net_queued_def net_push_def net_top_def List.map_filter_def less_Suc_eq_le)

lemma net_send_ready:
  assumes "net_ready s w t"
  shows "net_send cmd s = (True, net_push cmd s)" "net_try_send cmd s = (Sent, net_push cmd s)"
    "net_send_timeout ms cmd s = (Some True, net_push cmd s)"
  using assms by (simp_all add: net_ready_def net_calm_def net_send_def net_try_send_def net_send_timeout_def)

interpretation ref_lone: lone_caller ref_env ref_runtime net_calm net_ready net_queued
proof (unfold_locales, goal_cases)
  case (1 n)
  then show ?case by (simp add: ref_runtime_def)
next
  case (2 n w)
  then show ?case by (simp add: ref_runtime_def net_calm_def)
next
  case (3 s w t s')
  then show ?case by (auto simp: ref_runtime_sel net_oneshot_def net_ready_def net_top_def)
next
  case (4 s w t r ok s')
  then show ?case using net_send_ready(1) [of s w t "Write r t"] net_push_queued [of s w t r] by (simp add: ref_runtime_sel)
next
  case (5 s w t r x s')
  then show ?case using net_send_ready(2) [of s w t "Write r t"] net_push_queued [of s w t r] by (simp add: ref_runtime_sel)
next
  case (6 s w t ms r y s')
  then show ?case using net_send_ready(3) [of s w t ms "Write r t"] net_push_queued [of s w t r] by (simp add: ref_runtime_sel)
next
  case (7 s w r t resp w' x s')
  obtain resp1 w1 where a: "writer_apply ref_env w r = (resp1, w1)" by fastforce
  with 7(2) have eq: "resp1 = resp" "w1 = w'" by (simp_all add: run_step_lone)
  have s: "net_writer s = w" "net_queue s = [Write r t]" "\<not> net_closed s" "0 < net_cap s" "t \<le> net_top s"
    "list_all (\<lambda>r. reply_slot r < t) (net_replies s)"
    using 7(1) by (auto simp: net_queued_def)
  have run: "net_run s = s\<lparr>net_writer := w', net_queue := [], net_replies := net_replies s @ [WriteReply t resp],
      net_closed := False\<rparr>"
    using s(1-3) a eq by (simp add: net_run_def apply_and_reply_def)
  have "list_all (\<lambda>r. reply_slot r \<le> net_top s) (net_replies s)"
    using s(5,6) by (auto simp: list_all_iff)
  then show ?case
    using 7(3) s(4,5) find_write_new [OF s(6)] unfolding ref_runtime_sel run by (auto simp: net_calm_def net_top_def)
next
  case (8 s w)
  then show ?case by (simp add: ref_runtime_def net_calm_def)
next
  case (9 s w ok s')
  then show ?case by (simp add: ref_runtime_sel)
qed


section \<open>From opening to shutdown\<close>




end
