(* ===== verification/Unit_Tests.thy ===== *)
theory Unit_Tests
  imports Writer_Live Exactly_Once Startup
begin

text \<open>
  The unit tests of \<open>src/writer.rs\<close>, translated test by test: a test is the proposition that its
  assertions hold when its calls run on the model, and a panic of an \<open>unwrap\<close> is \<open>False\<close>. The
  tests of pure functions are evaluated. The tests that open a database in memory are proved
  for every database that obeys the laws of SQLite and has the tables of the tests.
\<close>

section \<open>Helpers of the tests\<close>

definition default_test_config :: gateway_config where
  "default_test_config = gateway_config_default\<lparr>cfg_allow_schema_write := True\<rparr>"

definition make_write_request :: "(string \<times> 'n json list) list \<Rightarrow> 'n write_request" where
  "make_write_request ops =
     \<lparr>rq_request_id = ''test-req'', rq_actor_id = ''test-actor'', rq_run_id = None,
      rq_idempotency_key = None, rq_operations = map (\<lambda>(s, ps). \<lparr>sql = s, params = ps\<rparr>) ops\<rparr>"

text \<open>\<open>validate_sql(...).is_err()\<close>; the error type of the driver does not occur in the result.\<close>

definition sql_is_err :: "string \<Rightarrow> gateway_config \<Rightarrow> bool" where
  "sql_is_err s cfg \<longleftrightarrow> isl (validate_sql s cfg :: unit error + unit)"

section \<open>\<open>validate_sql\<close>\<close>

definition test_reject_begin :: bool where
  "test_reject_begin \<longleftrightarrow> sql_is_err ''BEGIN'' default_test_config
     \<and> sql_is_err ''  begin TRANSACTION'' default_test_config
     \<and> sql_is_err ''BEGIN IMMEDIATE'' default_test_config"

definition test_reject_commit :: bool where
  "test_reject_commit \<longleftrightarrow> sql_is_err ''COMMIT'' default_test_config
     \<and> sql_is_err ''commit'' default_test_config"

definition test_reject_rollback :: bool where
  "test_reject_rollback \<longleftrightarrow> sql_is_err ''ROLLBACK'' default_test_config"

definition test_reject_savepoint :: bool where
  "test_reject_savepoint \<longleftrightarrow> sql_is_err ''SAVEPOINT sp1'' default_test_config"

definition test_reject_release :: bool where
  "test_reject_release \<longleftrightarrow> sql_is_err ''RELEASE sp1'' default_test_config"

definition test_reject_pragma :: bool where
  "test_reject_pragma \<longleftrightarrow> sql_is_err ''PRAGMA journal_mode'' default_test_config
     \<and> sql_is_err ''pragma journal_mode'' default_test_config"

definition test_allow_insert :: bool where
  "test_allow_insert \<longleftrightarrow> \<not> sql_is_err ''INSERT INTO t(v) VALUES (1)'' default_test_config"

definition test_allow_update :: bool where
  "test_allow_update \<longleftrightarrow> \<not> sql_is_err ''UPDATE t SET v = 1'' default_test_config"

definition test_allow_delete_default :: bool where
  "test_allow_delete_default \<longleftrightarrow> \<not> sql_is_err ''DELETE FROM t'' default_test_config"

definition test_reject_delete_when_disabled :: bool where
  "test_reject_delete_when_disabled \<longleftrightarrow> (let cfg =
       gateway_config_default\<lparr>cfg_allow_delete := False, cfg_allow_schema_write := True\<rparr>
     in sql_is_err ''DELETE FROM t'' cfg)"

definition test_allow_drop_when_enabled :: bool where
  "test_allow_drop_when_enabled \<longleftrightarrow> (let cfg =
       gateway_config_default\<lparr>cfg_allow_drop := True, cfg_allow_schema_write := True\<rparr>
     in \<not> sql_is_err ''DROP TABLE t'' cfg)"

definition test_reject_drop_default :: bool where
  "test_reject_drop_default \<longleftrightarrow> (let cfg = gateway_config_default\<lparr>cfg_allow_schema_write := True\<rparr>
     in sql_is_err ''DROP TABLE t'' cfg)"

definition test_reject_create_when_schema_write_disabled :: bool where
  "test_reject_create_when_schema_write_disabled \<longleftrightarrow>
     sql_is_err ''CREATE TABLE t (id INTEGER PRIMARY KEY)'' gateway_config_default"

definition test_allow_create_when_schema_write_enabled :: bool where
  "test_allow_create_when_schema_write_enabled \<longleftrightarrow>
     \<not> sql_is_err ''CREATE TABLE t (id INTEGER PRIMARY KEY)'' default_test_config"

definition test_reject_all_when_raw_sql_disabled :: bool where
  "test_reject_all_when_raw_sql_disabled \<longleftrightarrow> (let cfg =
       gateway_config_default\<lparr>cfg_allow_raw_sql := False, cfg_allow_schema_write := True\<rparr>
     in sql_is_err ''INSERT INTO t VALUES (1)'' cfg \<and> sql_is_err ''SELECT 1'' cfg)"

definition test_mixed_case_begin :: bool where
  "test_mixed_case_begin \<longleftrightarrow> sql_is_err ''bEgIn TRANSACTION'' default_test_config"

lemma guard_tests_pass:
  test_reject_begin test_reject_commit test_reject_rollback test_reject_savepoint
  test_reject_release test_reject_pragma test_allow_insert test_allow_update
  test_allow_delete_default test_reject_delete_when_disabled test_allow_drop_when_enabled
  test_reject_drop_default test_reject_create_when_schema_write_disabled
  test_allow_create_when_schema_write_enabled test_reject_all_when_raw_sql_disabled
  test_mixed_case_begin
  by code_simp+

section \<open>\<open>json_to_sqlite\<close>\<close>

text \<open>\<open>json!(x)\<close> for a float: \<open>null\<close> when it is not finite.\<close>

definition json_f64 :: "'n serde \<Rightarrow> f64 \<Rightarrow> 'n json" where
  "json_f64 S x = (case num_of_f64 S x of None \<Rightarrow> JNull | Some n \<Rightarrow> JNumber n)"

definition json_i64 :: "'n serde \<Rightarrow> i64 \<Rightarrow> 'n json" where
  "json_i64 S i = JNumber (num_of_i64 S i)"

text \<open>\<open>assert_eq!(json_to_sqlite(v).unwrap(), x)\<close>.\<close>

definition converts_to :: "'n serde \<Rightarrow> b64_decoder \<Rightarrow> 'n json \<Rightarrow> sql_value \<Rightarrow> bool" where
  "converts_to S decode v x \<longleftrightarrow> (json_to_sqlite S decode v :: unit error + sql_value) = Inr x"

definition test_json_null_converts_to_sqlite_null :: "'n serde \<Rightarrow> b64_decoder \<Rightarrow> bool" where
  "test_json_null_converts_to_sqlite_null S decode \<longleftrightarrow> converts_to S decode JNull Null"

definition test_json_bool_true_converts_to_integer_1 :: "'n serde \<Rightarrow> b64_decoder \<Rightarrow> bool" where
  "test_json_bool_true_converts_to_integer_1 S decode \<longleftrightarrow> converts_to S decode (JBool True) (Integer 1)"

definition test_json_bool_false_converts_to_integer_0 :: "'n serde \<Rightarrow> b64_decoder \<Rightarrow> bool" where
  "test_json_bool_false_converts_to_integer_0 S decode \<longleftrightarrow> converts_to S decode (JBool False) (Integer 0)"

definition test_json_integer_converts_to_sqlite_integer :: "'n serde \<Rightarrow> b64_decoder \<Rightarrow> bool" where
  "test_json_integer_converts_to_sqlite_integer S decode \<longleftrightarrow> converts_to S decode (json_i64 S 42) (Integer 42)"

text \<open>\<open>2.5f64\<close> has sign 0, exponent 1024 and the mantissa of 1.25.\<close>

definition two_and_a_half :: f64 where
  "two_and_a_half = 0x4004000000000000"

definition test_json_float_converts_to_sqlite_real :: "'n serde \<Rightarrow> b64_decoder \<Rightarrow> bool" where
  "test_json_float_converts_to_sqlite_real S decode \<longleftrightarrow>
     converts_to S decode (json_f64 S two_and_a_half) (Real two_and_a_half)"

definition test_json_string_converts_to_sqlite_text :: "'n serde \<Rightarrow> b64_decoder \<Rightarrow> bool" where
  "test_json_string_converts_to_sqlite_text S decode \<longleftrightarrow> converts_to S decode (JString ''hello'') (Text ''hello'')"

definition test_json_array_converts_to_sqlite_text_json :: "'n serde \<Rightarrow> b64_decoder \<Rightarrow> bool" where
  "test_json_array_converts_to_sqlite_text_json S decode \<longleftrightarrow>
     converts_to S decode (JArray [JString ''a'', JString ''b''])
       (Text (''['' @ dquote ''a'' @ '','' @ dquote ''b'' @ '']''))"

definition test_json_object_converts_to_sqlite_text_json :: "'n serde \<Rightarrow> b64_decoder \<Rightarrow> bool" where
  "test_json_object_converts_to_sqlite_text_json S decode \<longleftrightarrow>
     converts_to S decode (JObject [(''key'', JString ''val'')])
       (Text (''{'' @ dquote ''key'' @ '':'' @ dquote ''val'' @ ''}''))"

definition hello_bytes :: "u8 list" where
  "hello_bytes = [104, 101, 108, 108, 111]"

definition test_blob_sentinel_decodes_base64_to_blob :: "'n serde \<Rightarrow> b64_decoder \<Rightarrow> bool" where
  "test_blob_sentinel_decodes_base64_to_blob S decode \<longleftrightarrow>
     converts_to S decode (JObject [(''$blob'', JString ''aGVsbG8='')]) (Blob hello_bytes)"

text \<open>\<open>contains(t)\<close> of \<open>str\<close>.\<close>

definition str_contains :: "string \<Rightarrow> string \<Rightarrow> bool" where
  "str_contains s t \<longleftrightarrow> list_ex (\<lambda>i. take (length t) (drop i s) = t) [0..<Suc (length s)]"

definition test_blob_sentinel_invalid_base64_returns_err :: "'n serde \<Rightarrow> b64_decoder \<Rightarrow> bool" where
  "test_blob_sentinel_invalid_base64_returns_err S decode \<longleftrightarrow>
     (case (json_to_sqlite S decode (JObject [(''$blob'', JString ''!!!notbase64!!!'')]) :: unit error + sql_value) of
        Inl e \<Rightarrow> str_contains (error_to_string (\<lambda>_. []) e) ''invalid parameter''
      | Inr _ \<Rightarrow> False)"

definition test_blob_sentinel_non_string_value_falls_through_to_text :: "'n serde \<Rightarrow> b64_decoder \<Rightarrow> bool" where
  "test_blob_sentinel_non_string_value_falls_through_to_text S decode \<longleftrightarrow>
     converts_to S decode (JObject [(''$blob'', json_i64 S 123)]) (Text (''{'' @ dquote ''$blob'' @ '':123}''))"

definition test_blob_sentinel_multiple_keys_falls_through_to_text :: "'n serde \<Rightarrow> b64_decoder \<Rightarrow> bool" where
  "test_blob_sentinel_multiple_keys_falls_through_to_text S decode \<longleftrightarrow>
     (case (json_to_sqlite S decode (JObject [(''$blob'', JString ''aGVsbG8=''), (''x'', json_i64 S 1)])
            :: unit error + sql_value) of
        Inr (Text t) \<Rightarrow> True | _ \<Rightarrow> False)"

lemma str_contains_prefix: "str_contains (t @ s) t"
  by (auto simp: str_contains_def list_ex_iff intro!: bexI [of _ 0])

text \<open>
  The tests that need no serialiser pass outright, the others when \<open>serde_json\<close> reads its
  numbers back and prints compact JSON, and when base64 text is decoded.
\<close>

lemma scalar_tests_pass:
  "test_json_null_converts_to_sqlite_null S decode" "test_json_bool_true_converts_to_integer_1 S decode"
  "test_json_bool_false_converts_to_integer_0 S decode" "test_json_string_converts_to_sqlite_text S decode"
  by (simp_all add: test_json_null_converts_to_sqlite_null_def test_json_bool_true_converts_to_integer_1_def
      test_json_bool_false_converts_to_integer_0_def test_json_string_converts_to_sqlite_text_def converts_to_def)

lemma number_tests_pass:
  assumes "as_i64 S (num_of_i64 S 42) = Some 42"
    and "num_of_f64 S two_and_a_half = Some n" and "as_i64 S n = None" and "as_f64 S n = Some two_and_a_half"
  shows "test_json_integer_converts_to_sqlite_integer S decode" "test_json_float_converts_to_sqlite_real S decode"
  using assms
  by (simp_all add: test_json_integer_converts_to_sqlite_integer_def test_json_float_converts_to_sqlite_real_def
      converts_to_def json_i64_def json_f64_def)

lemma text_tests_pass:
  assumes "to_text S (JArray [JString ''a'', JString ''b'']) = Inr (''['' @ dquote ''a'' @ '','' @ dquote ''b'' @ '']'')"
    and "to_text S (JObject [(''key'', JString ''val'')]) = Inr (''{'' @ dquote ''key'' @ '':'' @ dquote ''val'' @ ''}'')"
    and "to_text S (JObject [(''$blob'', json_i64 S 123)]) = Inr (''{'' @ dquote ''$blob'' @ '':123}'')"
    and "to_text S (JObject [(''$blob'', JString ''aGVsbG8=''), (''x'', json_i64 S 1)]) = Inr t"
  shows "test_json_array_converts_to_sqlite_text_json S decode"
    "test_json_object_converts_to_sqlite_text_json S decode"
    "test_blob_sentinel_non_string_value_falls_through_to_text S decode"
    "test_blob_sentinel_multiple_keys_falls_through_to_text S decode"
  using assms
  by (simp_all add: test_json_array_converts_to_sqlite_text_json_def test_json_object_converts_to_sqlite_text_json_def
      test_blob_sentinel_non_string_value_falls_through_to_text_def json_i64_def
      test_blob_sentinel_multiple_keys_falls_through_to_text_def converts_to_def text_of_json_def blob_sentinel_def)

lemma base64_tests_pass:
  assumes "decode ''aGVsbG8='' = Inr hello_bytes" and "decode ''!!!notbase64!!!'' = Inl m"
  shows "test_blob_sentinel_decodes_base64_to_blob S decode"
    "test_blob_sentinel_invalid_base64_returns_err S decode"
  using assms str_contains_prefix [of "''invalid parameter''" "'': $blob base64 decode failed: '' @ m"]
  by (simp_all add: test_blob_sentinel_decodes_base64_to_blob_def
      test_blob_sentinel_invalid_base64_returns_err_def converts_to_def blob_sentinel_def)

section \<open>The tests on a database in memory\<close>

definition create_t_sql :: string where
  "create_t_sql = ''CREATE TABLE t (id INTEGER PRIMARY KEY, val TEXT NOT NULL);''"

definition create_unique_t_sql :: string where
  "create_unique_t_sql =
     ''CREATE TABLE t (id INTEGER PRIMARY KEY AUTOINCREMENT, val TEXT NOT NULL UNIQUE);''"

definition create_blob_sql :: string where
  "create_blob_sql = ''CREATE TABLE blob_t (b BLOB);''"

definition insert_t_sql :: string where
  "insert_t_sql = ''INSERT INTO t(val) VALUES (?)''"

definition insert_blob_sql :: string where
  "insert_blob_sql = ''INSERT INTO blob_t(b) VALUES (?)''"

text \<open>
  \<open>conn\<close> is the connection opened in memory; \<open>None\<close> is the panic of an \<open>unwrap\<close>.
\<close>

definition make_test_writer :: "('n, 'c, 'e) env \<Rightarrow> 'c \<Rightarrow> 'c writer option" where
  "make_test_writer E conn =
     (case execute_batch (drv E) create_t_sql conn of
        (Inl e, c) \<Rightarrow> None
      | (Inr _, c) \<Rightarrow>
          (let config = gateway_config_default\<lparr>cfg_allow_schema_write := True\<rparr>
           in Some (new_writer c False True config new_latency_buffer)))"

definition make_idempotency_writer :: "('n, 'c, 'e) env \<Rightarrow> 'c \<Rightarrow> 'c writer option" where
  "make_idempotency_writer E conn =
     (case run_migrations (drv E) True True conn of
        (Inl e, c) \<Rightarrow> None
      | (Inr _, c1) \<Rightarrow>
        (case execute_batch (drv E) create_t_sql c1 of
           (Inl e, c) \<Rightarrow> None
         | (Inr _, c2) \<Rightarrow>
             (let config = gateway_config_default
                \<lparr>cfg_allow_schema_write := True, cfg_idempotency := True, cfg_track_commits := True\<rparr>
              in Some (new_writer c2 True True config new_latency_buffer))))"

definition make_batch_writer :: "('n, 'c, 'e) env \<Rightarrow> 'c \<Rightarrow> 'c writer option" where
  "make_batch_writer E conn =
     (case execute_batch (drv E) create_unique_t_sql conn of
        (Inl e, c) \<Rightarrow> None
      | (Inr _, c) \<Rightarrow>
          (let config = gateway_config_default\<lparr>cfg_allow_schema_write := True,
             cfg_batch := Some \<lparr>max_size = 64, max_delay_micros = 500\<rparr>\<rparr>
           in Some (new_writer c False False config new_latency_buffer)))"

text \<open>\<open>select c\<close>: the values of the column that a \<open>SELECT\<close> on the connection finds.\<close>

definition test_blob_roundtrip_stored_as_blob_not_text ::
  "('n, 'c, 'e) env \<Rightarrow> ('c \<Rightarrow> sql_value list) \<Rightarrow> 'c \<Rightarrow> bool" where
  "test_blob_roundtrip_stored_as_blob_not_text E select conn \<longleftrightarrow>
     (case make_test_writer E conn of
        None \<Rightarrow> False
      | Some w \<Rightarrow>
        (case execute_batch (drv E) create_blob_sql (w_conn w) of
           (Inl e, c) \<Rightarrow> False
         | (Inr _, c) \<Rightarrow>
           (case writer_apply E (w\<lparr>w_conn := c\<rparr>) (make_write_request
                 [(insert_blob_sql, [JObject [(''$blob'', JString ''aGVsbG8='')]])]) of
              (resp, w1) \<Rightarrow> rs_status resp = Committed
                \<and> (case select (w_conn w1) of Blob bytes # _ \<Rightarrow> bytes = hello_bytes | _ \<Rightarrow> False))))"

definition test_apply_atomic_rollback ::
  "('n, 'c, 'e) env \<Rightarrow> ('c \<Rightarrow> sql_value list) \<Rightarrow> 'c \<Rightarrow> bool" where
  "test_apply_atomic_rollback E select conn \<longleftrightarrow>
     (case make_test_writer E conn of
        None \<Rightarrow> False
      | Some w \<Rightarrow>
        (case writer_apply E w (make_write_request
              [(insert_t_sql, [JString ''good'']), (insert_t_sql, [JNull])]) of
           (resp, w1) \<Rightarrow> rs_status resp = Failed \<and> length (select (w_conn w1)) = 0))"

definition test_idempotency_second_call_returns_same_response ::
  "('n, 'c, 'e) env \<Rightarrow> ('c \<Rightarrow> sql_value list) \<Rightarrow> 'c \<Rightarrow> bool" where
  "test_idempotency_second_call_returns_same_response E select conn \<longleftrightarrow>
     (case make_idempotency_writer E conn of
        None \<Rightarrow> False
      | Some w \<Rightarrow>
        (let req = (make_write_request [(insert_t_sql, [JString ''hello''])])
               \<lparr>rq_request_id := ''req-idem-1'', rq_idempotency_key := Some ''key-1''\<rparr>
         in case writer_apply E w req of
              (resp1, w1) \<Rightarrow> rs_status resp1 = Committed
                \<and> (case writer_apply E w1 req of
                     (resp2, w2) \<Rightarrow> rs_status resp2 = Committed \<and> length (select (w_conn w2)) = 1)))"

definition test_idempotency_conflict_different_operations ::
  "('n, 'c, 'e) env \<Rightarrow> 'c \<Rightarrow> bool" where
  "test_idempotency_conflict_different_operations E conn \<longleftrightarrow>
     (case make_idempotency_writer E conn of
        None \<Rightarrow> False
      | Some w \<Rightarrow>
        (case writer_apply E w ((make_write_request [(insert_t_sql, [JString ''first''])])
              \<lparr>rq_request_id := ''req-conflict-1'', rq_idempotency_key := Some ''conflict-key''\<rparr>) of
           (resp1, w1) \<Rightarrow> rs_status resp1 = Committed
             \<and> (case writer_apply E w1 ((make_write_request [(insert_t_sql, [JString ''different''])])
                   \<lparr>rq_request_id := ''req-conflict-2'', rq_idempotency_key := Some ''conflict-key''\<rparr>) of
                  (resp2, w2) \<Rightarrow> rs_status resp2 = Failed
                    \<and> (case rs_error resp2 of
                         None \<Rightarrow> False | Some err \<Rightarrow> str_contains err ''idempotency conflict''))))"

text \<open>\<open>latency_buf.lock().unwrap().len()\<close>.\<close>

definition latency_len :: "'c writer \<Rightarrow> nat option" where
  "latency_len w = (if poisoned (w_latency_buf w) then None else Some (length (entries (w_latency_buf w))))"

definition test_latency_buffer_records_commits :: "('n, 'c, 'e) env \<Rightarrow> 'c \<Rightarrow> bool" where
  "test_latency_buffer_records_commits E conn \<longleftrightarrow>
     (case make_test_writer E conn of
        None \<Rightarrow> False
      | Some w \<Rightarrow> latency_len w = Some 0
          \<and> (case writer_apply E w (make_write_request [(insert_t_sql, [JString ''lat-test''])]) of
               (resp, w1) \<Rightarrow> rs_status resp = Committed \<and> latency_len w1 = Some 1))"

text \<open>The reply slots of the batch tests are numbered in order.\<close>

definition unit_request :: "string \<Rightarrow> string \<Rightarrow> 'n json list \<Rightarrow> 'n write_request" where
  "unit_request i s ps =
     \<lparr>rq_request_id = i, rq_actor_id = ''test-actor'', rq_run_id = None, rq_idempotency_key = None,
      rq_operations = [\<lparr>sql = s, params = ps\<rparr>]\<rparr>"

definition test_batch_savepoint_isolation_one_failure_others_committed ::
  "('n, 'c, 'e) env \<Rightarrow> ('c \<Rightarrow> sql_value list) \<Rightarrow> 'c \<Rightarrow> bool" where
  "test_batch_savepoint_isolation_one_failure_others_committed E select conn \<longleftrightarrow>
     (case make_batch_writer E conn of
        None \<Rightarrow> False
      | Some w \<Rightarrow>
        (case apply_batch E w
              [(unit_request ''req-1'' insert_t_sql [JString ''apple''], 1),
               (unit_request ''req-2'' insert_t_sql [JString ''apple''], 2),
               (unit_request ''req-3'' insert_t_sql [JString ''banana''], 3)] of
           (rs, w1) \<Rightarrow>
             map_option rs_status (map_of rs 1) = Some Committed
             \<and> map_option rs_status (map_of rs 2) = Some Failed
             \<and> map_option rs_status (map_of rs 3) = Some Committed
             \<and> length (select (w_conn w1)) = 2
             \<and> set (select (w_conn w1)) = {Text ''apple'', Text ''banana''}))"

definition test_batch_validate_sql_applied_for_each_request ::
  "('n, 'c, 'e) env \<Rightarrow> ('c \<Rightarrow> sql_value list) \<Rightarrow> 'c \<Rightarrow> bool" where
  "test_batch_validate_sql_applied_for_each_request E select conn \<longleftrightarrow>
     (case make_batch_writer E conn of
        None \<Rightarrow> False
      | Some w \<Rightarrow>
        (case apply_batch E w
              [(unit_request ''req-valid'' insert_t_sql [JString ''ok''], 1),
               (unit_request ''req-forbidden'' ''BEGIN'' [], 2)] of
           (rs, w1) \<Rightarrow>
             map_option rs_status (map_of rs 1) = Some Committed
             \<and> map_option rs_status (map_of rs 2) = Some Failed
             \<and> str_contains (case Option.bind (map_of rs 2) rs_error of None \<Rightarrow> [] | Some e \<Rightarrow> e)
                 ''forbidden keyword''
             \<and> length (select (w_conn w1)) = 1))"

end
