(* ===== verification/Gateway_Tests.thy ===== *)
theory Gateway_Tests
  imports Unit_Tests Gateway
begin

text \<open>
  The unit tests of \<open>src/inprocess.rs\<close>, translated test by test over the driver and the runtime:
  a test is the proposition that its assertions hold; an \<open>unwrap\<close> of an error is \<open>False\<close>.
\<close>

section \<open>Helpers of the tests\<close>

text \<open>\<open>...await.unwrap()\<close>, \<open>open_with_config(...).unwrap()\<close> and \<open>gw.shutdown().await.unwrap()\<close>.\<close>

definition awaited :: "('e error + 'a) \<times> 's \<Rightarrow> ('a \<Rightarrow> 's \<Rightarrow> bool) \<Rightarrow> bool" where
  "awaited r body \<longleftrightarrow> (case r of (Inr x, s) \<Rightarrow> body x s | (Inl e, s) \<Rightarrow> False)"

definition opened :: "('e error + gateway \<times> 's) option \<Rightarrow> (gateway \<Rightarrow> 's \<Rightarrow> bool) \<Rightarrow> bool" where
  "opened r body \<longleftrightarrow> (case r of Some (Inr (gw, s)) \<Rightarrow> body gw s | _ \<Rightarrow> False)"

definition shuts_down :: "('n, 'c, 'e, 's) runtime \<Rightarrow> gateway \<Rightarrow> 's \<Rightarrow> bool" where
  "shuts_down rt gw s \<longleftrightarrow> is_ok (fst (shutdown rt gw s))"

definition make_request :: "string \<Rightarrow> 'n sql_operation list \<Rightarrow> 'n write_request" where
  "make_request i ops =
     \<lparr>rq_request_id = i, rq_actor_id = ''test-actor'', rq_run_id = None, rq_idempotency_key = None,
      rq_operations = ops\<rparr>"

definition sql_op :: "string \<Rightarrow> 'n json list \<Rightarrow> 'n sql_operation" where
  "sql_op s ps = \<lparr>sql = s, params = ps\<rparr>"

definition memory_config :: "bool \<Rightarrow> gateway_config" where
  "memory_config track_commits =
     (gateway_config_new '':memory:'')\<lparr>cfg_track_commits := track_commits, cfg_allow_schema_write := True\<rparr>"

definition open_memory_gateway ::
  "('n, 'c, 'e) env \<Rightarrow> ('n, 'c, 'e, 's) runtime \<Rightarrow> bool \<Rightarrow> ('e error + gateway \<times> 's) option" where
  "open_memory_gateway E rt track_commits = open_with_config E rt (memory_config track_commits)"

definition create_events_sql :: string where
  "create_events_sql = ''CREATE TABLE test_events (id INTEGER PRIMARY KEY, val TEXT NOT NULL)''"

definition insert_events_sql :: string where
  "insert_events_sql = ''INSERT INTO test_events(val) VALUES (?)''"

definition create_test_table ::
  "('n, 'c, 'e, 's) runtime \<Rightarrow> gateway_handle \<Rightarrow> 's \<Rightarrow> ('s \<Rightarrow> bool) \<Rightarrow> bool" where
  "create_test_table rt h s rest \<longleftrightarrow>
     awaited (handle_execute rt h (make_request ''setup'' [sql_op create_events_sql []]) s)
       (\<lambda>resp s1. rs_status resp = Committed \<and> rest s1)"

text \<open>\<open>expect("...").contains(t)\<close>.\<close>

definition error_contains :: "write_response \<Rightarrow> string \<Rightarrow> bool" where
  "error_contains resp t \<longleftrightarrow> (case rs_error resp of None \<Rightarrow> False | Some err \<Rightarrow> str_contains err t)"

section \<open>The tests\<close>

definition test_single_insert_committed_with_commit_seq ::
  "('n, 'c, 'e) env \<Rightarrow> ('n, 'c, 'e, 's) runtime \<Rightarrow> bool" where
  "test_single_insert_committed_with_commit_seq E rt \<longleftrightarrow>
     opened (open_memory_gateway E rt True) (\<lambda>gw s0.
       create_test_table rt (handle gw) s0 (\<lambda>s1.
         awaited (handle_execute rt (handle gw)
             (make_request ''req-1'' [sql_op insert_events_sql [JString ''hello'']]) s1)
           (\<lambda>resp s2. rs_status resp = Committed \<and> rs_commit_seq resp \<noteq> None \<and> rs_error resp = None
              \<and> shuts_down rt gw s2)))"

definition create_strict_sql :: string where
  "create_strict_sql = ''CREATE TABLE strict_events (id INTEGER PRIMARY KEY, val TEXT NOT NULL UNIQUE)''"

definition insert_strict_sql :: string where
  "insert_strict_sql = ''INSERT INTO strict_events(val) VALUES (?)''"

definition probe_strict_sql :: string where
  "probe_strict_sql = ''INSERT INTO strict_events(val) VALUES ('' @ squote ''good'' @ '')''"

definition test_atomic_rollback_on_constraint_violation ::
  "('n, 'c, 'e) env \<Rightarrow> ('n, 'c, 'e, 's) runtime \<Rightarrow> bool" where
  "test_atomic_rollback_on_constraint_violation E rt \<longleftrightarrow>
     opened (open_memory_gateway E rt True) (\<lambda>gw s0.
       awaited (handle_execute rt (handle gw) (make_request ''setup'' [sql_op create_strict_sql []]) s0) (\<lambda>_ s1.
       awaited (handle_execute rt (handle gw) (make_request ''req-atomic''
           [sql_op insert_strict_sql [JString ''good''], sql_op insert_strict_sql [JNull]]) s1) (\<lambda>resp s2.
         rs_status resp = Failed \<and> rs_commit_seq resp = None \<and> rs_error resp \<noteq> None
         \<and> awaited (handle_execute rt (handle gw) (make_request ''probe'' [sql_op probe_strict_sql []]) s2)
             (\<lambda>probe_resp s3. rs_status probe_resp = Committed \<and> shuts_down rt gw s3))))"

definition test_sql_constraint_begin_rejected ::
  "('n, 'c, 'e) env \<Rightarrow> ('n, 'c, 'e, 's) runtime \<Rightarrow> bool" where
  "test_sql_constraint_begin_rejected E rt \<longleftrightarrow>
     opened (open_memory_gateway E rt True) (\<lambda>gw s0.
       awaited (handle_execute rt (handle gw) (make_request ''req-begin'' [sql_op ''BEGIN'' []]) s0) (\<lambda>resp s1.
         rs_status resp = Failed \<and> error_contains resp ''sql rejected'' \<and> shuts_down rt gw s1))"

definition test_sql_constraint_pragma_rejected ::
  "('n, 'c, 'e) env \<Rightarrow> ('n, 'c, 'e, 's) runtime \<Rightarrow> bool" where
  "test_sql_constraint_pragma_rejected E rt \<longleftrightarrow>
     opened (open_memory_gateway E rt True) (\<lambda>gw s0.
       awaited (handle_execute rt (handle gw)
           (make_request ''req-pragma'' [sql_op ''PRAGMA journal_mode'' []]) s0) (\<lambda>resp s1.
         rs_status resp = Failed \<and> error_contains resp ''sql rejected'' \<and> shuts_down rt gw s1))"

definition two_inserts_sql :: string where
  "two_inserts_sql = ''INSERT INTO test_events(val) VALUES ('' @ squote ''a'' @ ''); ''
     @ ''INSERT INTO test_events(val) VALUES ('' @ squote ''b'' @ '')''"

definition test_multiple_statements_rejected ::
  "('n, 'c, 'e) env \<Rightarrow> ('n, 'c, 'e, 's) runtime \<Rightarrow> bool" where
  "test_multiple_statements_rejected E rt \<longleftrightarrow>
     opened (open_memory_gateway E rt True) (\<lambda>gw s0.
       create_test_table rt (handle gw) s0 (\<lambda>s1.
         awaited (handle_execute rt (handle gw) (make_request ''req-multi'' [sql_op two_inserts_sql []]) s1) (\<lambda>resp s2.
           rs_status resp = Failed \<and> rs_error resp \<noteq> None \<and> shuts_down rt gw s2)))"

definition probe_commits_sql :: string where
  "probe_commits_sql = ''INSERT INTO squeuelite_commits(request_id, actor_id) VALUES (''
     @ squote ''x'' @ '', '' @ squote ''y'' @ '')''"

definition test_track_commits_false_no_commit_seq ::
  "('n, 'c, 'e) env \<Rightarrow> ('n, 'c, 'e, 's) runtime \<Rightarrow> bool" where
  "test_track_commits_false_no_commit_seq E rt \<longleftrightarrow>
     opened (open_memory_gateway E rt False) (\<lambda>gw s0.
       create_test_table rt (handle gw) s0 (\<lambda>s1.
         awaited (handle_execute rt (handle gw)
             (make_request ''req-notrack'' [sql_op insert_events_sql [JString ''data'']]) s1) (\<lambda>resp s2.
           rs_status resp = Committed \<and> rs_commit_seq resp = None
           \<and> awaited (handle_execute rt (handle gw)
                (make_request ''table-check'' [sql_op probe_commits_sql []]) s2)
                (\<lambda>check_resp s3. rs_status check_resp = Failed \<and> shuts_down rt gw s3))))"

definition create_params_sql :: string where
  "create_params_sql = ''CREATE TABLE param_test ('' @ nl
     @ ''                    id      INTEGER PRIMARY KEY,'' @ nl
     @ ''                    n       ANY,'' @ nl
     @ ''                    b       INTEGER,'' @ nl
     @ ''                    i       INTEGER,'' @ nl
     @ ''                    f       REAL,'' @ nl
     @ ''                    s       TEXT,'' @ nl
     @ ''                    arr     TEXT'' @ nl
     @ ''                )''"

definition insert_params_sql :: string where
  "insert_params_sql = ''INSERT INTO param_test(n, b, i, f, s, arr) VALUES (?, ?, ?, ?, ?, ?)''"

definition test_params_conversion ::
  "('n, 'c, 'e) env \<Rightarrow> ('n, 'c, 'e, 's) runtime \<Rightarrow> bool" where
  "test_params_conversion E rt \<longleftrightarrow>
     opened (open_memory_gateway E rt False) (\<lambda>gw s0.
       awaited (handle_execute rt (handle gw) (make_request ''setup'' [sql_op create_params_sql []]) s0) (\<lambda>_ s1.
       awaited (handle_execute rt (handle gw) (make_request ''req-params'' [sql_op insert_params_sql
           [JNull, JBool True, json_i64 (serde E) 42, json_f64 (serde E) two_and_a_half, JString ''hello'',
            JArray [JString ''a'', JString ''b'']]]) s1) (\<lambda>resp s2.
         rs_status resp = Committed \<and> shuts_down rt gw s2)))"

definition test_schema_write_rejected_by_default ::
  "('n, 'c, 'e) env \<Rightarrow> ('n, 'c, 'e, 's) runtime \<Rightarrow> bool" where
  "test_schema_write_rejected_by_default E rt \<longleftrightarrow>
     (let config = gateway_config_new '':memory:'' in
      opened (open_with_config E rt config) (\<lambda>gw s0.
        awaited (handle_execute rt (handle gw) (make_request ''req-create''
            [sql_op ''CREATE TABLE should_fail (id INTEGER PRIMARY KEY)'' []]) s0) (\<lambda>resp s1.
          rs_status resp = Failed \<and> error_contains resp ''sql rejected'' \<and> shuts_down rt gw s1)))"

definition create_drop_sql :: string where
  "create_drop_sql = ''CREATE TABLE drop_test (id INTEGER PRIMARY KEY)''"

definition test_drop_rejected_by_default ::
  "('n, 'c, 'e) env \<Rightarrow> ('n, 'c, 'e, 's) runtime \<Rightarrow> bool" where
  "test_drop_rejected_by_default E rt \<longleftrightarrow>
     (let config = (gateway_config_new '':memory:'')\<lparr>cfg_allow_schema_write := True\<rparr> in
      opened (open_with_config E rt config) (\<lambda>gw s0.
        awaited (handle_execute rt (handle gw) (make_request ''setup'' [sql_op create_drop_sql []]) s0) (\<lambda>_ s1.
        awaited (handle_execute rt (handle gw)
            (make_request ''req-drop'' [sql_op ''DROP TABLE drop_test'' []]) s1) (\<lambda>resp s2.
          rs_status resp = Failed \<and> error_contains resp ''sql rejected'' \<and> shuts_down rt gw s2))))"

definition create_del_sql :: string where
  "create_del_sql = ''CREATE TABLE del_test (id INTEGER PRIMARY KEY, val TEXT NOT NULL)''"

definition insert_del_sql :: string where
  "insert_del_sql = ''INSERT INTO del_test(val) VALUES ('' @ squote ''row'' @ '')''"

definition test_delete_rejected_when_disabled ::
  "('n, 'c, 'e) env \<Rightarrow> ('n, 'c, 'e, 's) runtime \<Rightarrow> bool" where
  "test_delete_rejected_when_disabled E rt \<longleftrightarrow>
     (let config = (gateway_config_new '':memory:'')\<lparr>cfg_allow_schema_write := True, cfg_allow_delete := False\<rparr> in
      opened (open_with_config E rt config) (\<lambda>gw s0.
        awaited (handle_execute rt (handle gw) (make_request ''setup'' [sql_op create_del_sql []]) s0) (\<lambda>_ s1.
        awaited (handle_execute rt (handle gw) (make_request ''insert'' [sql_op insert_del_sql []]) s1) (\<lambda>_ s2.
        awaited (handle_execute rt (handle gw)
            (make_request ''req-delete'' [sql_op ''DELETE FROM del_test'' []]) s2) (\<lambda>resp s3.
          rs_status resp = Failed \<and> error_contains resp ''sql rejected'' \<and> shuts_down rt gw s3)))))"

definition create_idem_sql :: string where
  "create_idem_sql = ''CREATE TABLE idem_test (id INTEGER PRIMARY KEY, val TEXT NOT NULL UNIQUE)''"

definition insert_idem_sql :: string where
  "insert_idem_sql = ''INSERT INTO idem_test(val) VALUES (?)''"

definition test_idempotency_end_to_end ::
  "('n, 'c, 'e) env \<Rightarrow> ('n, 'c, 'e, 's) runtime \<Rightarrow> bool" where
  "test_idempotency_end_to_end E rt \<longleftrightarrow>
     (let config = (gateway_config_new '':memory:'')
        \<lparr>cfg_allow_schema_write := True, cfg_idempotency := True, cfg_track_commits := True\<rparr> in
      opened (open_with_config E rt config) (\<lambda>gw s0.
        awaited (handle_execute rt (handle gw) (make_request ''setup'' [sql_op create_idem_sql []]) s0) (\<lambda>_ s1.
          (let req = (make_request ''req-idem'' [sql_op insert_idem_sql [JString ''only-once'']])
                 \<lparr>rq_idempotency_key := Some ''idem-key-1''\<rparr> in
           awaited (handle_execute rt (handle gw) req s1) (\<lambda>resp1 s2. rs_status resp1 = Committed
             \<and> awaited (handle_execute rt (handle gw) req s2) (\<lambda>resp2 s3. rs_status resp2 = Committed
               \<and> awaited (handle_execute rt (handle gw)
                    ((make_request ''probe'' [sql_op insert_idem_sql [JString ''only-once'']])
                      \<lparr>rq_request_id := ''probe-unique''\<rparr>) s3)
                  (\<lambda>probe_resp s4. rs_status probe_resp = Failed \<and> shuts_down rt gw s4)))))))"

text \<open>
  \<open>s\<close> is the state of the runtime after \<open>mpsc::channel(1)\<close>, whose receiver is kept and not read.
\<close>

definition overflow_op :: "'n sql_operation" where
  "overflow_op = sql_op ''INSERT INTO t VALUES (1)'' []"

definition test_overflow_reject_error_variant ::
  "('n, 'c, 'e, 's) runtime \<Rightarrow> 's \<Rightarrow> bool" where
  "test_overflow_reject_error_variant rt s \<longleftrightarrow>
     (case try_send rt Shutdown s of
        (Sent, s1) \<Rightarrow>
          (case handle_execute rt \<lparr>gh_overflow = Reject\<rparr> (make_request ''overflow'' [overflow_op]) s1 of
             (Inl GatewayOverloaded, s2) \<Rightarrow> True | _ \<Rightarrow> False)
      | _ \<Rightarrow> False)"

definition test_overflow_wait_timeout_returns_gateway_overloaded ::
  "('n, 'c, 'e, 's) runtime \<Rightarrow> 's \<Rightarrow> bool" where
  "test_overflow_wait_timeout_returns_gateway_overloaded rt s \<longleftrightarrow>
     (case try_send rt Shutdown s of
        (Sent, s1) \<Rightarrow>
          (case handle_execute rt \<lparr>gh_overflow = WaitTimeout 1\<rparr>
                  (make_request ''timeout-overflow'' [overflow_op]) s1 of
             (Inl err, s2) \<Rightarrow> (case err of GatewayOverloaded \<Rightarrow> True | GatewayClosed \<Rightarrow> True | _ \<Rightarrow> False)
           | (Inr resp, s2) \<Rightarrow> False)
      | _ \<Rightarrow> False)"

definition test_latency_snapshot_after_commits ::
  "('n, 'c, 'e) env \<Rightarrow> ('n, 'c, 'e, 's) runtime \<Rightarrow> bool" where
  "test_latency_snapshot_after_commits E rt \<longleftrightarrow>
     opened (open_memory_gateway E rt False) (\<lambda>gw s0.
       (case handle_latency_snapshot rt s0 of
          None \<Rightarrow> False
        | Some (avg, p95) \<Rightarrow>
            f64_eq_zero avg \<and> p95 = 0
            \<and> create_test_table rt (handle gw) s0 (\<lambda>s1.
                (case handle_latency_snapshot rt s1 of
                   None \<Rightarrow> False
                 | Some (avg_after, p95_after) \<Rightarrow>
                     f64_gt_zero avg_after \<and> p95 \<le> p95_after \<and> shuts_down rt gw s1))))"

end
