(* ===== verification/Task_Errors.thy ===== *)
theory Task_Errors
  imports Task_Theorems Gateway_Tests
begin

text \<open>
  When a call may return \<open>GatewayClosed\<close>: only after somebody called \<open>shutdown\<close>. Hence the
  test of \<open>src/inprocess.rs\<close> that races three requests against a queue of one passes however
  its tasks are scheduled.
\<close>

section \<open>A gateway that is not shut down serves\<close>

definition serving :: "('q \<Rightarrow> 'n command list) \<Rightarrow> ('n, 'c, 'e, 'q) sys \<Rightarrow> bool" where
  "serving buffered s \<longleftrightarrow> Shutdown \<notin> set (held buffered s)
     \<and> (gone (sys_phase s) \<longrightarrow> \<not> sys_senders s)
     \<and> (sys_senders s \<or> list_all (settled \<circ> snd) (sys_calls s))
     \<and> list_all (\<lambda>x. snd x \<noteq> Returned (Inl GatewayClosed)) (sys_calls s)"

lemma handle_alone_stop: "handle_alone E w c = (stop, rs, w') \<Longrightarrow> stop \<longleftrightarrow> c = Shutdown"
  by (cases c) (auto split: prod.splits)

lemma after_alone_gone: "gone (sys_phase (after_alone (handle_alone E w c) s)) \<Longrightarrow> c = Shutdown"
  by (cases "handle_alone E w c") (auto dest: handle_alone_stop split: if_splits)

context bounded_channel
begin

lemma turn_gone:
  assumes "writer_turn E ch s = Some s'" and "gone (sys_phase s')"
  shows "gone (sys_phase s) \<or> \<not> sys_senders s \<or> Shutdown \<in> set (held buffered s)"
proof (cases "sys_phase s")
  case Receiving
  obtain r q where r: "blocking_recv (ch_receiver ch) (sys_chan s) = (r, q)" by fastforce
  have rec: "writer_receive E ch s = Some s'" using assms(1) Receiving by (simp add: writer_turn_def)
  show ?thesis
  proof (cases r)
    case None
    then show ?thesis using rec r by (auto simp: writer_receive_def split: if_splits)
  next
    case (Some cmd)
    then have "buffered (sys_chan s) = cmd # buffered q" using r by (simp add: recv_some)
    moreover have "s' = after_alone (handle_alone E (sys_writer s) cmd) (s\<lparr>sys_chan := q\<rparr>)"
      using rec r Some assms(2)
      by (auto simp: writer_receive_def split: command.splits option.splits if_splits)
    ultimately show ?thesis using assms(2) after_alone_gone by (auto simp: held_def)
  qed
next
  case (Draining batch n)
  then have "\<not> gone (sys_phase s')"
    using assms(1)
    by (auto simp: writer_turn_def writer_drain_def commit_drained_def
        split: nat.splits prod.splits option.splits command.splits if_splits)
  then show ?thesis using assms(2) by simp
next
  case (Replying out d)
  then have s': "s' = writer_reply E out d s" using assms(1) by (simp add: writer_turn_def)
  show ?thesis
  proof (cases "(E, out, d, s)" rule: writer_reply.cases)
    case (3 E' cmd s1)
    then show ?thesis using s' assms(2) Replying after_alone_gone by (auto simp: held_def)
  qed (use s' assms(2) in auto)
qed simp_all

lemma perform_serving:
  fixes E :: "('n, 'c, 'e) env"
  assumes "serving buffered s" and "perform E ch p ev s = Some s'" and "Shut_Down \<notin> fst ` set (sys_calls s')"
    and "calls.linked w cs l s"
  shows "serving buffered s'"
  using assms(2)
proof (cases rule: perform_cases)
  case (called c)
  then show ?thesis using assms(1) by (simp add: serving_def held_def)
next
  case (queued i c)
  then have "c \<noteq> Shut_Down" using assms(3) by (force simp: in_set_conv_nth)
  then have "call_command c i \<noteq> Shutdown" by (cases c) simp_all
  moreover have "sys_senders s"
    using queued(2,3) assms(1) by (auto simp: serving_def list_all_iff dest!: nth_mem)
  ultimately show ?thesis
    using queued assms(1) push [of "sys_chan s"]
    by (auto simp: serving_def held_def list_all_iff dest: set_update_subset_insert [THEN subsetD])
next
  case (moved i c pr pr')
  have alive: "sys_senders s"
    using moved(2,3) moves_not_settled [OF moved(4)] assms(1) by (auto simp: serving_def list_all_iff dest!: nth_mem)
  then have "pr' \<noteq> Returned (Inl GatewayClosed)"
    using assms(1) by (intro notI) (cases rule: moves.cases [OF moved(4)], auto simp: serving_def)
  then show ?thesis
    using moved assms(1) alive
    by (auto simp: serving_def list_all_iff dest: set_update_subset_insert [THEN subsetD])
next
  case dropped
  then show ?thesis using assms(1) by (simp add: serving_def held_def)
next
  case turn
  have "\<forall>c \<in> set (held buffered s). admissible_command (\<lambda>_. True) c"
  proof
    fix c :: "'n command"
    show "admissible_command (\<lambda>_. True) c" by (cases c) simp_all
  qed
  from calls.turn_advances [OF turn(2) this calls.linkedD(6) [OF assms(4)]]
  obtain cs' l' where "calls.advances s cs' l' s'" by blast
  then have "set (held buffered s') \<subseteq> set (held buffered s)" by (auto simp: calls.advances_def)
  then show ?thesis
    using writer_turn_frame [OF turn(2)] turn_gone [OF turn(2)] assms(1) by (auto simp: serving_def)
qed

text \<open>In every reachable state without a call of \<open>shutdown\<close>, nobody was told that the gateway is closed.\<close>

lemma reachable_serving:
  fixes E :: "('n, 'c, 'e) env"
  assumes "buffered q = []"
  shows "schedule E ch p evs (sys_start q w) = Some s \<Longrightarrow> Shut_Down \<notin> fst ` set (sys_calls s) \<Longrightarrow> serving buffered s"
proof (induction evs arbitrary: s rule: rev_induct)
  case Nil
  then have "s = sys_start q w" by simp
  then show ?case using assms by (simp add: serving_def sys_start_def held_def)
next
  case (snoc ev evs)
  then obtain s1 where s1: "schedule E ch p evs (sys_start q w) = Some s1" "perform E ch p ev s1 = Some s"
    by (auto simp: schedule_append bind_eq_Some_conv)
  obtain cs l where "calls.linked w cs l s1" using reachable_linked [OF assms s1(1)] by blast
  moreover obtain xs where "map fst (sys_calls s) = map fst (sys_calls s1) @ xs"
    using perform_calls [OF s1(2)] by blast
  then have "fst ` set (sys_calls s1) \<subseteq> fst ` set (sys_calls s)" by (metis Un_upper1 set_append set_map)
  then have "serving buffered s1" using snoc.IH [OF s1(1)] snoc.prems(2) by blast
  ultimately show ?case using perform_serving [OF _ s1(2) snoc.prems(2)] by blast
qed

end

text \<open>An overflow is reported to \<open>execute\<close> alone, and only under a policy that allows it.\<close>

definition overflow_fits :: "overflow_policy \<Rightarrow> ('n, 'c, 'e, 'q) sys \<Rightarrow> bool" where
  "overflow_fits p s \<longleftrightarrow> (\<forall>(c, pr) \<in> set (sys_calls s).
     pr = Returned (Inl GatewayOverloaded) \<longrightarrow> p \<noteq> Wait \<and> (\<exists>r. c = Execute r))"

lemma overflow_fits_set:
  assumes "overflow_fits p s" and "pr = Returned (Inl GatewayOverloaded) \<longrightarrow> p \<noteq> Wait \<and> (\<exists>r. c = Execute r)"
  shows "overflow_fits p (set_call i c pr s)"
  using assms set_update_subset_insert [of "sys_calls s" i "(c, pr)"] unfolding overflow_fits_def by auto

lemma perform_overflow_fits:
  assumes "overflow_fits p s" and "perform E ch p ev s = Some s'"
  shows "overflow_fits p s'"
  using assms(2)
proof (cases rule: perform_cases)
  case (queued i c)
  have "overflow_fits p (s\<lparr>sys_chan := push ch (call_command c i) (sys_chan s)\<rparr>)"
    using assms(1) by (simp add: overflow_fits_def)
  then show ?thesis using queued(6) overflow_fits_set [of p _ Waiting] by simp
next
  case (moved i c pr pr')
  have "pr' = Returned (Inl GatewayOverloaded) \<longrightarrow> p \<noteq> Wait \<and> (\<exists>r. c = Execute r)"
    using moved(4) by (auto elim: moves.cases)
  then show ?thesis using moved(5) overflow_fits_set [OF assms(1)] by simp
next
  case turn
  then show ?thesis using assms(1) writer_turn_frame [OF turn(2)] by (simp add: overflow_fits_def)
qed (use assms(1) in \<open>auto simp: overflow_fits_def\<close>)

lemma schedule_overflow_fits:
  "overflow_fits p s \<Longrightarrow> schedule E ch p evs s = Some s' \<Longrightarrow> overflow_fits p s'"
proof (induction evs arbitrary: s)
  case Nil
  then show ?case by simp
next
  case (Cons ev evs)
  then obtain s1 where s1: "perform E ch p ev s = Some s1" "schedule E ch p evs s1 = Some s'"
    by (auto simp: bind_eq_Some_conv)
  from Cons.IH [OF perform_overflow_fits [OF Cons.prems(1) s1(1)] s1(2)] show ?case .
qed

context bounded_channel
begin

lemma error_causes:
  fixes E :: "('n, 'c, 'e) env"
  assumes "buffered q = []" and "schedule E ch p evs (sys_start q w) = Some s"
    and "i < length (sys_calls s)" and "sys_calls s ! i = (c, Returned (Inl e))"
  shows "e = GatewayClosed \<and> Shut_Down \<in> fst ` set (sys_calls s)
    \<or> e = GatewayOverloaded \<and> p \<noteq> Wait \<and> (\<exists>r. c = Execute r)"
proof -
  have mem: "(c, Returned (Inl e)) \<in> set (sys_calls s)" using assms(3,4) by (metis nth_mem)
  obtain cs l where "calls.linked w cs l s" using reachable_linked [OF assms(1,2)] by blast
  from calls.linked_fits [OF this assms(3,4)] have "e = GatewayOverloaded \<or> e = GatewayClosed" by auto
  then show ?thesis
  proof
    assume "e = GatewayOverloaded"
    moreover have "overflow_fits p (sys_start q w)" by (simp add: overflow_fits_def sys_start_def)
    from schedule_overflow_fits [OF this assms(2)] mem
    have "e = GatewayOverloaded \<longrightarrow> p \<noteq> Wait \<and> (\<exists>r. c = Execute r)" by (auto simp: overflow_fits_def)
    ultimately show ?thesis by simp
  next
    assume "e = GatewayClosed"
    then have "\<not> list_all (\<lambda>x. snd x \<noteq> Returned (Inl GatewayClosed)) (sys_calls s)"
      using mem by (force simp: list_all_iff)
    then have "\<not> serving buffered s" by (simp add: serving_def)
    then show ?thesis using reachable_serving [OF assms(1,2)] \<open>e = GatewayClosed\<close> by blast
  qed
qed

end

section \<open>Which errors a caller may see\<close>

text \<open>C13. The causes of an error, in every interleaving: a call is told that the gateway is closed only
  when somebody has called \<open>shutdown\<close>, and that it is overloaded only if it is an \<open>execute\<close>
  under \<open>Reject\<close> or \<open>WaitTimeout\<close>; no call returns any other error.\<close>

lemma call_error_causes:
  assumes "bounded_channel ch buffered cap" and "buffered q = []"
    and "schedule E ch p evs (sys_start q w) = Some s"
    and "i < length (sys_calls s)" and "sys_calls s ! i = (c, Returned (Inl e))"
  shows "e = GatewayClosed \<and> Shut_Down \<in> fst ` set (sys_calls s)
    \<or> e = GatewayOverloaded \<and> p \<noteq> Wait \<and> (\<exists>r. c = Execute r)"
  using assms by (rule bounded_channel.error_causes)

lemma call_error_causes_witness:
  "\<exists>s. sample_run sample_tasks = Some s
    \<and> sys_calls s ! 2 = (Execute (sample_request ''r3'' None [''INSERT c'']), Returned (Inl GatewayOverloaded))
    \<and> (GatewayOverloaded = (GatewayClosed :: ref_error error) \<and> Shut_Down \<in> fst ` set (sys_calls s)
      \<or> Reject \<noteq> Wait)"
proof -
  obtain s where s: "sample_run sample_tasks = Some s" "sys_calls s = sample_calls" by (rule sample_run_states)
  then have call: "2 < length (sys_calls s)"
    "sys_calls s ! 2 = (Execute (sample_request ''r3'' None [''INSERT c'']), Returned (Inl GatewayOverloaded))"
    by (simp_all add: sample_calls_def)
  from call_error_causes [OF fifo.bounded_channel_axioms refl s(1) call] s(1) call(2) show ?thesis by blast
qed

section \<open>The racing test\<close>

text \<open>
  The calls of \<open>test_overflow_reject_returns_gateway_overloaded\<close>, and its assertion about the last
  one. The tasks of \<open>fill-1\<close> and \<open>fill-2\<close> run at any time.
\<close>

definition insert_literal :: "string \<Rightarrow> string \<Rightarrow> 'n call" where
  "insert_literal i v = Execute (make_request i
     [sql_op (''INSERT INTO test_events(val) VALUES ('' @ squote v @ '')'') []])"

definition overflow_race :: "'n call list" where
  "overflow_race = [Execute (make_request ''setup'' [sql_op create_events_sql []]), insert_literal ''fill-1'' ''a'',
     insert_literal ''fill-2'' ''b'', insert_literal ''overflow'' ''c'']"

definition overflow_race_ok :: "('n call \<times> 'e progress) list \<Rightarrow> bool" where
  "overflow_race_ok calls \<longleftrightarrow> (case nth_opt calls 3 of
       Some (c, Returned (Inl e)) \<Rightarrow> (case e of GatewayOverloaded \<Rightarrow> True | _ \<Rightarrow> False)
     | _ \<Rightarrow> True)"

lemma overflow_race_passes:
  assumes "bounded_channel ch buffered cap" and "buffered q = []"
    and "schedule E ch Reject evs (sys_start q w) = Some s" and "map fst (sys_calls s) = overflow_race"
  shows "overflow_race_ok (sys_calls s)"
proof -
  have none: "Shut_Down \<notin> fst ` set (sys_calls s)"
    using assms(4) by (simp add: overflow_race_def insert_literal_def flip: set_map)
  have len: "3 < length (sys_calls s)"
    using arg_cong [OF assms(4), of length] by (simp add: overflow_race_def)
  obtain c pr where c: "sys_calls s ! 3 = (c, pr)" by fastforce
  have "e = GatewayOverloaded" if "pr = Returned (Inl e)" for e
    using bounded_channel.error_causes [OF assms(1-3) len, of c e] c that none by simp
  then show ?thesis using len c by (cases pr) (auto simp: overflow_race_ok_def nth_opt_def split: sum.split)
qed

end
