(* ===== verification/Unit_Test_Proofs.thy ===== *)
theory Unit_Test_Proofs
  imports Unit_Tests
begin

text \<open>
  The database tests of \<open>src/writer.rs\<close> pass on every healthy database that obeys the SQLite
  laws and whose tables behave as their \<open>CREATE TABLE\<close> says.
\<close>

section \<open>The tables of the tests\<close>

text \<open>
  \<open>t_vals d\<close> and \<open>blob_vals d\<close>: the column of table \<open>t\<close>, of \<open>blob_t\<close>, newest row first, or \<open>None\<close>
  when the table is missing; \<open>unique d\<close>: the column of \<open>t\<close> is \<open>UNIQUE\<close>; \<open>internal d\<close>: the two
  internal tables exist.
\<close>

record 'd tables =
  t_vals :: "'d \<Rightarrow> sql_value list option"
  blob_vals :: "'d \<Rightarrow> sql_value list option"
  unique :: "'d \<Rightarrow> bool"
  internal :: "'d \<Rightarrow> bool"

definition select_from ::
  "('c, 'd) reading \<Rightarrow> ('d \<Rightarrow> sql_value list option) \<Rightarrow> 'c \<Rightarrow> sql_value list" where
  "select_from A t c = (case t (view A c) of None \<Rightarrow> [] | Some vs \<Rightarrow> vs)"

locale unit_db = live_db E A healthy + text_db E A
  for E :: "('n, 'c, 'e) env" and A :: "('c, 'd) reading" and healthy +
  fixes T :: "'d tables" and conn :: 'c
  assumes create_t: "\<exists>c. execute_batch (drv E) create_t_sql conn = (Inr (), c) \<and> idle A c \<and> healthy c
      \<and> t_vals T (durable A c) = Some []"
    and create_unique: "\<exists>c. execute_batch (drv E) create_unique_t_sql conn = (Inr (), c) \<and> idle A c \<and> healthy c
      \<and> t_vals T (durable A c) = Some [] \<and> unique T (durable A c)"
    and create_internal: "\<exists>c1 c. run_migrations (drv E) True True conn = (Inr (), c1)
      \<and> execute_batch (drv E) create_t_sql c1 = (Inr (), c) \<and> idle A c \<and> healthy c
      \<and> t_vals T (durable A c) = Some [] \<and> internal T (durable A c)
      \<and> stored A (durable A c) = Map.empty \<and> max_seq A (durable A c) = 0"
    and create_blob: "execute_batch (drv E) create_t_sql conn = (Inr (), c) \<Longrightarrow>
      \<exists>c'. execute_batch (drv E) create_blob_sql c = (Inr (), c') \<and> idle A c' \<and> healthy c'
        \<and> blob_vals T (durable A c') = Some []"
    and plain_inserts: "plain A insert_t_sql" "plain A insert_blob_sql"
    and insert_t: "t_vals T d = Some vs \<Longrightarrow> v \<noteq> Null \<Longrightarrow> v \<notin> set vs \<Longrightarrow>
      \<exists>d'. effect A insert_t_sql [v] d = Some d' \<and> t_vals T d' = Some (v # vs)
        \<and> unique T d' = unique T d \<and> internal T d' = internal T d"
    and insert_null: "effect A insert_t_sql [Null] d = None"
    and insert_twice: "t_vals T d = Some vs \<Longrightarrow> unique T d \<Longrightarrow> v \<in> set vs \<Longrightarrow> effect A insert_t_sql [v] d = None"
    and insert_blob: "blob_vals T d = Some [] \<Longrightarrow>
      \<exists>d'. effect A insert_blob_sql [Blob b] d = Some d' \<and> blob_vals T d' = Some [Blob b]"
    and insert_commit: "internal T d \<Longrightarrow> max_seq A d = 0 \<Longrightarrow>
      \<exists>d'. effect A commit_insert_sql [Text i, Text a, Null] d = Some d' \<and> internal T d' \<and> t_vals T d' = t_vals T d"
    and insert_key: "internal T d \<Longrightarrow> \<exists>d'. effect A idem_insert_sql [Text k, Text h, Text j, v] d = Some d'
      \<and> internal T d' \<and> t_vals T d' = t_vals T d"
    and hello: "b64 E ''aGVsbG8='' = Inr hello_bytes"
begin

lemma writer_of:
  "make_test_writer E conn = Some w \<Longrightarrow> w_config w = default_test_config \<and> \<not> w_track_commits w \<and> w_idempotency w
     \<and> w_latency_buf w = new_latency_buffer"
  by (auto simp: make_test_writer_def default_test_config_def new_writer_def split: prod.splits sum.splits)

lemma test_writer:
  obtains w where "make_test_writer E conn = Some w" "idle A (w_conn w)" "healthy (w_conn w)"
    "t_vals T (durable A (w_conn w)) = Some []" "w_config w = default_test_config" "\<not> w_track_commits w"
    "w_latency_buf w = new_latency_buffer" "execute_batch (drv E) create_t_sql conn = (Inr (), w_conn w)"
proof -
  obtain c where "execute_batch (drv E) create_t_sql conn = (Inr (), c)" "idle A c" "healthy c"
      "t_vals T (durable A c) = Some []"
    using create_t by blast
  then show ?thesis
    using that [of "new_writer c False True default_test_config new_latency_buffer"]
    by (simp add: make_test_writer_def default_test_config_def new_writer_def)
qed

lemma insert_accepted: "guard_accepts default_test_config (keyword insert_t_sql)"
    "guard_accepts default_test_config (keyword insert_blob_sql)"
  by code_simp+

lemma unseen_key [simp]: "rq_idempotency_key (make_write_request ops) = None"
  by (simp add: make_write_request_def)

text \<open>What \<open>apply\<close> does is what the reference semantics does, and the connection stays usable.\<close>

lemma apply_spec:
  assumes "idle A (w_conn w)" and "healthy (w_conn w)" and "plain_request A r" and "writer_apply E w r = (resp, w')"
    and "spec_serve E A (w_config w) (w_track_commits w) (w_idempotency w) r (durable A (w_conn w)) = (x, d)"
  shows "outcome resp = x" "durable A (w_conn w') = d" "view A (w_conn w') = d"
    "idle A (w_conn w')" "healthy (w_conn w')"
proof -
  have "idle A (w_conn w')" using writer_apply_serves [OF assms(1,3,4)] by blast
  moreover have "healthy (w_conn w')" "outcome resp = x" "durable A (w_conn w') = d"
    using writer_apply_live [OF assms(1-4)] assms(5) by simp_all
  ultimately show "outcome resp = x" "durable A (w_conn w') = d" "view A (w_conn w') = d"
    "idle A (w_conn w')" "healthy (w_conn w')" using view_autocommit by simp_all
qed

lemma outcome_status: "outcome resp = Some (committed i s) \<Longrightarrow> rs_status resp = Committed"
  "outcome resp = None \<Longrightarrow> rs_status resp = Failed"
  by (auto simp: outcome_def split: if_splits)

lemma rollback_test: "test_apply_atomic_rollback E (select_from A (t_vals T)) conn"
proof -
  obtain w where w: "make_test_writer E conn = Some w" "idle A (w_conn w)" "healthy (w_conn w)"
    "t_vals T (durable A (w_conn w)) = Some []" "w_config w = default_test_config" "\<not> w_track_commits w"
    by (rule test_writer)
  let ?r = "make_write_request [(insert_t_sql, [JString ''good'']), (insert_t_sql, [JNull])]"
  obtain resp w' where run: "writer_apply E w ?r = (resp, w')" by fastforce
  have plain: "plain_request A ?r" by (simp add: plain_request_def make_write_request_def plain_inserts)
  have "ops_effect E A (rq_operations ?r) (durable A (w_conn w)) = None"
    by (simp add: make_write_request_def params_from_def insert_null split: bind_split)
  then have "spec_serve E A (w_config w) (w_track_commits w) (w_idempotency w) ?r (durable A (w_conn w))
      = (None, durable A (w_conn w))"
    using w(5) insert_accepted
    by (simp add: spec_serve_def spec_execute_def spec_tx_def)
  note result = apply_spec [OF w(2,3) plain run this]
  show ?thesis
    using result w(1,4) run outcome_status by (simp add: test_apply_atomic_rollback_def select_from_def)
qed

lemma blob_test: "test_blob_roundtrip_stored_as_blob_not_text E (select_from A (blob_vals T)) conn"
proof -
  obtain w where w: "make_test_writer E conn = Some w" "w_config w = default_test_config" "\<not> w_track_commits w"
      "execute_batch (drv E) create_t_sql conn = (Inr (), w_conn w)"
    by (rule test_writer)
  obtain c where c: "execute_batch (drv E) create_blob_sql (w_conn w) = (Inr (), c)" "idle A c" "healthy c"
      "blob_vals T (durable A c) = Some []"
    using create_blob [OF w(4)] by blast
  let ?w = "w\<lparr>w_conn := c\<rparr>"
  let ?r = "make_write_request [(insert_blob_sql, [JObject [(''$blob'', JString ''aGVsbG8='')]])]"
  obtain resp w' where run: "writer_apply E ?w ?r = (resp, w')" by fastforce
  have plain: "plain_request A ?r" by (simp add: plain_request_def make_write_request_def plain_inserts)
  obtain d where d: "effect A insert_blob_sql [Blob hello_bytes] (durable A c) = Some d"
      "blob_vals T d = Some [Blob hello_bytes]"
    using insert_blob [OF c(4)] by blast
  have "ops_effect E A (rq_operations ?r) (durable A c) = Some d"
    using d(1) by (simp add: make_write_request_def params_from_def blob_sentinel_def hello)
  then have "spec_serve E A (w_config ?w) (w_track_commits ?w) (w_idempotency ?w) ?r (durable A (w_conn ?w))
      = (Some (committed ''test-req'' None), d)"
    using w(2,3) insert_accepted
    by (simp add: spec_serve_def spec_execute_def spec_tx_def spec_commit_def) (simp add: make_write_request_def)
  note result = apply_spec [OF _ _ plain run this, simplified, OF c(2,3)]
  show ?thesis
    using result d(2) w(1) c(1) run outcome_status
    by (simp add: test_blob_roundtrip_stored_as_blob_not_text_def select_from_def)
qed

lemma latency_test: "test_latency_buffer_records_commits E conn"
proof -
  obtain w where w: "make_test_writer E conn = Some w" "idle A (w_conn w)" "healthy (w_conn w)"
    "t_vals T (durable A (w_conn w)) = Some []" "w_config w = default_test_config" "\<not> w_track_commits w"
    "w_latency_buf w = new_latency_buffer"
    by (rule test_writer)
  let ?r = "make_write_request [(insert_t_sql, [JString ''lat-test''])]"
  obtain resp w' where run: "writer_apply E w ?r = (resp, w')" by fastforce
  have plain: "plain_request A ?r" by (simp add: plain_request_def make_write_request_def plain_inserts)
  obtain d where d: "effect A insert_t_sql [Text ''lat-test''] (durable A (w_conn w)) = Some d"
    using insert_t [OF w(4)] by fastforce
  then have "ops_effect E A (rq_operations ?r) (durable A (w_conn w)) = Some d"
    by (simp add: make_write_request_def params_from_def)
  then have "spec_serve E A (w_config w) (w_track_commits w) (w_idempotency w) ?r (durable A (w_conn w))
      = (Some (committed ''test-req'' None), d)"
    using w(5,6) insert_accepted
    by (simp add: spec_serve_def spec_execute_def spec_tx_def spec_commit_def) (simp add: make_write_request_def)
  note result = apply_spec [OF w(2,3) plain run this]
  have "rs_status resp = Committed" using result(1) outcome_status by blast
  moreover have "w_latency_buf w' = push_latency (w_latency_buf w) (elapsed_micros (drv E) (w_conn w) (w_conn w'))"
    if "rs_status resp = Committed"
    using run that
    by (auto simp: writer_apply_def admit_def apply_inner_def Let_def split: sum.splits prod.splits if_splits)
  ultimately show ?thesis
    using w(1,7) run
    by (auto simp: test_latency_buffer_records_commits_def latency_len_def new_latency_buffer_def
        push_latency_def LATENCY_BUF_CAP_def)
qed

text \<open>The first request under a key is executed and leaves its record.\<close>

definition keyed_insert :: "string \<Rightarrow> string \<Rightarrow> string \<Rightarrow> 'n write_request" where
  "keyed_insert i key x = (make_write_request [(insert_t_sql, [JString x])])
     \<lparr>rq_request_id := i, rq_idempotency_key := Some key\<rparr>"

lemma keyed_insert_sel:
  "rq_request_id (keyed_insert i key x) = i" "rq_idempotency_key (keyed_insert i key x) = Some key"
  "rq_operations (keyed_insert i key x) = [\<lparr>sql = insert_t_sql, params = [JString x]\<rparr>]"
  "commit_params (keyed_insert i key x) = [Text i, Text ''test-actor'', Null]"
  "plain_request A (keyed_insert i key x)"
  by (simp_all add: keyed_insert_def make_write_request_def commit_params_def plain_request_def plain_inserts)

lemma idempotency_writer:
  obtains w where "make_idempotency_writer E conn = Some w" "idle A (w_conn w)" "healthy (w_conn w)"
    "t_vals T (durable A (w_conn w)) = Some []" "internal T (durable A (w_conn w))"
    "stored A (durable A (w_conn w)) = Map.empty" "max_seq A (durable A (w_conn w)) = 0"
    "guard_accepts (w_config w) (keyword insert_t_sql)" "w_track_commits w" "w_idempotency w"
proof -
  have "guard_accepts (gateway_config_default\<lparr>cfg_allow_schema_write := True, cfg_idempotency := True,
      cfg_track_commits := True\<rparr>) (keyword insert_t_sql)" by code_simp
  then show ?thesis
    using that create_internal by (auto simp: make_idempotency_writer_def new_writer_def)
qed

lemma first_keyed:
  assumes "idle A (w_conn w)" and "healthy (w_conn w)" and "t_vals T (durable A (w_conn w)) = Some []"
    and "internal T (durable A (w_conn w))" and "stored A (durable A (w_conn w)) = Map.empty"
    and "max_seq A (durable A (w_conn w)) = 0" and "guard_accepts (w_config w) (keyword insert_t_sql)"
    and "w_track_commits w" and "w_idempotency w"
    and "writer_apply E w (keyed_insert i key x) = (resp, w')"
  obtains hash seq where "to_text (serde E) (operations_to_value (rq_operations (keyed_insert i key x))) = Inr hash"
    "rs_status resp = Committed" "idle A (w_conn w')" "healthy (w_conn w')"
    "t_vals T (durable A (w_conn w')) = Some [Text x]"
    "stored A (durable A (w_conn w')) key = Some (hash, Some (response_preview (serde E) i seq))"
    "w_config w' = w_config w" "w_idempotency w'"
proof -
  let ?d = "durable A (w_conn w)" and ?r = "keyed_insert i key x"
  obtain hash where hash: "to_text (serde E) (operations_to_value (rq_operations ?r)) = Inr hash"
    using to_text_total by blast
  obtain d1 where d1: "effect A insert_t_sql [Text x] ?d = Some d1" "t_vals T d1 = Some [Text x]" "internal T d1"
    using insert_t [OF assms(3), of "Text x"] assms(4) by auto
  have keep: "stored A d1 = Map.empty" "max_seq A d1 = 0"
    using plain_stored [OF _ d1(1)] plain_max_seq [OF _ d1(1)] plain_inserts(1) assms(5,6) by simp_all
  obtain d2 where d2: "effect A commit_insert_sql (commit_params ?r) d1 = Some d2" "internal T d2"
      "t_vals T d2 = Some [Text x]"
    using insert_commit [OF d1(3) keep(2), of i "''test-actor''"] d1(2) unfolding keyed_insert_sel by auto
  have keep2: "stored A d2 = Map.empty" using plain_stored [OF _ d2(1)] keep(1) by simp
  let ?seq = "Some (word_of_int (max_seq A d2))"
  obtain d3 where d3: "effect A idem_insert_sql (idem_params (serde E) i ?seq key hash) d2 = Some d3"
      "t_vals T d3 = Some [Text x]"
  proof -
    obtain d' where "effect A idem_insert_sql [Text key, Text hash, Text (response_preview (serde E) i ?seq),
        opt_integer ?seq] d2 = Some d' \<and> internal T d' \<and> t_vals T d' = t_vals T d2"
      using insert_key [OF d2(2)] by blast
    then show ?thesis using that [of d'] d2(3) by (simp add: idem_params_def)
  qed
  have stored3: "stored A d3 key = Some (hash, Some (response_preview (serde E) i ?seq))"
    using idem_insert_stored [OF d3(1) [unfolded idem_params_def]] keep2 by simp
  have "ops_effect E A (rq_operations ?r) ?d = Some d1"
    using d1(1) by (simp add: keyed_insert_sel params_from_def)
  then have "spec_serve E A (w_config w) (w_track_commits w) (w_idempotency w) ?r ?d = (Some (committed i ?seq), d3)"
    using assms(5,7-9) hash d2(1) d3(1)
    by (simp add: spec_serve_def spec_execute_def spec_tx_def spec_commit_def keyed_insert_sel)
  note result = apply_spec [OF assms(1,2) keyed_insert_sel(5) assms(10) this]
  have "w_config w' = w_config w" "w_idempotency w'"
    using writer_apply_frame [of E w ?r] assms(9,10) by simp_all
  with result stored3 hash d3(2) show ?thesis using that outcome_status(1) [OF result(1)] by blast
qed

lemma replay_test: "test_idempotency_second_call_returns_same_response E (select_from A (t_vals T)) conn"
proof -
  obtain w where w: "make_idempotency_writer E conn = Some w" "idle A (w_conn w)" "healthy (w_conn w)"
    "t_vals T (durable A (w_conn w)) = Some []" "internal T (durable A (w_conn w))"
    "stored A (durable A (w_conn w)) = Map.empty" "max_seq A (durable A (w_conn w)) = 0"
    "guard_accepts (w_config w) (keyword insert_t_sql)" "w_track_commits w" "w_idempotency w"
    by (rule idempotency_writer)
  let ?r = "keyed_insert ''req-idem-1'' ''key-1'' ''hello''"
  obtain resp1 w1 where run1: "writer_apply E w ?r = (resp1, w1)" by fastforce
  obtain hash seq where one: "to_text (serde E) (operations_to_value (rq_operations ?r)) = Inr hash"
    "rs_status resp1 = Committed" "idle A (w_conn w1)" "healthy (w_conn w1)"
    "t_vals T (durable A (w_conn w1)) = Some [Text ''hello'']"
    "stored A (durable A (w_conn w1)) ''key-1'' = Some (hash, Some (response_preview (serde E) ''req-idem-1'' seq))"
    "w_config w1 = w_config w" "w_idempotency w1"
    by (rule first_keyed [OF w(2-10) run1])
  obtain resp2 w2 where run2: "writer_apply E w1 ?r = (resp2, w2)" by fastforce
  have "spec_serve E A (w_config w1) (w_track_commits w1) (w_idempotency w1) ?r (durable A (w_conn w1))
      = (Some (committed ''req-idem-1'' seq), durable A (w_conn w1))"
    using one w(8) by (simp add: spec_serve_def keyed_insert_sel stored_preview)
  note result = apply_spec [OF one(3,4) keyed_insert_sel(5) run2 this]
  show ?thesis
    using w(1) one(2,5) run1 run2 outcome_status(1) [OF result(1)] result(3)
    by (simp add: test_idempotency_second_call_returns_same_response_def select_from_def flip: keyed_insert_def)
qed

lemma conflict_test: "test_idempotency_conflict_different_operations E conn"
proof -
  obtain w where w: "make_idempotency_writer E conn = Some w" "idle A (w_conn w)" "healthy (w_conn w)"
    "t_vals T (durable A (w_conn w)) = Some []" "internal T (durable A (w_conn w))"
    "stored A (durable A (w_conn w)) = Map.empty" "max_seq A (durable A (w_conn w)) = 0"
    "guard_accepts (w_config w) (keyword insert_t_sql)" "w_track_commits w" "w_idempotency w"
    by (rule idempotency_writer)
  let ?r1 = "keyed_insert ''req-conflict-1'' ''conflict-key'' ''first''"
  let ?r2 = "keyed_insert ''req-conflict-2'' ''conflict-key'' ''different''"
  obtain resp1 w1 where run1: "writer_apply E w ?r1 = (resp1, w1)" by fastforce
  obtain hash seq where one: "to_text (serde E) (operations_to_value (rq_operations ?r1)) = Inr hash"
    "rs_status resp1 = Committed" "idle A (w_conn w1)" "healthy (w_conn w1)"
    "t_vals T (durable A (w_conn w1)) = Some [Text ''first'']"
    "stored A (durable A (w_conn w1)) ''conflict-key'' = Some (hash, Some (response_preview (serde E) ''req-conflict-1'' seq))"
    "w_config w1 = w_config w" "w_idempotency w1"
    by (rule first_keyed [OF w(2-10) run1])
  obtain hash2 where hash2: "to_text (serde E) (operations_to_value (rq_operations ?r2)) = Inr hash2"
    using to_text_total by blast
  have "hash2 \<noteq> hash"
  proof
    assume "hash2 = hash"
    then have "operations_to_value (rq_operations ?r2) = operations_to_value (rq_operations ?r1)"
      using to_text_inj hash2 one(1) by blast
    then have "rq_operations ?r2 = rq_operations ?r1" by (simp only: operations_to_value_inj)
    then show False by (simp add: keyed_insert_sel)
  qed
  have view: "view A (w_conn w1) = durable A (w_conn w1)" using view_autocommit one(3) by simp
  have valid: "(validate_all (w_config w1) (rq_operations ?r2) :: 'e error + unit) = Inr ()"
    using w(8) one(7) by (simp only: validate_all_Inr_iff) (simp add: keyed_insert_sel)
  obtain c' where look: "idem_lookup (drv E) ''conflict-key'' (w_conn w1)
      = (Inr (hash, Some (response_preview (serde E) ''req-conflict-1'' seq)), c')"
    using one(4,6) view by (cases rule: idem_lookup_live [of "w_conn w1" "''conflict-key''"]) auto
  have "fst (writer_apply E w1 ?r2) = failed ''req-conflict-2''
      (error_to_string (err_to_string (drv E)) (IdempotencyConflict ''conflict-key''))"
    using valid look hash2 \<open>hash2 \<noteq> hash\<close> one(8)
    by (simp add: writer_apply_def admit_def keyed_insert_sel Let_def)
  then obtain w2 where run2: "writer_apply E w1 ?r2 = (failed ''req-conflict-2''
      (error_to_string (err_to_string (drv E)) (IdempotencyConflict ''conflict-key'')), w2)"
    by (cases "writer_apply E w1 ?r2") simp
  have "str_contains (error_to_string (err_to_string (drv E)) (IdempotencyConflict ''conflict-key'')) ''idempotency conflict''"
    using str_contains_prefix [of "''idempotency conflict''"
        "'': key '' @ squote ''conflict-key'' @ '' already used with a different request hash''"] by simp
  then show ?thesis
    using w(1) one(2) run1 run2
    by (simp add: test_idempotency_conflict_different_operations_def flip: keyed_insert_def)
qed

text \<open>The batch tests.\<close>

lemma batch_writer:
  obtains w where "make_batch_writer E conn = Some w" "idle A (w_conn w)" "healthy (w_conn w)"
    "t_vals T (durable A (w_conn w)) = Some []" "unique T (durable A (w_conn w))"
    "guard_accepts (w_config w) (keyword insert_t_sql)" "\<not> w_track_commits w" "\<not> w_idempotency w"
proof -
  obtain c where c: "execute_batch (drv E) create_unique_t_sql conn = (Inr (), c)" "idle A c" "healthy c"
      "t_vals T (durable A c) = Some []" "unique T (durable A c)"
    using create_unique by blast
  let ?config = "gateway_config_default\<lparr>cfg_allow_schema_write := True,
      cfg_batch := Some \<lparr>max_size = 64, max_delay_micros = 500\<rparr>\<rparr>"
  have "guard_accepts ?config (keyword insert_t_sql)" by code_simp
  then show ?thesis
    using c that [of "new_writer c False False ?config new_latency_buffer"]
    by (simp add: make_batch_writer_def new_writer_def)
qed

lemma unit_request_sel:
  "rq_request_id (unit_request i s ps) = i" "rq_idempotency_key (unit_request i s ps) = None"
  "rq_operations (unit_request i s ps) = [\<lparr>sql = s, params = ps\<rparr>]"
  "plain_request A (unit_request i insert_t_sql ps)"
  by (simp_all add: unit_request_def plain_request_def plain_inserts)

lemma serve_insert:
  assumes "guard_accepts config (keyword insert_t_sql)"
  shows "spec_serve E A config False False (unit_request i insert_t_sql [JString x]) d
    = (case effect A insert_t_sql [Text x] d of
         None \<Rightarrow> (None, d) | Some d' \<Rightarrow> (Some (committed i None), d'))"
  using assms
  by (simp add: spec_serve_def spec_execute_def spec_tx_def spec_commit_def unit_request_sel params_from_def
      split: option.split)

lemma isolation_test:
  "test_batch_savepoint_isolation_one_failure_others_committed E (select_from A (t_vals T)) conn"
proof -
  obtain w where w: "make_batch_writer E conn = Some w" "idle A (w_conn w)" "healthy (w_conn w)"
    "t_vals T (durable A (w_conn w)) = Some []" "unique T (durable A (w_conn w))"
    "guard_accepts (w_config w) (keyword insert_t_sql)" "\<not> w_track_commits w" "\<not> w_idempotency w"
    by (rule batch_writer)
  let ?batch = "[(unit_request ''req-1'' insert_t_sql [JString ''apple''], 1 :: slot),
      (unit_request ''req-2'' insert_t_sql [JString ''apple''], 2),
      (unit_request ''req-3'' insert_t_sql [JString ''banana''], 3)] :: ('n write_request \<times> slot) list"
  let ?d = "durable A (w_conn w)"
  obtain rs w' where run: "apply_batch E w ?batch = (rs, w')" by fastforce
  have plain: "\<forall>(r, t) \<in> set ?batch. plain_request A r" by (simp add: unit_request_sel)
  obtain d1 where d1: "effect A insert_t_sql [Text ''apple''] ?d = Some d1" "t_vals T d1 = Some [Text ''apple'']" "unique T d1"
    using insert_t [OF w(4), of "Text ''apple''"] w(5) by auto
  have twice: "effect A insert_t_sql [Text ''apple''] d1 = None" using insert_twice [OF d1(2,3)] by simp
  obtain d3 where d3: "effect A insert_t_sql [Text ''banana''] d1 = Some d3"
      "t_vals T d3 = Some [Text ''banana'', Text ''apple'']"
    using insert_t [OF d1(2), of "Text ''banana''"] by auto
  have "spec_serve_all E A (w_config w) (w_track_commits w) (w_idempotency w) (map fst ?batch) ?d
      = ([Some (committed ''req-1'' None), None, Some (committed ''req-3'' None)], d3)"
    using w(7,8) by (simp add: serve_insert [OF w(6)] d1(1) twice d3(1))
  then have out: "map (outcome \<circ> snd) rs = [Some (committed ''req-1'' None), None, Some (committed ''req-3'' None)]"
      "durable A (w_conn w') = d3"
    using apply_batch_live [OF w(2,3) plain run] by simp_all
  have "map fst rs = [1, 2, 3]" using apply_batch_slots [of E w ?batch] run by simp
  then obtain a b c where rs: "rs = [(1, a), (2, b), (3, c)]" by (auto simp: map_eq_Cons_conv)
  have "view A (w_conn w') = d3"
    using apply_batch_serves [OF w(2) plain run] out(2) view_autocommit by simp
  moreover have "rs_status a = Committed" "rs_status b = Failed" "rs_status c = Committed"
    using out(1) rs outcome_status by auto
  ultimately show ?thesis
    using w(1) run rs d3(2)
    by (auto simp: test_batch_savepoint_isolation_one_failure_others_committed_def select_from_def)
qed

lemma batch_guard_test:
  "test_batch_validate_sql_applied_for_each_request E (select_from A (t_vals T)) conn"
proof -
  obtain w where w: "make_batch_writer E conn = Some w" "idle A (w_conn w)" "healthy (w_conn w)"
    "t_vals T (durable A (w_conn w)) = Some []" "guard_accepts (w_config w) (keyword insert_t_sql)"
    "\<not> w_track_commits w" "\<not> w_idempotency w"
    by (rule batch_writer)
  let ?ok = "unit_request ''req-valid'' insert_t_sql [JString ''ok''] :: 'n write_request"
  let ?bad = "unit_request ''req-forbidden'' ''BEGIN'' [] :: 'n write_request"
  obtain d where d: "effect A insert_t_sql [Text ''ok''] (durable A (w_conn w)) = Some d" "t_vals T d = Some [Text ''ok'']"
    using insert_t [OF w(4), of "Text ''ok''"] by auto
  obtain b c1 where start: "begin_immediate (drv E) (w_conn w) = (b, c1)" by fastforce
  have b: "b = Inr ()" "healthy c1" using begin_live [OF w(2,3) start] by simp_all
  have c1: "in_tx A c1" "view A c1 = durable A (w_conn w)" using begin_ok [OF w(2)] start b(1) by blast+
  obtain resp c2 where one: "batch_one E w 0 ?ok c1 = (resp, c2)" by fastforce
  have "(outcome resp, view A c2) = spec_serve E A (w_config w) False False ?ok (view A c1)"
    using batch_one_live [OF c1(1) b(2) unit_request_sel(4) one] w(6,7) by simp
  then have ok: "rs_status resp = Committed" "view A c2 = d" "healthy c2"
    using serve_insert [OF w(5)] d(1) c1(2) outcome_status(1) batch_one_live [OF c1(1) b(2) unit_request_sel(4) one]
    by simp_all
  have c2: "in_tx A c2" using batch_one_step [OF c1(1) unit_request_sel(4) one] tx_step_in_tx by blast
  have raw: "cfg_allow_raw_sql (w_config w)" using w(5) by (simp add: guard_accepts_def)
  let ?m = "''statement starts with forbidden keyword '' @ squote ''BEGIN''"
  have "first_token ''BEGIN'' = ''BEGIN''" "List.member tx_keywords (to_ascii_uppercase ''BEGIN'')" by code_simp+
  then have "batch_one E w 1 ?bad c2 = (failed ''req-forbidden'' (''sql rejected: '' @ ?m), c2)"
    using raw by (simp add: batch_one_def admit_def unit_request_sel validate_sql_def Let_def)
  then have loop: "batch_loop E w 0 [(?ok, 1), (?bad, 2)] c1
      = ([(1, resp), (2, failed ''req-forbidden'' (''sql rejected: '' @ ?m))], c2)"
    using one by simp
  obtain k c3 where k: "commit_tx (drv E) c2 = (k, c3)" by fastforce
  have k_ok: "k = Inr ()" using commit_live [OF c2 ok(3) k] by simp
  have "idle A c3 \<and> durable A c3 = view A c2" using commit_ok [OF c2] k k_ok by blast
  then have "view A c3 = d" using ok(2) view_autocommit by simp
  moreover have "str_contains (''sql rejected: '' @ ?m) ''forbidden keyword''" by code_simp
  ultimately show ?thesis
    using w(1) start b(1) loop k k_ok ok(1) d(2)
    by (simp add: test_batch_validate_sql_applied_for_each_request_def apply_batch_def select_from_def)
qed

end

end
