(* ===== verification/Gateway_Test_Proofs.thy ===== *)
theory Gateway_Test_Proofs
  imports Gateway_Tests Lone_Caller Response_Types
begin

text \<open>
  The tests of \<open>src/inprocess.rs\<close> pass for a lone caller on every healthy database that obeys the
  SQLite laws, whose tables behave as their \<open>CREATE TABLE\<close> says.
\<close>

section \<open>The tables of the tests\<close>

text \<open>
  \<open>column d t\<close>: the values inserted into the one column by the statement \<open>t\<close>, or \<open>None\<close> when its
  table is missing; \<open>has_commits\<close> and \<open>has_requests\<close>: the internal table exists; \<open>no_log\<close>: a
  statement of a caller finds no table \<open>squeuelite_commits\<close>.
\<close>

record 'd fixtures =
  column :: "'d \<Rightarrow> string \<Rightarrow> sql_value list option"
  has_commits :: "'d \<Rightarrow> bool"
  has_requests :: "'d \<Rightarrow> bool"
  no_log :: "'d \<Rightarrow> bool"

definition changes_to :: "'d fixtures \<Rightarrow> 'd \<Rightarrow> (string \<Rightarrow> sql_value list option) \<Rightarrow> 'd \<Rightarrow> bool" where
  "changes_to F d cols d' \<longleftrightarrow>
     column F d' = cols \<and> has_commits F d' = has_commits F d \<and> has_requests F d' = has_requests F d
     \<and> no_log F d' = no_log F d"

definition test_tables :: "(string \<times> string) list" where
  "test_tables = [(create_events_sql, insert_events_sql), (create_strict_sql, insert_strict_sql),
     (create_params_sql, insert_params_sql), (create_idem_sql, insert_idem_sql)]"

definition test_statements :: "string list" where
  "test_statements = map fst test_tables @ map snd test_tables
     @ [create_drop_sql, create_del_sql, insert_del_sql, probe_strict_sql, two_inserts_sql, probe_commits_sql]"

locale gateway_test_db = lone_session E A healthy rt calm ready queued + text_db E A
  for E :: "('n, 'c, 'e) env" and A :: "('c, 'd) reading" and healthy
    and rt :: "('n, 'c, 'e, 's) runtime" and calm ready queued +
  fixes F :: "'d fixtures"
  assumes memory: "cfg_db_path config = '':memory:'' \<Longrightarrow> \<exists>c0 c1 c2. conn_open (drv E) '':memory:'' = Inr c0
      \<and> apply_pragmas (drv E) config c0 = (Inr (), c1)
      \<and> run_migrations (drv E) (cfg_track_commits config) (cfg_idempotency config) c1 = (Inr (), c2)
      \<and> idle A c2 \<and> healthy c2 \<and> column F (durable A c2) = Map.empty
      \<and> (if cfg_track_commits config then has_commits F (durable A c2) else no_log F (durable A c2))
      \<and> (cfg_idempotency config \<longrightarrow> has_requests F (durable A c2))
      \<and> stored A (durable A c2) = Map.empty \<and> max_seq A (durable A c2) = 0"
    and plain_statements: "s \<in> set test_statements \<Longrightarrow> plain A s"
    and create_table: "(s, t) \<in> set test_tables \<Longrightarrow> column F d t = None \<Longrightarrow>
      \<exists>d'. effect A s [] d = Some d' \<and> changes_to F d ((column F d)(t \<mapsto> [])) d'"
    and insert_row: "t \<in> {insert_events_sql, insert_idem_sql} \<Longrightarrow> column F d t = Some vs \<Longrightarrow> Text x \<notin> set vs \<Longrightarrow>
      \<exists>d'. effect A t [Text x] d = Some d' \<and> changes_to F d ((column F d)(t \<mapsto> Text x # vs)) d'"
    and insert_again: "column F d insert_idem_sql = Some vs \<Longrightarrow> v \<in> set vs \<Longrightarrow> effect A insert_idem_sql [v] d = None"
    and insert_null: "effect A insert_strict_sql [Null] d = None"
    and insert_probe: "column F d insert_strict_sql = Some [] \<Longrightarrow>
      \<exists>d' cols. effect A probe_strict_sql [] d = Some d' \<and> changes_to F d cols d'"
    and insert_six: "column F d insert_params_sql = Some [] \<Longrightarrow> length ps = 6 \<Longrightarrow>
      \<exists>d' cols. effect A insert_params_sql ps d = Some d' \<and> changes_to F d cols d'"
    and insert_two: "effect A two_inserts_sql [] d = None"
    and insert_untracked: "no_log F d \<Longrightarrow> effect A probe_commits_sql [] d = None"
    and record_seq: "has_commits F d \<Longrightarrow> 0 \<le> max_seq A d \<Longrightarrow> max_seq A d < 2 ^ 32 \<Longrightarrow>
      \<exists>d'. effect A commit_insert_sql [Text i, Text a, Null] d = Some d' \<and> changes_to F d (column F d) d'
        \<and> max_seq A d' = max_seq A d + 1"
    and record_key: "has_requests F d \<Longrightarrow> \<exists>d'. effect A idem_insert_sql [Text k, Text h, Text j, v] d = Some d'
      \<and> changes_to F d (column F d) d'"
begin

text \<open>The contents of the test tables and of the internal tables, with at most \<open>n\<close> commits recorded.\<close>

abbreviation fixture where
  "fixture config cols n K d \<equiv> column F d = cols
     \<and> (if cfg_track_commits config then has_commits F d else no_log F d)
     \<and> (cfg_idempotency config \<longrightarrow> has_requests F d) \<and> stored A d = K \<and> 0 \<le> max_seq A d \<and> max_seq A d \<le> n"

abbreviation one_statement where
  "one_statement i s ps \<equiv> make_request i [sql_op s ps]"

lemma one_statement_sel:
  "rq_request_id (one_statement i s ps) = i" "rq_idempotency_key (one_statement i s ps) = None"
  "rq_operations (one_statement i s ps) = [\<lparr>sql = s, params = ps\<rparr>]"
  "commit_params (one_statement i s ps) = [Text i, Text ''test-actor'', Null]"
  by (simp_all add: make_request_def sql_op_def commit_params_def)

lemma plain_one: "s \<in> set test_statements \<Longrightarrow> plain_request A (one_statement i s ps)"
  using plain_statements by (simp add: plain_request_def one_statement_sel)

lemma opened_session:
  assumes "cfg_db_path config = '':memory:''" and "cfg_queue_capacity config = 1024"
  obtains gw s d where "open_with_config E rt config = Some (Inr (gw, s))" "session_at A healthy calm config d s"
    "fixture config Map.empty 0 Map.empty d"
proof -
  obtain c0 c1 c2 where c: "conn_open (drv E) '':memory:'' = Inr c0" "apply_pragmas (drv E) config c0 = (Inr (), c1)"
    "run_migrations (drv E) (cfg_track_commits config) (cfg_idempotency config) c1 = (Inr (), c2)"
    "idle A c2" "healthy c2" "fixture config Map.empty 0 Map.empty (durable A c2)"
    using memory [OF assms(1)] by auto
  obtain gw s where "open_with_config E rt config = Some (Inr (gw, s))"
    "session_at A healthy calm config (durable A c2) s"
    by (rule session_opened [OF _ c(2-5)]) (use assms c(1) in simp_all)
  then show ?thesis using that c(6) by blast
qed

text \<open>The commit record after the statements of a request.\<close>

lemma commit_one:
  assumes "fixture config cols n K d" and "n < 2 ^ 32" and "commit_params r = [Text i, Text a, Null]"
  shows "\<exists>seq d'. spec_commit A (cfg_track_commits config) r d = Some (seq, d')
    \<and> (seq \<noteq> None \<longleftrightarrow> cfg_track_commits config) \<and> fixture config cols (n + 1) K d'"
proof (cases "cfg_track_commits config")
  case False
  then show ?thesis using assms(1) by (simp add: spec_commit_def)
next
  case True
  then obtain d' where d': "effect A commit_insert_sql [Text i, Text a, Null] d = Some d'"
    "changes_to F d (column F d) d'" "max_seq A d' = max_seq A d + 1"
    using record_seq [of d i a] assms(1,2) by auto
  moreover have "stored A d' = K" using plain_stored [OF _ d'(1)] assms(1) by simp
  ultimately show ?thesis using True assms by (simp add: spec_commit_def changes_to_def)
qed

lemma statement_keeps:
  assumes "fixture config cols n K d" and "s \<in> set test_statements" and "effect A s vs d = Some d1"
    and "changes_to F d cols' d1"
  shows "fixture config cols' n K d1"
  using assms plain_stored [OF _ assms(3)] plain_max_seq [OF _ assms(3)] plain_statements [OF assms(2)]
  by (simp add: changes_to_def)

text \<open>A request of one statement that succeeds.\<close>

lemma run_committed:
  assumes "session_at A healthy calm config d s" and "fixture config cols n K d" and "n < 2 ^ 32"
    and "stmt \<in> set test_statements" and "guard_accepts config (keyword stmt)"
    and "(params_from (serde E) (b64 E) ps :: 'e error + sql_value list) = Inr vs"
    and "effect A stmt vs d = Some d1" and "changes_to F d cols' d1"
  obtains resp s' d' where "handle_execute rt h (one_statement i stmt ps) s = (Inr resp, s')"
    "rs_status resp = Committed" "rs_error resp = None" "rs_commit_seq resp \<noteq> None \<longleftrightarrow> cfg_track_commits config"
    "session_at A healthy calm config d' s'" "fixture config cols' (n + 1) K d'"
proof -
  let ?r = "one_statement i stmt ps"
  obtain seq d' where c: "spec_commit A (cfg_track_commits config) ?r d1 = Some (seq, d')"
    "seq \<noteq> None \<longleftrightarrow> cfg_track_commits config" "fixture config cols' (n + 1) K d'"
    using commit_one [OF statement_keeps [OF assms(2,4,7,8)] assms(3) one_statement_sel(4)] by blast
  have serve: "serve_as E A config ?r d = (Some (committed i seq), d')"
    using assms(5-7) c(1)
    by (simp add: spec_serve_def spec_execute_def spec_tx_def one_statement_sel)
  obtain resp s' where run: "handle_execute rt h ?r s = (Inr resp, s')"
    "outcome resp = fst (serve_as E A config ?r d)" "session_at A healthy calm config (snd (serve_as E A config ?r d)) s'"
    by (rule session_execute [OF assms(1) plain_one [OF assms(4)]])
  have "resp = committed i seq" using run(2) serve by (auto simp: outcome_def split: if_splits)
  then show ?thesis using that [OF run(1)] run(3) serve c(2,3) by simp
qed

lemma unkeyed_wf:
  assumes "rq_idempotency_key r = None" and "writer_apply E w r = (resp, w')"
  shows "response_wf resp"
proof -
  obtain a c1 where a: "admit E (w_config w) (w_idempotency w) r (w_conn w) = (a, c1)" by fastforce
  show ?thesis
  proof (cases a)
    case (Answer x)
    then have "\<exists>m. x = failed (rq_request_id r) m"
      using a assms(1) by (auto simp: admit_def Let_def split: sum.splits if_splits)
    then show ?thesis using assms(2) a Answer by (auto simp: writer_apply_def)
  next
    case (Proceed rec)
    then have "apply_inner E (w\<lparr>w_conn := c1\<rparr>) r rec = (resp, w')"
      using assms(2) a by (simp add: writer_apply_def)
    from apply_inner_typed [OF this] show ?thesis by (simp add: answer_typed_def)
  qed
qed

text \<open>A request that fails in the database, and one that the guard refuses.\<close>

lemma run_failed:
  assumes "session_at A healthy calm config d s" and "plain_request A r" and "rq_idempotency_key r = None"
    and "serve_as E A config r d = (None, d)"
  obtains resp s' where "handle_execute rt h r s = (Inr resp, s')" "rs_status resp = Failed"
    "rs_commit_seq resp = None" "rs_error resp \<noteq> None" "session_at A healthy calm config d s'"
proof -
  obtain resp s' w w' where run: "handle_execute rt h r s = (Inr resp, s')"
    "outcome resp = fst (serve_as E A config r d)" "session_at A healthy calm config (snd (serve_as E A config r d)) s'"
    "writer_apply E w r = (resp, w')"
    by (rule session_execute [OF assms(1,2)])
  have "rs_status resp = Failed" using run(2) assms(4) by (auto simp: outcome_def split: if_splits)
  then show ?thesis
    using that [OF run(1)] unkeyed_wf [OF assms(3) run(4)] run(3) assms(4) by (simp add: response_wf_def)
qed

lemma run_rejected:
  assumes "session_at A healthy calm config d s" and "\<not> guard_accepts config (keyword stmt)"
  obtains resp s' where "handle_execute rt h (one_statement i stmt ps) s = (Inr resp, s')" "rs_status resp = Failed"
    "error_contains resp ''sql rejected''" "session_at A healthy calm config d s'"
proof -
  let ?r = "one_statement i stmt ps"
  obtain w where w: "calm s w" "idle A (w_conn w)" "healthy (w_conn w)" "durable A (w_conn w) = d" "w_config w = config"
      "w_track_commits w = cfg_track_commits config" "w_idempotency w = cfg_idempotency config"
    using assms(1) by (auto simp: session_at_def)
  have "isl (validate_sql stmt config :: 'e error + unit)"
    using assms(2) validate_sql_isl_iff by blast
  then obtain e :: "'e error" where e: "validate_sql stmt config = Inl e" by (auto simp: isl_def)
  then obtain m where m: "(validate_sql stmt config :: 'e error + unit) = Inl (SqlRejected m)"
    using validate_sql_Inl_SqlRejected [OF e] by blast
  let ?resp = "failed i (''sql rejected: '' @ m)"
  have run: "writer_apply E w ?r = (?resp, w)"
    using m w(5) by (simp add: writer_apply_def admit_def one_statement_sel Let_def)
  have "error_contains ?resp ''sql rejected''"
    using str_contains_prefix [of "''sql rejected''" "'': '' @ m"] by (simp add: error_contains_def)
  then show ?thesis
    using that execute_calm [OF w(1) run, of h] w(2-7) unfolding session_at_def by force
qed

end

section \<open>The configurations of the tests\<close>

definition writable :: "gateway_config \<Rightarrow> bool" where
  "writable config \<longleftrightarrow> cfg_allow_raw_sql config \<and> cfg_allow_schema_write config"

lemma statement_accepted:
  assumes "s \<in> set test_statements" and "writable config"
  shows "guard_accepts config (keyword s)"
proof -
  have "list_all (\<lambda>s. List.member [''CREATE'', ''INSERT''] (keyword s)) test_statements" by code_simp
  then have "keyword s = ''CREATE'' \<or> keyword s = ''INSERT''" using assms(1) by (auto simp: list_all_iff)
  then show ?thesis
    using assms(2) by (auto simp: guard_accepts_def writable_def tx_keywords_def schema_keywords_def)
qed

lemma memory_config_sel [simp]:
  "cfg_db_path (memory_config t) = '':memory:''" "cfg_queue_capacity (memory_config t) = 1024"
  "cfg_track_commits (memory_config t) = t" "cfg_idempotency (memory_config t)" "writable (memory_config t)"
  by (simp_all add: memory_config_def writable_def)

lemma test_table_statements: "(s, t) \<in> set test_tables \<Longrightarrow> s \<in> set test_statements \<and> t \<in> set test_statements"
  by (force simp: test_statements_def)

lemma no_params [simp]: "params_from S dec [] = Inr []" and one_param [simp]: "params_from S dec [JString x] = Inr [Text x]"
  by (simp_all add: params_from_def)

lemmas test_defs = opened_def awaited_def create_test_table_def shuts_down_def open_memory_gateway_def

context gateway_test_db
begin

lemma shut_down_ok: "session_at A healthy calm config d s \<Longrightarrow> shuts_down rt gw s"
  using session_shutdown [of config d s gw] by (simp add: shuts_down_def)

lemma run_create:
  assumes "session_at A healthy calm config d s" and "fixture config cols n K d" and "n < 2 ^ 32" and "writable config"
    and "(ddl, t) \<in> set test_tables" and "cols t = None"
  obtains resp s' d' where "handle_execute rt h (one_statement i ddl []) s = (Inr resp, s')"
    "rs_status resp = Committed" "session_at A healthy calm config d' s'" "fixture config (cols(t \<mapsto> [])) (n + 1) K d'"
proof -
  obtain d1 where "effect A ddl [] d = Some d1" "changes_to F d (cols(t \<mapsto> [])) d1"
    using create_table [OF assms(5), of d] assms(2,6) by auto
  then show ?thesis
    using run_committed [OF assms(1-3) _ _ no_params, of ddl d1 "cols(t \<mapsto> [])" h i thesis] that
      test_table_statements [OF assms(5)] statement_accepted [OF _ assms(4), of ddl] by blast
qed


lemma run_insert:
  assumes "session_at A healthy calm config d s" and "fixture config cols n K d" and "n < 2 ^ 32" and "writable config"
    and "t \<in> {insert_events_sql, insert_idem_sql}" and "cols t = Some vs" and "Text x \<notin> set vs"
  obtains resp s' d' where "handle_execute rt h (one_statement i t [JString x]) s = (Inr resp, s')"
    "rs_status resp = Committed" "rs_error resp = None" "rs_commit_seq resp \<noteq> None \<longleftrightarrow> cfg_track_commits config"
    "session_at A healthy calm config d' s'" "fixture config (cols(t \<mapsto> Text x # vs)) (n + 1) K d'"
proof -
  obtain d1 where d1: "effect A t [Text x] d = Some d1" "changes_to F d (cols(t \<mapsto> Text x # vs)) d1"
    using insert_row [OF assms(5), of d vs x] assms(2,6,7) by auto
  have "t \<in> set test_statements" using assms(5) by (auto simp: test_statements_def test_tables_def)
  then show ?thesis
    using run_committed [OF assms(1-3) _ _ one_param d1, of h i thesis] that statement_accepted [OF _ assms(4)] by blast
qed

text \<open>A statement without an effect.\<close>

lemma run_refused:
  assumes "session_at A healthy calm config d s" and "writable config" and "stmt \<in> set test_statements"
    and "(params_from (serde E) (b64 E) ps :: 'e error + sql_value list) = Inr vs" and "effect A stmt vs d = None"
  obtains resp s' where "handle_execute rt h (one_statement i stmt ps) s = (Inr resp, s')" "rs_status resp = Failed"
    "rs_commit_seq resp = None" "rs_error resp \<noteq> None" "session_at A healthy calm config d s'"
proof -
  have "serve_as E A config (one_statement i stmt ps) d = (None, d)"
    using assms(4,5) statement_accepted [OF assms(3,2)]
    by (simp add: spec_serve_def spec_execute_def spec_tx_def one_statement_sel)
  from run_failed [OF assms(1) plain_one [OF assms(3)] one_statement_sel(2) this, of h thesis] that show ?thesis by blast
qed

lemma open_memory:
  obtains gw s d where "open_with_config E rt (memory_config t) = Some (Inr (gw, s))"
    "session_at A healthy calm (memory_config t) d s" "fixture (memory_config t) Map.empty 0 Map.empty d"
  using opened_session [of "memory_config t" thesis] by simp

lemma events_table: "(create_events_sql, insert_events_sql) \<in> set test_tables"
  and strict_table: "(create_strict_sql, insert_strict_sql) \<in> set test_tables"
  and params_table: "(create_params_sql, insert_params_sql) \<in> set test_tables"
  and idem_table: "(create_idem_sql, insert_idem_sql) \<in> set test_tables"
  by (simp_all add: test_tables_def)

lemma single_insert_test: "test_single_insert_committed_with_commit_seq E rt"
proof -
  obtain gw s0 d0 where 0: "open_with_config E rt (memory_config True) = Some (Inr (gw, s0))"
    "session_at A healthy calm (memory_config True) d0 s0" "fixture (memory_config True) Map.empty 0 Map.empty d0"
    by (rule open_memory)
  obtain r1 s1 d1 where 1: "handle_execute rt (handle gw) (one_statement ''setup'' create_events_sql []) s0 = (Inr r1, s1)"
    "rs_status r1 = Committed" "session_at A healthy calm (memory_config True) d1 s1"
    "fixture (memory_config True) [insert_events_sql \<mapsto> []] 1 Map.empty d1"
    by (rule run_create [OF 0(2,3) _ _ events_table]) simp_all
  obtain r2 s2 d2 where 2: "handle_execute rt (handle gw) (one_statement ''req-1'' insert_events_sql [JString ''hello'']) s1 = (Inr r2, s2)"
    "rs_status r2 = Committed" "rs_error r2 = None" "rs_commit_seq r2 \<noteq> None"
    "session_at A healthy calm (memory_config True) d2 s2"
    by (rule run_insert [OF 1(3,4), of insert_events_sql "[]" "''hello''"]) simp_all
  show ?thesis
    using 0(1) 1(1,2) 2(1-4) shut_down_ok [OF 2(5)]
    by (simp add: test_single_insert_committed_with_commit_seq_def open_memory_gateway_def create_test_table_def
        opened_def awaited_def)
qed


lemma rollback_gateway_test: "test_atomic_rollback_on_constraint_violation E rt"
proof -
  let ?config = "memory_config True"
  obtain gw s0 d0 where 0: "open_with_config E rt ?config = Some (Inr (gw, s0))"
    "session_at A healthy calm ?config d0 s0" "fixture ?config Map.empty 0 Map.empty d0"
    by (rule open_memory)
  obtain r1 s1 d1 where 1: "handle_execute rt (handle gw) (one_statement ''setup'' create_strict_sql []) s0 = (Inr r1, s1)"
    "rs_status r1 = Committed" "session_at A healthy calm ?config d1 s1"
    "fixture ?config [insert_strict_sql \<mapsto> []] 1 Map.empty d1"
    by (rule run_create [OF 0(2,3) _ _ strict_table]) simp_all
  let ?r = "make_request ''req-atomic'' [sql_op insert_strict_sql [JString ''good''], sql_op insert_strict_sql [JNull]]
      :: 'n write_request"
  have stmt: "insert_strict_sql \<in> set test_statements" by (simp add: test_statements_def test_tables_def)
  have "(params_from (serde E) (b64 E) [JNull] :: 'e error + sql_value list) = Inr [Null]" by (simp add: params_from_def)
  then have "ops_effect E A (rq_operations ?r) d1 = None"
    by (simp add: make_request_def sql_op_def insert_null split: bind_split)
  then have "spec_execute E A True ?r None d1 = (None, d1)" by (simp add: spec_execute_def spec_tx_def)
  moreover have "list_all (\<lambda>op. guard_accepts ?config (keyword (sql op))) (rq_operations ?r)" "rq_idempotency_key ?r = None"
    using statement_accepted [OF stmt, of ?config] by (simp_all add: make_request_def sql_op_def)
  ultimately have serve: "serve_as E A ?config ?r d1 = (None, d1)" by (simp add: spec_serve_def)
  have plain: "plain_request A ?r" "rq_idempotency_key ?r = None"
    using plain_statements [OF stmt] by (simp_all add: plain_request_def make_request_def sql_op_def)
  obtain r2 s2 where 2: "handle_execute rt (handle gw) ?r s1 = (Inr r2, s2)" "rs_status r2 = Failed"
    "rs_commit_seq r2 = None" "rs_error r2 \<noteq> None" "session_at A healthy calm ?config d1 s2"
    by (rule run_failed [OF 1(3) plain serve])
  obtain d' cols where d': "effect A probe_strict_sql [] d1 = Some d'" "changes_to F d1 cols d'"
    using insert_probe [of d1] 1(4) by auto
  have probe: "probe_strict_sql \<in> set test_statements" by (simp add: test_statements_def)
  obtain r3 s3 d3 where 3: "handle_execute rt (handle gw) (one_statement ''probe'' probe_strict_sql []) s2 = (Inr r3, s3)"
    "rs_status r3 = Committed" "session_at A healthy calm ?config d3 s3"
    by (rule run_committed [OF 2(5) 1(4) _ probe _ no_params d']) (use statement_accepted [OF probe] in simp_all)
  show ?thesis
    using 0(1) 1(1) 2(1-4) 3(1,2) shut_down_ok [OF 3(3)]
    by (simp add: test_atomic_rollback_on_constraint_violation_def open_memory_gateway_def opened_def awaited_def)
qed

lemma multiple_statements_test: "test_multiple_statements_rejected E rt"
proof -
  let ?config = "memory_config True"
  obtain gw s0 d0 where 0: "open_with_config E rt ?config = Some (Inr (gw, s0))"
    "session_at A healthy calm ?config d0 s0" "fixture ?config Map.empty 0 Map.empty d0"
    by (rule open_memory)
  obtain r1 s1 d1 where 1: "handle_execute rt (handle gw) (one_statement ''setup'' create_events_sql []) s0 = (Inr r1, s1)"
    "rs_status r1 = Committed" "session_at A healthy calm ?config d1 s1"
    by (rule run_create [OF 0(2,3) _ _ events_table]) simp_all
  have "two_inserts_sql \<in> set test_statements" by (simp add: test_statements_def)
  from run_refused [OF 1(3) _ this no_params insert_two]
  obtain r2 s2 where 2: "handle_execute rt (handle gw) (one_statement ''req-multi'' two_inserts_sql []) s1 = (Inr r2, s2)"
    "rs_status r2 = Failed" "rs_error r2 \<noteq> None" "session_at A healthy calm ?config d1 s2"
    by (metis memory_config_sel(5))
  show ?thesis
    using 0(1) 1(1,2) 2(1-3) shut_down_ok [OF 2(4)]
    by (simp add: test_multiple_statements_rejected_def open_memory_gateway_def create_test_table_def
        opened_def awaited_def)
qed

lemma untracked_test: "test_track_commits_false_no_commit_seq E rt"
proof -
  let ?config = "memory_config False"
  obtain gw s0 d0 where 0: "open_with_config E rt ?config = Some (Inr (gw, s0))"
    "session_at A healthy calm ?config d0 s0" "fixture ?config Map.empty 0 Map.empty d0"
    by (rule open_memory)
  obtain r1 s1 d1 where 1: "handle_execute rt (handle gw) (one_statement ''setup'' create_events_sql []) s0 = (Inr r1, s1)"
    "rs_status r1 = Committed" "session_at A healthy calm ?config d1 s1"
    "fixture ?config [insert_events_sql \<mapsto> []] 1 Map.empty d1"
    by (rule run_create [OF 0(2,3) _ _ events_table]) simp_all
  obtain r2 s2 d2 where 2: "handle_execute rt (handle gw) (one_statement ''req-notrack'' insert_events_sql [JString ''data'']) s1 = (Inr r2, s2)"
    "rs_status r2 = Committed" "rs_commit_seq r2 = None" "session_at A healthy calm ?config d2 s2"
    "fixture ?config [insert_events_sql \<mapsto> [Text ''data'']] 2 Map.empty d2"
    by (rule run_insert [OF 1(3,4), of insert_events_sql "[]" "''data''"]) simp_all
  have stmt: "probe_commits_sql \<in> set test_statements" by (simp add: test_statements_def)
  have "effect A probe_commits_sql [] d2 = None" using insert_untracked 2(5) by simp
  from run_refused [OF 2(4) _ stmt no_params this]
  obtain r3 s3 where 3: "handle_execute rt (handle gw) (one_statement ''table-check'' probe_commits_sql []) s2 = (Inr r3, s3)"
    "rs_status r3 = Failed" "session_at A healthy calm ?config d2 s3"
    by (metis memory_config_sel(5))
  show ?thesis
    using 0(1) 1(1,2) 2(1-3) 3(1,2) shut_down_ok [OF 3(3)]
    by (simp add: test_track_commits_false_no_commit_seq_def open_memory_gateway_def create_test_table_def
        opened_def awaited_def)
qed


lemma params_test: "test_params_conversion E rt"
proof -
  let ?config = "memory_config False"
  obtain gw s0 d0 where 0: "open_with_config E rt ?config = Some (Inr (gw, s0))"
    "session_at A healthy calm ?config d0 s0" "fixture ?config Map.empty 0 Map.empty d0"
    by (rule open_memory)
  obtain r1 s1 d1 where 1: "handle_execute rt (handle gw) (one_statement ''setup'' create_params_sql []) s0 = (Inr r1, s1)"
    "rs_status r1 = Committed" "session_at A healthy calm ?config d1 s1"
    "fixture ?config [insert_params_sql \<mapsto> []] 1 Map.empty d1"
    by (rule run_create [OF 0(2,3) _ _ params_table]) simp_all
  let ?ps = "[JNull, JBool True, json_i64 (serde E) 42, json_f64 (serde E) two_and_a_half, JString ''hello'',
      JArray [JString ''a'', JString ''b'']] :: 'n json list"
  have number: "\<exists>v. (json_to_sqlite (serde E) (b64 E) (JNumber x) :: 'e error + sql_value) = Inr v" for x
    by (simp split: option.split)
  then obtain v1 v2 where v: "(json_to_sqlite (serde E) (b64 E) (json_i64 (serde E) 42) :: 'e error + sql_value) = Inr v1"
      "(json_to_sqlite (serde E) (b64 E) (json_f64 (serde E) two_and_a_half) :: 'e error + sql_value) = Inr v2"
    unfolding json_i64_def json_f64_def by (metis (no_types) json_to_sqlite.simps(1) option.case_eq_if)
  obtain t where "to_text (serde E) (JArray [JString ''a'', JString ''b'']) = Inr t" using to_text_total by blast
  then have ps: "(params_from (serde E) (b64 E) ?ps :: 'e error + sql_value list) =
      Inr [Null, Integer 1, v1, v2, Text ''hello'', Text t]"
    using v by (simp add: params_from_def text_of_json_def)
  obtain d' cols where d': "effect A insert_params_sql [Null, Integer 1, v1, v2, Text ''hello'', Text t] d1 = Some d'"
    "changes_to F d1 cols d'"
    using insert_six [of d1 "[Null, Integer 1, v1, v2, Text ''hello'', Text t]"] 1(4) by auto
  have stmt: "insert_params_sql \<in> set test_statements" by (simp add: test_statements_def test_tables_def)
  obtain r2 s2 d2 where 2: "handle_execute rt (handle gw) (one_statement ''req-params'' insert_params_sql ?ps) s1 = (Inr r2, s2)"
    "rs_status r2 = Committed" "session_at A healthy calm ?config d2 s2"
    by (rule run_committed [OF 1(3,4) _ stmt _ ps d']) (use statement_accepted [OF stmt] in simp_all)
  show ?thesis
    using 0(1) 1(1) 2(1,2) shut_down_ok [OF 2(3)]
    by (simp add: test_params_conversion_def open_memory_gateway_def opened_def awaited_def)
qed

text \<open>The tests of the guard.\<close>

lemma begin_test: "test_sql_constraint_begin_rejected E rt"
  and pragma_test: "test_sql_constraint_pragma_rejected E rt"
proof -
  obtain gw s d where 0: "open_with_config E rt (memory_config True) = Some (Inr (gw, s))"
    "session_at A healthy calm (memory_config True) d s"
    by (rule open_memory)
  have "\<not> guard_accepts (memory_config True) (keyword ''BEGIN'')"
    "\<not> guard_accepts (memory_config True) (keyword ''PRAGMA journal_mode'')"
    by code_simp+
  note run_rejected [OF 0(2) this(1), of "handle gw" "''req-begin''" "[]"]
    run_rejected [OF 0(2) this(2), of "handle gw" "''req-pragma''" "[]"]
  then show "test_sql_constraint_begin_rejected E rt" "test_sql_constraint_pragma_rejected E rt"
    using 0(1) shut_down_ok
    unfolding test_sql_constraint_begin_rejected_def test_sql_constraint_pragma_rejected_def
      open_memory_gateway_def opened_def awaited_def by fastforce+
qed

lemma schema_test: "test_schema_write_rejected_by_default E rt"
proof -
  let ?config = "gateway_config_new '':memory:''"
  obtain gw s d where 0: "open_with_config E rt ?config = Some (Inr (gw, s))" "session_at A healthy calm ?config d s"
    using opened_session [of ?config thesis] by simp
  have "\<not> guard_accepts ?config (keyword ''CREATE TABLE should_fail (id INTEGER PRIMARY KEY)'')" by code_simp
  note run_rejected [OF 0(2) this, of "handle gw" "''req-create''" "[]"]
  then show ?thesis
    using 0(1) shut_down_ok
    unfolding test_schema_write_rejected_by_default_def opened_def awaited_def by fastforce
qed

lemma drop_test: "test_drop_rejected_by_default E rt"
proof -
  let ?config = "(gateway_config_new '':memory:'')\<lparr>cfg_allow_schema_write := True\<rparr>"
  obtain gw s0 d0 where 0: "open_with_config E rt ?config = Some (Inr (gw, s0))" "session_at A healthy calm ?config d0 s0"
    using opened_session [of ?config thesis] by simp
  have stmt: "create_drop_sql \<in> set test_statements" by (simp add: test_statements_def)
  obtain r1 s1 where 1: "handle_execute rt (handle gw) (one_statement ''setup'' create_drop_sql []) s0 = (Inr r1, s1)"
    "session_at A healthy calm ?config (snd (serve_as E A ?config (one_statement ''setup'' create_drop_sql []) d0)) s1"
    by (rule session_execute [OF 0(2) plain_one [OF stmt]])
  have "\<not> guard_accepts ?config (keyword ''DROP TABLE drop_test'')" by code_simp
  note run_rejected [OF 1(2) this, of "handle gw" "''req-drop''" "[]"]
  then show ?thesis
    using 0(1) 1(1) shut_down_ok
    unfolding test_drop_rejected_by_default_def opened_def awaited_def Let_def by fastforce
qed

lemma delete_test: "test_delete_rejected_when_disabled E rt"
proof -
  let ?config = "(gateway_config_new '':memory:'')\<lparr>cfg_allow_schema_write := True, cfg_allow_delete := False\<rparr>"
  obtain gw s0 d0 where 0: "open_with_config E rt ?config = Some (Inr (gw, s0))" "session_at A healthy calm ?config d0 s0"
    using opened_session [of ?config thesis] by simp
  have stmt: "create_del_sql \<in> set test_statements" "insert_del_sql \<in> set test_statements"
    by (simp_all add: test_statements_def)
  obtain r1 s1 d1 where 1: "handle_execute rt (handle gw) (one_statement ''setup'' create_del_sql []) s0 = (Inr r1, s1)"
    "session_at A healthy calm ?config d1 s1"
    by (rule session_execute [OF 0(2) plain_one [OF stmt(1)]])
  obtain r2 s2 d2 where 2: "handle_execute rt (handle gw) (one_statement ''insert'' insert_del_sql []) s1 = (Inr r2, s2)"
    "session_at A healthy calm ?config d2 s2"
    by (rule session_execute [OF 1(2) plain_one [OF stmt(2)]])
  have "\<not> guard_accepts ?config (keyword ''DELETE FROM del_test'')" by code_simp
  note run_rejected [OF 2(2) this, of "handle gw" "''req-delete''" "[]"]
  then show ?thesis
    using 0(1) 1(1) 2(1) shut_down_ok
    unfolding test_delete_rejected_when_disabled_def opened_def awaited_def Let_def by fastforce
qed


text \<open>A keyed insert leaves its record, and the same request is answered from it.\<close>

abbreviation keyed where
  "keyed i k s ps \<equiv> (one_statement i s ps)\<lparr>rq_idempotency_key := Some k\<rparr>"

lemma keyed_sel:
  "rq_request_id (keyed i k s ps) = i" "rq_idempotency_key (keyed i k s ps) = Some k"
  "rq_operations (keyed i k s ps) = [\<lparr>sql = s, params = ps\<rparr>]"
  "commit_params (keyed i k s ps) = [Text i, Text ''test-actor'', Null]"
  by (simp_all add: make_request_def sql_op_def commit_params_def)

lemma serve_keyed:
  assumes "fixture config cols n Map.empty d" and "n < 2 ^ 32" and "writable config" and "cfg_idempotency config"
    and "cols insert_idem_sql = Some []"
  obtains seq d' where "serve_as E A config (keyed i k insert_idem_sql [JString x]) d = (Some (committed i seq), d')"
    "serve_as E A config (keyed i k insert_idem_sql [JString x]) d' = (Some (committed i seq), d')"
    "column F d' insert_idem_sql = Some [Text x]"
proof -
  let ?r = "keyed i k insert_idem_sql [JString x] :: 'n write_request"
  have stmt: "insert_idem_sql \<in> set test_statements" by (simp add: test_statements_def test_tables_def)
  have guard: "list_all (\<lambda>op. guard_accepts config (keyword (sql op))) (rq_operations ?r)"
    using statement_accepted [OF stmt assms(3)] by (simp add: keyed_sel)
  obtain hash where hash: "to_text (serde E) (operations_to_value (rq_operations ?r)) = Inr hash"
    using to_text_total by blast
  obtain d1 where d1: "effect A insert_idem_sql [Text x] d = Some d1" "changes_to F d (cols(insert_idem_sql \<mapsto> [Text x])) d1"
    using insert_row [of insert_idem_sql d "[]" x] assms(1,5) by auto
  obtain seq d2 where c: "spec_commit A (cfg_track_commits config) ?r d1 = Some (seq, d2)"
    "fixture config (cols(insert_idem_sql \<mapsto> [Text x])) (n + 1) Map.empty d2"
    using commit_one [OF statement_keeps [OF assms(1) stmt d1] assms(2) keyed_sel(4)] by blast
  let ?p = "response_preview (serde E) i seq"
  obtain d3 where d3: "effect A idem_insert_sql [Text k, Text hash, Text ?p, opt_integer seq] d2 = Some d3"
    "changes_to F d2 (column F d2) d3"
    using record_key [of d2] c(2) assms(4) by blast
  have stored3: "stored A d3 k = Some (hash, Some ?p)" using idem_insert_stored [OF d3(1)] c(2) by simp
  have "ops_effect E A (rq_operations ?r) d = Some d1" using d1(1) by (simp add: keyed_sel)
  then have "spec_tx E A (cfg_track_commits config) ?r (Some (k, hash)) d = Some (seq, d3)"
    using c(1) d3(1) by (simp add: spec_tx_def keyed_sel(1) idem_params_def)
  then have "serve_as E A config ?r d = (Some (committed i seq), d3)"
    using assms(1,4) guard hash by (simp add: spec_serve_def spec_execute_def keyed_sel(1,2))
  moreover have "serve_as E A config ?r d3 = (Some (committed i seq), d3)"
    using assms(4) guard hash stored3 by (simp add: spec_serve_def keyed_sel(1,2) stored_preview)
  moreover have "column F d3 insert_idem_sql = Some [Text x]" using d3(2) c(2) by (simp add: changes_to_def)
  ultimately show ?thesis using that by blast
qed

lemma outcome_committed: "outcome resp = Some (committed i s) \<Longrightarrow> rs_status resp = Committed"
  by (auto simp: outcome_def split: if_splits)

lemma end_to_end_test: "test_idempotency_end_to_end E rt"
proof -
  let ?config = "(gateway_config_new '':memory:'')
      \<lparr>cfg_allow_schema_write := True, cfg_idempotency := True, cfg_track_commits := True\<rparr>"
  have config: "writable ?config" "cfg_idempotency ?config" by (simp_all add: writable_def)
  obtain gw s0 d0 where 0: "open_with_config E rt ?config = Some (Inr (gw, s0))" "session_at A healthy calm ?config d0 s0"
    "fixture ?config Map.empty 0 Map.empty d0"
    using opened_session [of ?config thesis] by simp
  obtain r1 s1 d1 where 1: "handle_execute rt (handle gw) (one_statement ''setup'' create_idem_sql []) s0 = (Inr r1, s1)"
    "session_at A healthy calm ?config d1 s1" "fixture ?config [insert_idem_sql \<mapsto> []] 1 Map.empty d1"
    by (rule run_create [OF 0(2,3) _ config(1) idem_table]) simp_all
  let ?r = "keyed ''req-idem'' ''idem-key-1'' insert_idem_sql [JString ''only-once''] :: 'n write_request"
  have stmt: "insert_idem_sql \<in> set test_statements" by (simp add: test_statements_def test_tables_def)
  then have plain: "plain_request A ?r" using plain_statements by (simp add: plain_request_def keyed_sel(3))
  obtain seq d2 where d2: "serve_as E A ?config ?r d1 = (Some (committed ''req-idem'' seq), d2)"
    "serve_as E A ?config ?r d2 = (Some (committed ''req-idem'' seq), d2)"
    "column F d2 insert_idem_sql = Some [Text ''only-once'']"
    by (rule serve_keyed [OF 1(3) _ config]) simp_all
  obtain r2 s2 where 2: "handle_execute rt (handle gw) ?r s1 = (Inr r2, s2)" "outcome r2 = Some (committed ''req-idem'' seq)"
    "session_at A healthy calm ?config d2 s2"
    using session_execute [OF 1(2) plain, of "handle gw" thesis] unfolding d2(1) by simp
  obtain r3 s3 where 3: "handle_execute rt (handle gw) ?r s2 = (Inr r3, s3)" "outcome r3 = Some (committed ''req-idem'' seq)"
    "session_at A healthy calm ?config d2 s3"
    using session_execute [OF 2(3) plain, of "handle gw" thesis] unfolding d2(2) by simp
  have "effect A insert_idem_sql [Text ''only-once''] d2 = None" using insert_again [OF d2(3)] by simp
  from run_refused [OF 3(3) config(1) stmt one_param this]
  obtain r4 s4 where 4: "handle_execute rt (handle gw) (one_statement ''probe-unique'' insert_idem_sql [JString ''only-once'']) s3
      = (Inr r4, s4)"
    "rs_status r4 = Failed" "session_at A healthy calm ?config d2 s4" by metis
  have probe: "(make_request ''probe'' [sql_op insert_idem_sql [JString ''only-once'']])\<lparr>rq_request_id := ''probe-unique''\<rparr>
      = (one_statement ''probe-unique'' insert_idem_sql [JString ''only-once''] :: 'n write_request)"
    by (simp add: make_request_def)
  show ?thesis
    using 0(1) 1(1) 2(1) 3(1) 4(1,2) outcome_committed [OF 2(2)] outcome_committed [OF 3(2)] shut_down_ok [OF 4(3)]
    unfolding test_idempotency_end_to_end_def opened_def awaited_def Let_def probe by simp
qed

end

section \<open>The test of the latency buffer\<close>

text \<open>
  The test asserts a positive average, so it relies on the clock: a \<open>BEGIN IMMEDIATE\<close> that succeeds
  takes a microsecond or more, time does not run backwards, and no call takes \<open>2^60\<close>
  microseconds (36,000 years).
\<close>

locale wall_clock =
  fixes D :: "('c, 'e) driver"
  assumes begin_time: "begin_immediate D c = (Inr (), c') \<Longrightarrow>
      clock_micros D c < clock_micros D c' \<and> clock_micros D c' < clock_micros D c + 2 ^ 60"
    and prepare_time: "prepare_cached D s c = (Inr (), c') \<Longrightarrow>
      clock_micros D c \<le> clock_micros D c' \<and> clock_micros D c' < clock_micros D c + 2 ^ 60"
    and execute_time: "stmt_execute D s ps c = (Inr n, c') \<Longrightarrow>
      clock_micros D c \<le> clock_micros D c' \<and> clock_micros D c' < clock_micros D c + 2 ^ 60"
    and commit_time: "commit_tx D c = (Inr (), c') \<Longrightarrow>
      clock_micros D c \<le> clock_micros D c' \<and> clock_micros D c' < clock_micros D c + 2 ^ 60"

lemma push_new_latency [simp]:
  "\<not> poisoned (push_latency new_latency_buffer x)" "entries (push_latency new_latency_buffer x) = [x]"
  by (simp_all add: push_latency_def new_latency_buffer_def LATENCY_BUF_CAP_def)

lemma single_statement_commits:
  assumes "writer_apply E w (make_request i [sql_op stmt ps]) = (resp, w')" and "rs_status resp = Committed"
    and "\<not> w_track_commits w"
  obtains vs c1 c2 n c3 c4 where "begin_immediate (drv E) (w_conn w) = (Inr (), c1)"
    "prepare_cached (drv E) stmt c1 = (Inr (), c2)" "stmt_execute (drv E) stmt vs c2 = (Inr n, c3)"
    "commit_tx (drv E) c3 = (Inr (), c4)"
    "w_latency_buf w' = push_latency (w_latency_buf w) (elapsed_micros (drv E) (w_conn w) c4)"
  using assms
  by (auto simp: writer_apply_def admit_def apply_inner_def tx_body_def record_commit_def record_idempotency_def
      make_request_def sql_op_def Let_def split: sum.splits prod.splits if_splits)

context wall_clock
begin

lemma elapsed_positive:
  assumes "begin_immediate D c = (Inr (), c1)" and "prepare_cached D s c1 = (Inr (), c2)"
    and "stmt_execute D s ps c2 = (Inr n, c3)" and "commit_tx D c3 = (Inr (), c4)"
  shows "elapsed_micros D c c4 \<noteq> 0"
proof -
  define dt where "dt = clock_micros D c4 - clock_micros D c"
  have "clock_micros D c < clock_micros D c4" "clock_micros D c4 < clock_micros D c + 4 * 2 ^ 60"
    using begin_time [OF assms(1)] prepare_time [OF assms(2)] execute_time [OF assms(3)] commit_time [OF assms(4)]
    by linarith+
  then have "0 < dt" "dt < 4 * 2 ^ 60" unfolding dt_def by linarith+
  then have "0 < dt" "dt < 2 ^ 64" by simp_all
  then have "unat (of_nat dt :: u64) = dt" by (simp add: unat_of_nat)
  with \<open>0 < dt\<close> show ?thesis unfolding elapsed_micros_def dt_def [symmetric] by (metis less_irrefl unat_0)
qed

end

locale timed_test_db = gateway_test_db E A healthy rt calm ready queued F + wall_clock "drv E"
  for E :: "('n, 'c, 'e) env" and A :: "('c, 'd) reading" and healthy
    and rt :: "('n, 'c, 'e, 's) runtime" and calm ready queued and F :: "'d fixtures"
begin

lemma latency_snapshot_test: "test_latency_snapshot_after_commits E rt"
proof -
  let ?config = "memory_config False"
  let ?r = "make_request ''setup'' [sql_op create_events_sql []] :: 'n write_request"
  obtain gw s0 d0 where 0: "open_with_config E rt ?config = Some (Inr (gw, s0))"
    "session_at A healthy calm ?config d0 s0" "fixture ?config Map.empty 0 Map.empty d0"
    by (rule open_memory)
  have empty: "shared_latency rt s0 = new_latency_buffer" using opened_empty [OF 0(1)] by simp
  then have first: "latency_snapshot (shared_latency rt s0) = Some (0, 0)"
    by (simp add: latency_snapshot_def new_latency_buffer_def)
  obtain r1 s1 d1 where 1: "handle_execute rt (handle gw) ?r s0 = (Inr r1, s1)" "rs_status r1 = Committed"
    "session_at A healthy calm ?config d1 s1"
    by (rule run_create [OF 0(2,3) _ _ events_table]) simp_all
  have "create_events_sql \<in> set test_statements" by (simp add: test_statements_def test_tables_def)
  then obtain w w' where w: "writer_apply E w ?r = (r1, w')" "\<not> w_track_commits w"
    "shared_latency rt s0 = w_latency_buf w" "shared_latency rt s1 = w_latency_buf w'"
    using session_execute [OF 0(2) plain_one, of create_events_sql "handle gw" "''setup''" "[]" thesis] 1(1) by auto
  obtain c where "w_latency_buf w' = push_latency new_latency_buffer (elapsed_micros (drv E) (w_conn w) c)"
    "elapsed_micros (drv E) (w_conn w) c \<noteq> 0"
    using w(3) empty elapsed_positive by (auto intro: single_statement_commits [OF w(1) 1(2) w(2)])
  then obtain avg p where "latency_snapshot (shared_latency rt s1) = Some (avg, p)" "f64_gt_zero avg"
    using snapshot_single [OF push_new_latency] w(4) by metis
  then show ?thesis
    using 0(1) 1(1,2) first shut_down_ok [OF 1(3)]
    by (simp add: test_latency_snapshot_after_commits_def test_defs handle_latency_snapshot_def f64_eq_zero_def)
qed

end

section \<open>The tests of the overflow policies\<close>

text \<open>
  \<open>blank\<close>: a channel of capacity 1 that nobody reads; \<open>full\<close>: it holds a command. A bounded
  send that cannot complete runs into its timeout, or fails when the receiver goes away.
\<close>

locale unread_channel =
  fixes rt :: "('n, 'c, 'e, 's) runtime" and blank :: "'s \<Rightarrow> bool" and full :: "'s \<Rightarrow> bool"
  assumes fill: "blank s \<Longrightarrow> try_send rt Shutdown s = (x, s') \<Longrightarrow> x = Sent \<and> full s'"
    and slot_full: "full s \<Longrightarrow> oneshot rt s = (t, s') \<Longrightarrow> full s'"
    and try_full: "full s \<Longrightarrow> fst (try_send rt cmd s) = Queue_Full"
    and timeout_full: "full s \<Longrightarrow> fst (send_timeout rt ms cmd s) \<noteq> Some True"
begin

lemma filled:
  assumes "blank s"
  obtains s1 t s2 where "try_send rt Shutdown s = (Sent, s1)" "oneshot rt s1 = (t, s2)" "full s2"
proof -
  obtain x s1 where "try_send rt Shutdown s = (x, s1)" by fastforce
  moreover obtain t s2 where "oneshot rt s1 = (t, s2)" by fastforce
  ultimately show ?thesis using that fill [OF assms] slot_full by blast
qed

lemma reject_variant_test: "blank s \<Longrightarrow> test_overflow_reject_error_variant rt s"
proof -
  assume "blank s"
  then obtain s1 t s2 where 1: "try_send rt Shutdown s = (Sent, s1)" "oneshot rt s1 = (t, s2)" "full s2"
    by (rule filled)
  let ?cmd = "Write (make_request ''overflow'' [overflow_op]) t :: 'n command"
  obtain y s3 where y: "try_send rt ?cmd s2 = (y, s3)" by fastforce
  then have "y = Queue_Full" using try_full [OF 1(3), of ?cmd] by simp
  then show ?thesis
    using 1 y by (simp add: test_overflow_reject_error_variant_def handle_execute_def submit_def)
qed

lemma wait_timeout_test: "blank s \<Longrightarrow> test_overflow_wait_timeout_returns_gateway_overloaded rt s"
proof -
  assume "blank s"
  then obtain s1 t s2 where 1: "try_send rt Shutdown s = (Sent, s1)" "oneshot rt s1 = (t, s2)" "full s2"
    by (rule filled)
  let ?cmd = "Write (make_request ''timeout-overflow'' [overflow_op]) t :: 'n command"
  obtain y s3 where y: "send_timeout rt 1 ?cmd s2 = (y, s3)" by fastforce
  then have "y = None \<or> y = Some False" using timeout_full [OF 1(3), of 1 ?cmd]
    by (cases y) auto
  then show ?thesis
    using 1 y by (auto simp: test_overflow_wait_timeout_returns_gateway_overloaded_def handle_execute_def submit_def)
qed

end

end
