(* ===== verification/Test_Theorems.thy ===== *)
theory Test_Theorems
  imports Session_Theorems Unit_Test_Proofs Gateway_Test_Proofs
begin





text \<open>Statements that the reference store treats like any other.\<close>

definition ordinary :: "string \<Rightarrow> bool" where
  "ordinary s \<longleftrightarrow> \<not> List.member [commit_insert_sql, idem_insert_sql, []] s \<and> \<not> many_statements s \<and> \<not> writes_log s"

lemma ref_effect_ordinary:
  "ordinary s \<Longrightarrow> ref_effect s ps d = (if ps = [Null] \<or> (s, ps) \<in> set (user_rows d) then None
     else Some (d\<lparr>user_rows := (s, ps) # user_rows d\<rparr>))"
  by (auto simp: ordinary_def ref_effect_def)


lemma ref_batch_ddl:
  "ref_batch create_t_sql c = (Inr (), c)" "ref_batch create_unique_t_sql c = (Inr (), c)"
  "ref_batch create_blob_sql c = (Inr (), c)" "ref_batch commits_ddl c = (Inr (), c)"
  "ref_batch requests_ddl c = (Inr (), c)"
  by (simp_all add: ref_batch_def create_t_sql_def create_unique_t_sql_def create_blob_sql_def
      commits_ddl_def requests_ddl_def)




section \<open>The tables of the gateway's tests\<close>

text \<open>The row of the literal probe is a row of its table.\<close>

definition rows_of :: "string \<Rightarrow> ref_db \<Rightarrow> sql_value list" where
  "rows_of t d = List.map_filter
     (\<lambda>(stmt, ps). if stmt = t \<or> t = insert_strict_sql \<and> stmt = probe_strict_sql
        then Some (case ps of [v] \<Rightarrow> v | _ \<Rightarrow> Null) else None) (user_rows d)"

definition ref_column :: "ref_db \<Rightarrow> string \<Rightarrow> sql_value list option" where
  "ref_column d t = (case map_of (map prod.swap test_tables) t of
       None \<Rightarrow> None
     | Some ddl \<Rightarrow> if rows_of t d = [] \<and> (ddl, []) \<notin> set (user_rows d) then None else Some (rows_of t d))"

definition ref_fixtures :: "ref_db fixtures" where
  "ref_fixtures = \<lparr>column = ref_column, has_commits = (\<lambda>d. True), has_requests = (\<lambda>d. True), no_log = (\<lambda>d. True)\<rparr>"

lemma test_names_distinct: "distinct (map fst test_tables @ map snd test_tables @ [probe_strict_sql])"
  by code_simp

lemma ordinary_statements:
  assumes "s \<in> set test_statements" and "s \<noteq> two_inserts_sql" and "s \<noteq> probe_commits_sql"
  shows "ordinary s"
proof -
  have "list_all (\<lambda>s. s = two_inserts_sql \<or> s = probe_commits_sql \<or> ordinary s) test_statements" by code_simp
  then show ?thesis using assms by (auto simp: list_all_iff)
qed

lemma test_table_ordinary: "(s, t) \<in> set test_tables \<Longrightarrow> ordinary s \<and> ordinary t"
proof -
  have "list_all (\<lambda>(s, t). ordinary s \<and> ordinary t) test_tables" by code_simp
  then show "(s, t) \<in> set test_tables \<Longrightarrow> ordinary s \<and> ordinary t" by (auto simp: list_all_iff)
qed

lemma rows_of_Cons:
  "rows_of t (d\<lparr>user_rows := (s, ps) # user_rows d\<rparr>) =
     (if s = t \<or> t = insert_strict_sql \<and> s = probe_strict_sql then (case ps of [v] \<Rightarrow> v | _ \<Rightarrow> Null) # rows_of t d
      else rows_of t d)"
  by (simp add: rows_of_def List.map_filter_simps)

lemma in_rows_of: "(t, [v]) \<in> set (user_rows d) \<Longrightarrow> v \<in> set (rows_of t d)"
  by (force simp: rows_of_def List.map_filter_def)

lemma rows_of_Nil: "rows_of t d = [] \<Longrightarrow> (t, ps) \<notin> set (user_rows d)"
  by (auto simp: rows_of_def List.map_filter_def filter_empty_conv)

lemma rows_of_in: "v \<in> set (rows_of insert_idem_sql d) \<Longrightarrow> v = Null \<or> (insert_idem_sql, [v]) \<in> set (user_rows d)"
proof -
  have "insert_idem_sql \<noteq> insert_strict_sql" by (simp add: insert_idem_sql_def insert_strict_sql_def)
  then show "v \<in> set (rows_of insert_idem_sql d) \<Longrightarrow> v = Null \<or> (insert_idem_sql, [v]) \<in> set (user_rows d)"
    by (auto simp: rows_of_def List.map_filter_def split: list.splits if_splits)
qed

lemma rows_of_no_probe: "rows_of insert_strict_sql d = [] \<Longrightarrow> (probe_strict_sql, ps) \<notin> set (user_rows d)"
  by (auto simp: rows_of_def List.map_filter_def filter_empty_conv)

lemma distinct_maps:
  "distinct (map fst l) \<Longrightarrow> (s, t) \<in> set l \<Longrightarrow> (s, t') \<in> set l \<Longrightarrow> t = t'"
  "distinct (map snd l) \<Longrightarrow> (s, t) \<in> set l \<Longrightarrow> (s', t) \<in> set l \<Longrightarrow> s = s'"
  by (induction l) force+

lemma test_tables_names:
  assumes "(s, t) \<in> set test_tables" and "(s', t') \<in> set test_tables"
  shows "s \<noteq> t'" "s \<noteq> probe_strict_sql" "t \<noteq> probe_strict_sql" "s = s' \<longleftrightarrow> t = t'"
proof -
  have d: "distinct (map fst test_tables)" "distinct (map snd test_tables)"
    using test_names_distinct by simp_all
  show "s = s' \<longleftrightarrow> t = t'"
    using distinct_maps(1) [OF d(1) assms(1), of t'] distinct_maps(2) [OF d(2) assms(1), of s'] assms(2) by auto
  have "fst ` set test_tables \<inter> (snd ` set test_tables \<union> {probe_strict_sql}) = {}"
    "snd ` set test_tables \<inter> {probe_strict_sql} = {}"
    using test_names_distinct by auto
  moreover have "s \<in> fst ` set test_tables" "t \<in> snd ` set test_tables" "t' \<in> snd ` set test_tables"
    using assms by force+
  ultimately show "s \<noteq> t'" "s \<noteq> probe_strict_sql" "t \<noteq> probe_strict_sql" by blast+
qed

lemma ref_column_table:
  assumes "(s, t) \<in> set test_tables"
  shows "ref_column d t = (if rows_of t d = [] \<and> (s, []) \<notin> set (user_rows d) then None else Some (rows_of t d))"
proof -
  have "distinct (map fst (map prod.swap test_tables))" using test_names_distinct by (simp add: comp_def)
  moreover have "(t, s) \<in> set (map prod.swap test_tables)" using assms by force
  ultimately have "map_of (map prod.swap test_tables) t = Some s" by (rule map_of_is_SomeI)
  then show ?thesis by (simp add: ref_column_def)
qed

lemma ref_column_other: "\<nexists>s. (s, t) \<in> set test_tables \<Longrightarrow> ref_column d t = None"
  by (auto simp: ref_column_def split: option.split dest!: map_of_SomeD)

text \<open>Two databases agree on the tables on which they agree.\<close>

lemma ref_column_eqI:
  assumes "\<And>s' t'. (s', t') \<in> set test_tables \<Longrightarrow> ref_column d' t' = ((ref_column d)(t := x)) t'"
    and "(s, t) \<in> set test_tables"
  shows "ref_column d' = (ref_column d)(t := x)"
proof
  fix t'
  show "ref_column d' t' = ((ref_column d)(t := x)) t'"
  proof (cases "\<exists>s'. (s', t') \<in> set test_tables")
    case True
    then show ?thesis using assms(1) by blast
  next
    case False
    then show ?thesis using assms(2) ref_column_other [of t'] by auto
  qed
qed

lemma ref_column_create:
  assumes "(s, t) \<in> set test_tables" and "ref_column d t = None"
  shows "ref_column (d\<lparr>user_rows := (s, []) # user_rows d\<rparr>) = (ref_column d)(t \<mapsto> [])" (is "ref_column ?d = _")
    and "(s, []) \<notin> set (user_rows d)"
proof -
  have d: "rows_of t d = []" "(s, []) \<notin> set (user_rows d)"
    using assms(2) ref_column_table [OF assms(1)] by (auto split: if_splits)
  show "(s, []) \<notin> set (user_rows d)" by (rule d(2))
  show "ref_column ?d = (ref_column d)(t \<mapsto> [])"
  proof (rule ref_column_eqI [OF _ assms(1)])
    fix s' t' assume t': "(s', t') \<in> set test_tables"
    note names = test_tables_names [OF assms(1) t']
    have "rows_of t' ?d = rows_of t' d" using names(1,2) by (simp add: rows_of_Cons)
    then show "ref_column ?d t' = ((ref_column d)(t \<mapsto> [])) t'"
      using d names(4) ref_column_table [OF t'] by auto
  qed
qed

lemma ref_column_insert:
  assumes "(s, t) \<in> set test_tables" and "ref_column d t = Some vs"
  shows "ref_column (d\<lparr>user_rows := (t, [v]) # user_rows d\<rparr>) = (ref_column d)(t \<mapsto> v # vs)" (is "ref_column ?d = _")
    and "vs = rows_of t d"
proof -
  show vs: "vs = rows_of t d" using assms(2) ref_column_table [OF assms(1)] by (auto split: if_splits)
  show "ref_column ?d = (ref_column d)(t \<mapsto> v # vs)"
  proof (rule ref_column_eqI [OF _ assms(1)])
    fix s' t' assume t': "(s', t') \<in> set test_tables"
    have names: "t \<noteq> probe_strict_sql" "t \<noteq> s'"
      using test_tables_names(1,3) [OF assms(1) t'] test_tables_names(1) [OF t' assms(1)] by auto
    have "rows_of t' ?d = (if t' = t then v # rows_of t d else rows_of t' d)"
      using names(1) by (auto simp: rows_of_Cons)
    then show "ref_column ?d t' = ((ref_column d)(t \<mapsto> v # vs)) t'"
      using names(2) vs ref_column_table [OF t'] by auto
  qed
qed

lemma two_inserts_fails: "ref_effect two_inserts_sql ps d = None" "ref_effect probe_commits_sql ps d = None"
proof -
  have "many_statements two_inserts_sql \<and> \<not> List.member [commit_insert_sql, idem_insert_sql] two_inserts_sql"
    "writes_log probe_commits_sql \<and> \<not> List.member [commit_insert_sql, idem_insert_sql] probe_commits_sql"
    by code_simp+
  then show "ref_effect two_inserts_sql ps d = None" "ref_effect probe_commits_sql ps d = None"
    by (simp_all add: ref_effect_def)
qed

lemma ref_changes:
  "changes_to ref_fixtures d cols d' \<longleftrightarrow> ref_column d' = cols" "column ref_fixtures = ref_column"
  by (simp_all add: changes_to_def ref_fixtures_def)

lemma ref_column_internal:
  "ref_column (d\<lparr>commit_rows := x, seq_mark := y\<rparr>) = ref_column d"
  "ref_column (d\<lparr>request_rows := z\<rparr>) = ref_column d"
  by (simp_all add: ref_column_def rows_of_def fun_eq_iff split: option.split)

lemma ref_memory:
  assumes "cfg_db_path config = '':memory:''"
  shows "conn_open (drv ref_env) '':memory:'' = Inr (ref_open [])"
    "apply_pragmas (drv ref_env) config (ref_open []) = (Inr (), ref_open [])"
    "run_migrations (drv ref_env) t i (ref_open []) = (Inr (), ref_open [])"
  by (simp_all add: apply_pragmas_def run_migrations_def migrate_def ref_driver_sel ref_get_string_def nth_opt_def
      ref_batch_ddl)

lemma ref_opened:
  "idle ref_reading (ref_open [])" "ref_healthy (ref_open [])"
  "column ref_fixtures (durable ref_reading (ref_open [])) = Map.empty"
  "has_commits ref_fixtures d" "has_requests ref_fixtures d" "no_log ref_fixtures d"
  "stored ref_reading (durable ref_reading (ref_open [])) = Map.empty"
  "max_seq ref_reading (durable ref_reading (ref_open [])) = 0"
  by (simp_all add: ref_reading_sel ref_open_def ref_healthy_def ref_fixtures_def empty_db_def ref_column_def
      rows_of_def List.map_filter_simps fun_eq_iff split: option.split)

interpretation ref_gateway: gateway_test_db ref_env ref_reading ref_healthy ref_runtime net_calm net_ready net_queued ref_fixtures
proof (unfold_locales, goal_cases)
  case (1 config)
  then show ?case
    using ref_memory(1,2) [of config] ref_memory(3) [of config "cfg_track_commits config" "cfg_idempotency config"] ref_opened
    by (intro exI [of _ "ref_open []"]) simp
next
  case (2 s)
  have "list_all (plain ref_reading) test_statements" by code_simp
  with 2 show ?case by (simp add: list_all_iff)
next
  case (3 s t d)
  then show ?case
    using ref_column_create [of s t d] test_table_ordinary [of s t]
    by (simp add: ref_reading_sel ref_changes ref_effect_ordinary)
next
  case (4 t d vs x)
  then obtain s where s: "(s, t) \<in> set test_tables" by (auto simp: test_tables_def)
  have "(t, [Text x]) \<notin> set (user_rows d)"
    using 4(2,3) in_rows_of [of t "Text x" d] ref_column_insert(2) [OF s, of d vs] by (auto simp: ref_changes)
  then show ?case
    using 4(2) ref_column_insert(1) [OF s, of d vs] test_table_ordinary [OF s]
    by (simp add: ref_reading_sel ref_changes ref_effect_ordinary)
next
  case (5 d vs v)
  have s: "(create_idem_sql, insert_idem_sql) \<in> set test_tables" by (simp add: test_tables_def)
  show ?case
    using 5 rows_of_in [of v d] ref_column_insert(2) [OF s, of d vs] test_table_ordinary [OF s]
    by (auto simp: ref_reading_sel ref_changes ref_effect_ordinary)
next
  case (6 d)
  have s: "(create_strict_sql, insert_strict_sql) \<in> set test_tables" by (simp add: test_tables_def)
  show ?case using test_table_ordinary [OF s] by (simp add: ref_reading_sel ref_effect_ordinary)
next
  case (7 d)
  have s: "(create_strict_sql, insert_strict_sql) \<in> set test_tables" by (simp add: test_tables_def)
  have "rows_of insert_strict_sql d = []"
    using 7 ref_column_table [OF s, of d] by (auto simp: ref_changes split: if_splits)
  moreover have "ordinary probe_strict_sql" by code_simp
  ultimately show ?case
    using rows_of_no_probe [of d "[]"] by (simp add: ref_reading_sel ref_changes ref_effect_ordinary)
next
  case (8 d ps)
  have s: "(create_params_sql, insert_params_sql) \<in> set test_tables" by (simp add: test_tables_def)
  have "rows_of insert_params_sql d = []"
    using 8(1) ref_column_table [OF s, of d] by (auto simp: ref_changes split: if_splits)
  then show ?case
    using 8(2) rows_of_Nil [of insert_params_sql d ps] test_table_ordinary [OF s]
    by (auto simp: ref_reading_sel ref_changes ref_effect_ordinary)
next
  case 9
  then show ?case by (simp add: ref_reading_sel two_inserts_fails)
next
  case 10
  then show ?case by (simp add: ref_reading_sel two_inserts_fails)
next
  case (11 d i a)
  then show ?case
    by (simp add: ref_reading_sel ref_changes ref_effect_def ref_column_internal)
next
  case (12 d k h j v)
  then show ?case
    using commit_idem_sql_neq by (simp add: ref_reading_sel ref_changes ref_effect_def ref_column_internal)
qed





section \<open>The tests\<close>





end
