(* ===== verification/Example.thy ===== *)
theory Example
  imports Reference
begin

text \<open>
  \<open>examples/inprocess_writer.rs\<close>: opening an in-memory gateway that may change the schema, three
  requests, and the shutdown. What it prints is left out; \<open>?\<close> is the early return with the
  error. The last lemma runs it on the reference store.
\<close>

definition example_config :: gateway_config where
  "example_config = (gateway_config_new '':memory:'')\<lparr>cfg_allow_schema_write := True\<rparr>"

definition example_request :: "string \<Rightarrow> string \<Rightarrow> 'n sql_operation list \<Rightarrow> 'n write_request" where
  "example_request i actor ops =
     \<lparr>rq_request_id = i, rq_actor_id = actor, rq_run_id = Some ''run-demo'',
      rq_idempotency_key = None, rq_operations = ops\<rparr>"

definition insert_event :: "string list \<Rightarrow> 'n sql_operation" where
  "insert_event vs =
     \<lparr>sql = ''INSERT INTO events(agent_id, kind, payload) VALUES (?, ?, ?)'', params = map JString vs\<rparr>"

definition example_requests :: "'n write_request list" where
  "example_requests =
     [example_request ''setup-1'' ''example-actor''
        [\<lparr>sql = ''CREATE TABLE IF NOT EXISTS events '' @
            ''(id INTEGER PRIMARY KEY, agent_id TEXT, kind TEXT, payload TEXT)'', params = []\<rparr>],
      example_request ''req-1'' ''agent-a''
        [insert_event [''agent-a'', ''tool_result'', ''{'' @ dquote ''ok'' @ '':true}'']],
      example_request ''req-2'' ''agent-b''
        [insert_event [''agent-b'', ''started'', ''{}''],
         insert_event [''agent-b'', ''completed'', ''{'' @ dquote ''rows'' @ '':42}'']]]"

text \<open>The calls in order; the first error ends them.\<close>

fun execute_in_turn ::
  "('n, 'c, 'e, 's) runtime \<Rightarrow> gateway_handle \<Rightarrow> 'n write_request list \<Rightarrow> 's \<Rightarrow>
   ('e error + write_response list) \<times> 's" where
  "execute_in_turn rt h [] s = (Inr [], s)"
| "execute_in_turn rt h (r # rs) s =
     (case handle_execute rt h r s of
        (Inl e, s1) \<Rightarrow> (Inl e, s1)
      | (Inr resp, s1) \<Rightarrow>
        (case execute_in_turn rt h rs s1 of
           (Inl e, s2) \<Rightarrow> (Inl e, s2)
         | (Inr resps, s2) \<Rightarrow> (Inr (resp # resps), s2)))"

text \<open>\<open>None\<close> is a panic; the result lists the responses the example prints.\<close>

definition example_main ::
  "('n, 'c, 'e) env \<Rightarrow> ('n, 'c, 'e, 's) runtime \<Rightarrow> ('e error + write_response list \<times> 's) option" where
  "example_main E rt =
     (case open_with_config E rt example_config of
        None \<Rightarrow> None
      | Some (Inl e) \<Rightarrow> Some (Inl e)
      | Some (Inr (gw, s)) \<Rightarrow>
        (case execute_in_turn rt (handle gw) example_requests s of
           (Inl e, s1) \<Rightarrow> Some (Inl e)
         | (Inr resps, s1) \<Rightarrow>
           (case shutdown rt gw s1 of
              (Inl e, s2) \<Rightarrow> Some (Inl e)
            | (Inr _, s2) \<Rightarrow> Some (Inr (resps, s2)))))"

lemma example_on_reference:
  "(case example_main ref_env ref_runtime of
      Some (Inr (resps, s)) \<Rightarrow>
        resps = [committed ''setup-1'' (Some 1), committed ''req-1'' (Some 2), committed ''req-2'' (Some 3)]
        \<and> length (user_rows (disk (w_conn (net_writer s)))) = 4 \<and> net_closed s
    | _ \<Rightarrow> False)"
  by code_simp

end
